(* ===== verification/VgiPrelude.thy ===== *)
theory VgiPrelude
  imports Main "HOL-Library.Word" "HOL-Library.Sublist" "HOL-Library.AList"
    "HOL-Library.Char_ord" "HOL-Library.List_Lexorder"
begin

text \<open>
  Shared ground of the development.

  \<^item> \<open>byte\<close>, \<open>bytes\<close>, \<open>int64\<close>: Go's \<open>byte\<close>, \<open>[]byte\<close> and \<open>int64\<close> at their width. Signed
    comparisons on \<open>int64\<close> are written with \<open><s\<close> and \<open>\<le>s\<close>, so wrap-around is visible.
  \<^item> \<open>str\<close> and \<open>unstr\<close>: the conversions \<open>[]byte(s)\<close> and \<open>string(b)\<close>; a Go string is a HOL \<open>string\<close>
    whose characters are its bytes.
  \<^item> \<open>'e + 'a\<close> is the result of a fallible Go function (\<open>Inl\<close> the error); \<open>rbind\<close> is the early
    return of \<open>if err != nil\<close>.
  \<^item> \<open>le_bytes\<close>, \<open>le_nat\<close>, \<open>be_bytes\<close>, \<open>be_nat\<close>: \<open>encoding/binary\<close> in both byte orders.
  \<^item> \<open>unicode\<close>: the Unicode tables behind \<open>strings.ToLower\<close>, \<open>strings.ToUpper\<close> and
    \<open>strings.EqualFold\<close>. ASCII strings are computed; a string with a byte of 128 or more is sent
    to the table, which every definition that folds case takes as an argument.
  \<^item> Go maps whose contents are iterated are association lists with distinct keys, updated with
    \<^const>\<open>AList.update\<close> and \<^const>\<open>AList.delete\<close>.
\<close>

named_theorems codec_simps \<open>lengths, round trips and prefixes of byte encodings\<close>
named_theorems res_simps \<open>inversion of early returns\<close>

section \<open>Types\<close>

type_synonym byte = "8 word"
type_synonym bytes = "byte list"
type_synonym int64 = "64 word"
type_synonym int32 = "32 word"

section \<open>Results and early returns\<close>

definition rbind :: "'e + 'a \<Rightarrow> ('a \<Rightarrow> 'e + 'b) \<Rightarrow> 'e + 'b" where
  "rbind m f = (case m of Inl e \<Rightarrow> Inl e | Inr x \<Rightarrow> f x)"

definition rmap_err :: "('e \<Rightarrow> 'f) \<Rightarrow> 'e + 'a \<Rightarrow> 'f + 'a" where
  "rmap_err g m = (case m of Inl e \<Rightarrow> Inl (g e) | Inr x \<Rightarrow> Inr x)"

definition is_ok :: "'e + 'a \<Rightarrow> bool" where
  "is_ok m = (case m of Inl _ \<Rightarrow> False | Inr _ \<Rightarrow> True)"

lemma rbind_simps [simp]:
  "rbind (Inl e) f = Inl e"
  "rbind (Inr x) f = f x"
  by (simp_all add: rbind_def)

lemma rmap_err_simps [simp]:
  "rmap_err g (Inl e) = Inl (g e)"
  "rmap_err g (Inr x) = Inr x"
  by (simp_all add: rmap_err_def)

lemma is_ok_simps [simp]: "is_ok (Inr x)" "\<not> is_ok (Inl e)"
  by (simp_all add: is_ok_def)

lemma rbind_Inr_iff [res_simps]:
  "rbind m f = Inr y \<longleftrightarrow> (\<exists>x. m = Inr x \<and> f x = Inr y)"
  by (cases m) simp_all

lemma rbind_unit_iff: "rbind m f = Inr y \<longleftrightarrow> m = Inr () \<and> f () = Inr y"
  by (cases m) simp_all

lemma rbind_Inl_iff [res_simps]:
  "rbind m f = Inl e \<longleftrightarrow> m = Inl e \<or> (\<exists>x. m = Inr x \<and> f x = Inl e)"
  by (cases m) simp_all

lemma rmap_err_Inr_iff [res_simps]: "rmap_err g m = Inr x \<longleftrightarrow> m = Inr x"
  by (cases m) simp_all

lemma is_ok_iff [res_simps]: "is_ok m \<longleftrightarrow> (\<exists>x. m = Inr x)"
  by (cases m) simp_all

lemma if_Inl_Inr_iff [res_simps]: "(if b then Inl e else m) = Inr x \<longleftrightarrow> \<not> b \<and> m = Inr x"
  by simp

lemma case_Inl_Inr_iff [res_simps]:
  "(case m of Inl d \<Rightarrow> Inl (f d) | Inr p \<Rightarrow> g p) = Inr x \<longleftrightarrow> (\<exists>p. m = Inr p \<and> g p = Inr x)"
  by (cases m) simp_all

lemma rbind_cong [fundef_cong]:
  "m = m' \<Longrightarrow> (\<And>x. m' = Inr x \<Longrightarrow> f x = g x) \<Longrightarrow> rbind m f = rbind m' g"
  by (cases m') simp_all

text \<open>Every error a computation can give satisfies \<open>P\<close>: compositional over early returns.\<close>

definition errs_in :: "('e \<Rightarrow> bool) \<Rightarrow> 'e + 'a \<Rightarrow> bool" where
  "errs_in P m \<longleftrightarrow> (\<forall>e. m = Inl e \<longrightarrow> P e)"

lemma errs_inD: "errs_in P m \<Longrightarrow> m = Inl e \<Longrightarrow> P e"
  by (simp add: errs_in_def)

lemma errs_in_basic [simp]: "errs_in P (Inr x)" "errs_in P (Inl e) \<longleftrightarrow> P e"
  by (simp_all add: errs_in_def)

lemma errs_in_rbind [intro]:
  "errs_in P m \<Longrightarrow> (\<And>x. m = Inr x \<Longrightarrow> errs_in P (f x)) \<Longrightarrow> errs_in P (rbind m f)"
  by (auto simp: errs_in_def rbind_Inl_iff)

lemma errs_in_if [intro]:
  "(b \<Longrightarrow> errs_in P m) \<Longrightarrow> (\<not> b \<Longrightarrow> errs_in P m') \<Longrightarrow> errs_in P (if b then m else m')"
  by simp

lemma errs_in_prod [intro]:
  "(\<And>x y. p = (x, y) \<Longrightarrow> errs_in P (f x y)) \<Longrightarrow> errs_in P (case p of (x, y) \<Rightarrow> f x y)"
  by (cases p) simp

lemma errs_in_option:
  "(x = None \<Longrightarrow> errs_in P m) \<Longrightarrow> (\<And>y. x = Some y \<Longrightarrow> errs_in P (f y)) \<Longrightarrow>
    errs_in P (case x of None \<Rightarrow> m | Some y \<Rightarrow> f y)"
  by (cases x) simp_all

lemmas errs_in_intros = errs_in_rbind errs_in_if errs_in_prod

section \<open>Strings as bytes\<close>

definition byte_of_char :: "char \<Rightarrow> byte" where
  "byte_of_char c = word_of_nat (of_char c)"

definition str :: "string \<Rightarrow> bytes" where
  "str s = map byte_of_char s"

definition unstr :: "bytes \<Rightarrow> string" where
  "unstr bs = map (\<lambda>b. char_of (unat b)) bs"

lemma unat_byte_less [simp]: "unat (b :: byte) < 256"
  using unsigned_less [of b] by simp

lemma unat_byte_of_char [simp]: "unat (byte_of_char c) = of_char c"
  by (simp add: byte_of_char_def unat_of_nat)

lemma byte_of_char_char_of [simp]: "byte_of_char (char_of (unat b)) = b"
  by (simp add: byte_of_char_def)

lemma char_of_byte_of_char [simp]: "char_of (unat (byte_of_char c)) = c"
  by simp

lemma byte_of_char_inject [simp]: "byte_of_char c = byte_of_char d \<longleftrightarrow> c = d"
  by (metis char_of_byte_of_char)

lemma unstr_str [simp]: "unstr (str s) = s"
  by (induction s) (simp_all add: str_def unstr_def)

lemma str_unstr [simp]: "str (unstr bs) = bs"
  by (induction bs) (simp_all add: str_def unstr_def)

lemma str_inject [simp]: "str s = str t \<longleftrightarrow> s = t"
  by (metis unstr_str)

lemma unstr_inject [simp]: "unstr s = unstr t \<longleftrightarrow> s = t"
  by (metis str_unstr)

lemma str_append [simp]: "str (s @ t) = str s @ str t"
  by (simp add: str_def)

lemma length_str [simp]: "length (str s) = length s"
  by (simp add: str_def)

lemma length_unstr [simp]: "length (unstr s) = length s"
  by (simp add: unstr_def)

lemma str_Nil [simp]: "str [] = []" "unstr [] = []" "str s = [] \<longleftrightarrow> s = []"
  by (simp_all add: str_def unstr_def)

lemma str_Cons: "str (c # s) = byte_of_char c # str s"
  by (simp add: str_def)

text \<open>A delimiter that does not occur in the field before it marks where the field ends.\<close>

lemma delimited_inject:
  assumes "d \<notin> set xs" "d \<notin> set ys" "xs @ d # u = ys @ d # v"
  shows "xs = ys \<and> u = v"
  using assms
proof (induction xs arbitrary: ys)
  case Nil then show ?case by (cases ys) auto
next
  case (Cons x xs) then show ?case by (cases ys) auto
qed

lemma delimited_iff [simp]:
  "d \<notin> set xs \<Longrightarrow> d \<notin> set ys \<Longrightarrow> xs @ d # u = ys @ d # v \<longleftrightarrow> xs = ys \<and> u = v"
  by (metis delimited_inject)

section \<open>Fixed-width integers in bytes\<close>

primrec le_bytes :: "nat \<Rightarrow> nat \<Rightarrow> bytes" where
  "le_bytes 0 x = []"
| "le_bytes (Suc n) x = word_of_nat (x mod 256) # le_bytes n (x div 256)"

fun le_nat :: "bytes \<Rightarrow> nat" where
  "le_nat [] = 0"
| "le_nat (b # bs) = unat b + 256 * le_nat bs"

definition be_bytes :: "nat \<Rightarrow> nat \<Rightarrow> bytes" where
  "be_bytes n x = rev (le_bytes n x)"

definition be_nat :: "bytes \<Rightarrow> nat" where
  "be_nat bs = le_nat (rev bs)"

lemma length_le_bytes [simp, codec_simps]: "length (le_bytes n x) = n"
  by (induction n arbitrary: x) simp_all

lemma length_be_bytes [simp, codec_simps]: "length (be_bytes n x) = n"
  by (simp add: be_bytes_def)

lemma le_nat_less: "le_nat bs < 256 ^ length bs"
proof (induction bs)
  case (Cons b bs)
  have "unat b < 256" by simp
  with Cons have "unat b + 256 * le_nat bs < 256 * 256 ^ length bs" by linarith
  then show ?case by simp
qed simp

lemma le_nat_le_bytes: "le_nat (le_bytes n x) = x mod 256 ^ n"
proof (induction n arbitrary: x)
  case (Suc n)
  have "unat (word_of_nat (x mod 256) :: byte) = x mod 256"
    by (simp add: unat_of_nat)
  then show ?case using Suc by (simp add: mod_mult2_eq algebra_simps)
qed simp

lemma le_nat_le_bytes_id [simp, codec_simps]: "x < 256 ^ n \<Longrightarrow> le_nat (le_bytes n x) = x"
  by (simp add: le_nat_le_bytes)

lemma le_bytes_le_nat [simp, codec_simps]: "le_bytes (length bs) (le_nat bs) = bs"
proof (induction bs)
  case (Cons b bs)
  have lt: "unat b < 256" by simp
  then have "(unat b + 256 * le_nat bs) mod 256 = unat b"
    by simp
  moreover have "(unat b + 256 * le_nat bs) div 256 = le_nat bs"
    using lt by simp
  ultimately show ?case using Cons by simp
qed simp

lemma le_bytes_inject:
  assumes "x < 256 ^ n" "y < 256 ^ n" "le_bytes n x = le_bytes n y"
  shows "x = y"
  using assms le_nat_le_bytes_id by metis

lemma be_nat_be_bytes [simp, codec_simps]: "x < 256 ^ n \<Longrightarrow> be_nat (be_bytes n x) = x"
  by (simp add: be_nat_def be_bytes_def)

lemma be_bytes_be_nat [simp, codec_simps]: "be_bytes (length bs) (be_nat bs) = bs"
  unfolding be_nat_def be_bytes_def by (metis le_bytes_le_nat length_rev rev_rev_ident)

text \<open>\<open>binary.LittleEndian.PutUint64\<close> and \<open>Uint64\<close>, and the big-endian pair.\<close>

definition put_u64_le :: "int64 \<Rightarrow> bytes" where
  "put_u64_le w = le_bytes 8 (unat w)"

definition get_u64_le :: "bytes \<Rightarrow> int64" where
  "get_u64_le bs = word_of_nat (le_nat bs)"

definition put_u64_be :: "int64 \<Rightarrow> bytes" where
  "put_u64_be w = be_bytes 8 (unat w)"

definition get_u64_be :: "bytes \<Rightarrow> int64" where
  "get_u64_be bs = word_of_nat (be_nat bs)"

lemma unat_int64_less: "unat (w :: int64) < 256 ^ 8"
  using unsigned_less [of w] by simp

lemma get_put_u64 [simp, codec_simps]:
  "get_u64_le (put_u64_le w) = w" "get_u64_be (put_u64_be w) = w"
  using unat_int64_less [of w]
  by (simp_all add: get_u64_le_def put_u64_le_def get_u64_be_def put_u64_be_def)

lemma length_put_u64 [simp, codec_simps]:
  "length (put_u64_le w) = 8" "length (put_u64_be w) = 8"
  by (simp_all add: put_u64_le_def put_u64_be_def)

lemma put_u64_inject [simp]:
  "put_u64_le v = put_u64_le w \<longleftrightarrow> v = w"
  "put_u64_be v = put_u64_be w \<longleftrightarrow> v = w"
  by (metis get_put_u64(1), metis get_put_u64(2))

lemma put_get_u64_le [codec_simps]:
  assumes "length bs = 8"
  shows "put_u64_le (get_u64_le bs) = bs"
proof -
  have "le_nat bs < 2 ^ 64" using le_nat_less [of bs] assms by simp
  then have "unat (word_of_nat (le_nat bs) :: int64) = le_nat bs"
    by (simp add: unat_of_nat)
  then show ?thesis
    using assms le_bytes_le_nat [of bs] by (simp add: put_u64_le_def get_u64_le_def)
qed

text \<open>Signed addition of two non-negative words: exact below \<open>2 ^ 63\<close>, negative beyond.\<close>

lemma sint_add_nonneg:
  fixes a b :: int64
  assumes "0 \<le> sint a" "0 \<le> sint b"
  shows "sint (a + b) = (if sint a + sint b < 2 ^ 63 then sint a + sint b else sint a + sint b - 2 ^ 64)"
proof -
  have lt: "sint a < 2 ^ 63" "sint b < 2 ^ 63" using sint_lt [of a] sint_lt [of b] by simp_all
  have k: "sint (a + b) = (sint a + sint b + 2 ^ 63) mod 2 ^ 64 - 2 ^ 63"
    by (simp add: sint_word_ariths(1) signed_take_bit_eq_take_bit_shift take_bit_eq_mod)
  show ?thesis
  proof (cases "sint a + sint b < 2 ^ 63")
    case True
    then show ?thesis using assms k by (simp add: mod_pos_pos_trivial)
  next
    case False
    have "(sint a + sint b + 2 ^ 63) mod 2 ^ 64 = (sint a + sint b + 2 ^ 63 - 2 ^ 64) mod 2 ^ 64"
      by (simp only: minus_mod_self2)
    also have "\<dots> = sint a + sint b + 2 ^ 63 - 2 ^ 64"
      using False lt by (intro mod_pos_pos_trivial) simp_all
    finally show ?thesis using False k by simp
  qed
qed
section \<open>Hexadecimal text\<close>

definition hex_digit :: "nat \<Rightarrow> char" where
  "hex_digit n = ''0123456789abcdef'' ! n"

definition hex_encode :: "bytes \<Rightarrow> string" where
  "hex_encode bs = concat (map (\<lambda>b. [hex_digit (unat b div 16), hex_digit (unat b mod 16)]) bs)"

lemma hex_encode_simps [simp]:
  "hex_encode [] = []"
  "hex_encode (b # bs) = hex_digit (unat b div 16) # hex_digit (unat b mod 16) # hex_encode bs"
  by (simp_all add: hex_encode_def)

lemma length_hex_encode [simp]: "length (hex_encode bs) = 2 * length bs"
  by (induction bs) simp_all

lemma hex_encode_Nil_iff [simp]: "hex_encode bs = [] \<longleftrightarrow> bs = []"
  by (cases bs) simp_all

lemma hex_digit_inject:
  assumes "m < 16" "n < 16" "hex_digit m = hex_digit n"
  shows "m = n"
proof -
  have "distinct ''0123456789abcdef''" by simp
  moreover have "length ''0123456789abcdef'' = 16" by simp
  ultimately show ?thesis
    using assms unfolding hex_digit_def by (metis nth_eq_iff_index_eq)
qed

lemma hex_encode_inject [simp]: "hex_encode bs = hex_encode cs \<longleftrightarrow> bs = cs"
proof (induction bs arbitrary: cs)
  case Nil then show ?case by (cases cs) simp_all
next
  case (Cons b bs)
  show ?case
  proof (cases cs)
    case (Cons c cs')
    have "unat b = unat c"
      if "hex_digit (unat b div 16) = hex_digit (unat c div 16)"
        "hex_digit (unat b mod 16) = hex_digit (unat c mod 16)"
    proof -
      have "unat b div 16 < 16" "unat c div 16 < 16"
        using unat_byte_less [of b] unat_byte_less [of c]
        by (simp_all add: less_mult_imp_div_less del: unat_byte_less)
      then have "unat b div 16 = unat c div 16" "unat b mod 16 = unat c mod 16"
        using that by (simp_all add: hex_digit_inject)
      then show ?thesis by (metis div_mult_mod_eq)
    qed
    then show ?thesis using Cons.IH [of cs'] Cons by (auto simp: word_unat_eq_iff)
  qed simp
qed

section \<open>Association lists\<close>

lemma map_of_filter_keys: "map_of (filter (\<lambda>(k, v). \<not> P k) xs) = (\<lambda>k. if P k then None else map_of xs k)"
  by (induction xs) auto

lemma fold_delete: "fold AList.delete ks al = filter (\<lambda>(k, _). k \<notin> set ks) al"
  by (induction ks arbitrary: al) (auto simp: AList.delete_eq intro!: filter_cong)

end
