(* ===== verification/GoText.thy ===== *)
theory GoText
  imports VgiPrelude
begin

text \<open>
  The text routines of the Go standard library the worker calls: case folding and trimming
  (\<open>strings\<close>), \<open>utf8.Valid\<close>, \<open>strconv.ParseInt\<close> in base 10 and \<open>base64.RawURLEncoding\<close>.

  Case folding and trimming are computed on ASCII text, which is the fast path of the library; any other
  string is sent to the Unicode tables, the argument \<open>U :: unicode\<close>. The base64 codec comes with
  the round trip \<open>b64_decode_encode\<close> and the length of its output.
\<close>

section \<open>Case folding and trimming\<close>

record unicode =
  u_lower :: "string \<Rightarrow> string"
  u_upper :: "string \<Rightarrow> string"
  u_fold :: "string \<Rightarrow> string \<Rightarrow> bool"
  u_trim :: "string \<Rightarrow> string"

definition ascii :: "string \<Rightarrow> bool" where
  "ascii s = list_all (\<lambda>c. (of_char c :: nat) < 128) s"

definition ascii_lower :: "char \<Rightarrow> char" where
  "ascii_lower c = (if CHR ''A'' \<le> c \<and> c \<le> CHR ''Z'' then char_of ((of_char c :: nat) + 32) else c)"

definition ascii_upper :: "char \<Rightarrow> char" where
  "ascii_upper c = (if CHR ''a'' \<le> c \<and> c \<le> CHR ''z'' then char_of ((of_char c :: nat) - 32) else c)"

definition ToLower :: "unicode \<Rightarrow> string \<Rightarrow> string" where
  "ToLower U s = (if ascii s then map ascii_lower s else u_lower U s)"

definition ToUpper :: "unicode \<Rightarrow> string \<Rightarrow> string" where
  "ToUpper U s = (if ascii s then map ascii_upper s else u_upper U s)"

definition EqualFold :: "unicode \<Rightarrow> string \<Rightarrow> string \<Rightarrow> bool" where
  "EqualFold U s t =
     (if ascii s \<and> ascii t then map ascii_lower s = map ascii_lower t else u_fold U s t)"

definition ascii_space :: "char \<Rightarrow> bool" where
  "ascii_space c = ((of_char c :: nat) \<in> {9, 10, 11, 12, 13, 32})"

definition TrimSpace :: "unicode \<Rightarrow> string \<Rightarrow> string" where
  "TrimSpace U s =
     (if ascii s then rev (dropWhile ascii_space (rev (dropWhile ascii_space s))) else u_trim U s)"

text \<open>Tables that leave non-ASCII text alone, for examples.\<close>

definition plain_unicode :: unicode where
  "plain_unicode = \<lparr>u_lower = (\<lambda>s. s), u_upper = (\<lambda>s. s), u_fold = (=), u_trim = (\<lambda>s. s)\<rparr>"

text \<open>
  \<open>utf8.DecodeRuneInString\<close>: the first code point of a text and the number of bytes it takes. A byte that starts no
  well-formed sequence decodes as U+FFFD of one byte.
\<close>

definition code :: "char \<Rightarrow> int" where
  "code c = of_char c"

definition rune_cont :: "char \<Rightarrow> bool" where
  "rune_cont c \<longleftrightarrow> 128 \<le> code c \<and> code c \<le> 191"

definition DecodeRune :: "string \<Rightarrow> int \<times> nat" where
  "DecodeRune s =
     (case s of
        [] \<Rightarrow> (65533, 0)
      | a # r \<Rightarrow>
          if code a < 128 then (code a, 1)
          else case r of
            [] \<Rightarrow> (65533, 1)
          | b # r1 \<Rightarrow>
              if 194 \<le> code a \<and> code a \<le> 223 \<and> rune_cont b then ((code a - 192) * 64 + (code b - 128), 2)
              else case r1 of
                [] \<Rightarrow> (65533, 1)
              | c # r2 \<Rightarrow>
                  if 224 \<le> code a \<and> code a \<le> 239 \<and> rune_cont b \<and> rune_cont c \<and>
                    (code a = 224 \<longrightarrow> 160 \<le> code b) \<and> (code a = 237 \<longrightarrow> code b \<le> 159)
                  then ((code a - 224) * 4096 + (code b - 128) * 64 + (code c - 128), 3)
                  else case r2 of
                    [] \<Rightarrow> (65533, 1)
                  | d # _ \<Rightarrow>
                      if 240 \<le> code a \<and> code a \<le> 244 \<and> rune_cont b \<and> rune_cont c \<and> rune_cont d \<and>
                        (code a = 240 \<longrightarrow> 144 \<le> code b) \<and> (code a = 244 \<longrightarrow> code b \<le> 143)
                      then ((code a - 240) * 262144 + (code b - 128) * 4096 + (code c - 128) * 64 + (code d - 128), 4)
                      else (65533, 1))"

text \<open>The classes of the \<open>unicode\<close> package, with their tables beyond ASCII as an argument.\<close>

record rune_tables =
  rt_space :: "int \<Rightarrow> bool"
  rt_letter :: "int \<Rightarrow> bool"
  rt_digit :: "int \<Rightarrow> bool"

definition IsSpace :: "rune_tables \<Rightarrow> int \<Rightarrow> bool" where
  "IsSpace R r \<longleftrightarrow> (if r < 128 then 9 \<le> r \<and> r \<le> 13 \<or> r = 32 else rt_space R r)"

definition IsLetter :: "rune_tables \<Rightarrow> int \<Rightarrow> bool" where
  "IsLetter R r \<longleftrightarrow> (if r < 128 then 65 \<le> r \<and> r \<le> 90 \<or> 97 \<le> r \<and> r \<le> 122 else rt_letter R r)"

definition IsDigit :: "rune_tables \<Rightarrow> int \<Rightarrow> bool" where
  "IsDigit R r \<longleftrightarrow> (if r < 128 then 48 \<le> r \<and> r \<le> 57 else rt_digit R r)"

definition plain_runes :: rune_tables where
  "plain_runes = \<lparr>rt_space = (\<lambda>_. False), rt_letter = (\<lambda>_. False), rt_digit = (\<lambda>_. False)\<rparr>"

section \<open>Numbers\<close>

text \<open>The decimal text of a natural number, as \<open>%d\<close> prints it.\<close>

fun decimal :: "nat \<Rightarrow> string" where
  "decimal n = (if n < 10 then [char_of (48 + n)] else decimal (n div 10) @ [char_of (48 + n mod 10)])"

declare decimal.simps [simp del]

definition is_digit :: "char \<Rightarrow> bool" where
  "is_digit c = (CHR ''0'' \<le> c \<and> c \<le> CHR ''9'')"

definition digit_val :: "char \<Rightarrow> int" where
  "digit_val c = of_char c - 48"

definition digits_val :: "string \<Rightarrow> int" where
  "digits_val s = foldl (\<lambda>n c. 10 * n + digit_val c) 0 s"

text \<open>\<open>strconv.ParseInt(s, 10, 64)\<close>; \<open>None\<close> is a syntax or range error.\<close>

definition ParseInt :: "string \<Rightarrow> int option" where
  "ParseInt s =
     (let neg = (s \<noteq> [] \<and> hd s = CHR ''-'');
          ds = (if s \<noteq> [] \<and> (hd s = CHR ''-'' \<or> hd s = CHR ''+'') then tl s else s)
      in if ds = [] \<or> \<not> list_all is_digit ds then None
         else let n = (if neg then - digits_val ds else digits_val ds)
              in if - (2 ^ 63) \<le> n \<and> n < 2 ^ 63 then Some n else None)"

section \<open>UTF-8\<close>

definition utf8_cont :: "byte \<Rightarrow> bool" where
  "utf8_cont b = (0x80 \<le> b \<and> b \<le> 0xBF)"

text \<open>The well-formed sequences of RFC 3629: no overlong form, no surrogate, nothing above U+10FFFF.\<close>

fun utf8_valid :: "bytes \<Rightarrow> bool" where
  "utf8_valid [] = True"
| "utf8_valid (a # bs) =
     (if a < 0x80 then utf8_valid bs
      else case bs of
        [] \<Rightarrow> False
      | b # cs \<Rightarrow>
          if 0xC2 \<le> a \<and> a \<le> 0xDF then utf8_cont b \<and> utf8_valid cs
          else case cs of
            [] \<Rightarrow> False
          | c # ds \<Rightarrow>
              if 0xE0 \<le> a \<and> a \<le> 0xEF then
                (if a = 0xE0 then 0xA0 \<le> b \<and> b \<le> 0xBF
                 else if a = 0xED then 0x80 \<le> b \<and> b \<le> 0x9F
                 else utf8_cont b) \<and> utf8_cont c \<and> utf8_valid ds
              else case ds of
                [] \<Rightarrow> False
              | d # es \<Rightarrow>
                  0xF0 \<le> a \<and> a \<le> 0xF4 \<and>
                  (if a = 0xF0 then 0x90 \<le> b \<and> b \<le> 0xBF
                   else if a = 0xF4 then 0x80 \<le> b \<and> b \<le> 0x8F
                   else utf8_cont b) \<and> utf8_cont c \<and> utf8_cont d \<and> utf8_valid es)"

section \<open>Base64url without padding\<close>

definition b64_alphabet :: string where
  "b64_alphabet = ''ABCDEFGHIJKLMNOPQRSTUVWXYZabcdefghijklmnopqrstuvwxyz0123456789-_''"

definition b64_char :: "nat \<Rightarrow> char" where
  "b64_char n = b64_alphabet ! n"

definition b64_val :: "char \<Rightarrow> nat option" where
  "b64_val c = map_of (zip b64_alphabet [0..<64]) c"

fun b64_encode :: "bytes \<Rightarrow> string" where
  "b64_encode [] = []"
| "b64_encode [a] = [b64_char (unat a div 4), b64_char (unat a mod 4 * 16)]"
| "b64_encode [a, b] =
     [b64_char (unat a div 4), b64_char (unat a mod 4 * 16 + unat b div 16), b64_char (unat b mod 16 * 4)]"
| "b64_encode (a # b # c # bs) =
     b64_char (unat a div 4) # b64_char (unat a mod 4 * 16 + unat b div 16)
     # b64_char (unat b mod 16 * 4 + unat c div 64) # b64_char (unat c mod 64) # b64_encode bs"

definition octet :: "nat \<Rightarrow> byte" where
  "octet n = word_of_nat n"

fun b64_decode :: "string \<Rightarrow> bytes option" where
  "b64_decode [] = Some []"
| "b64_decode [w] = None"
| "b64_decode [w, x] =
     (case (b64_val w, b64_val x) of
        (Some w, Some x) \<Rightarrow> Some [octet (w * 4 + x div 16)]
      | _ \<Rightarrow> None)"
| "b64_decode [w, x, y] =
     (case (b64_val w, b64_val x, b64_val y) of
        (Some w, Some x, Some y) \<Rightarrow> Some [octet (w * 4 + x div 16), octet (x mod 16 * 16 + y div 4)]
      | _ \<Rightarrow> None)"
| "b64_decode (w # x # y # z # s) =
     (case (b64_val w, b64_val x, b64_val y, b64_val z, b64_decode s) of
        (Some w, Some x, Some y, Some z, Some bs) \<Rightarrow>
          Some (octet (w * 4 + x div 16) # octet (x mod 16 * 16 + y div 4)
                # octet (y mod 4 * 64 + z) # bs)
      | _ \<Rightarrow> None)"

section \<open>Facts\<close>

lemma ascii_simps [simp]:
  "ascii []" "ascii (c # s) \<longleftrightarrow> (of_char c :: nat) < 128 \<and> ascii s" "ascii (s @ t) \<longleftrightarrow> ascii s \<and> ascii t"
  by (simp_all add: ascii_def)

lemma digit_char:
  assumes "n < 10"
  shows "is_digit (char_of (48 + n))" "digit_val (char_of (48 + n)) = int n"
proof -
  have "(of_char (char_of (48 + n) :: char) :: nat) = 48 + n"
    using assms by simp
  then show "is_digit (char_of (48 + n))" "digit_val (char_of (48 + n)) = int n"
    using assms of_nat_of_char [of "char_of (48 + n)", where ?'a = int]
    by (simp_all add: is_digit_def digit_val_def less_eq_char_def)
qed

lemma digits_val_snoc: "digits_val (s @ [c]) = 10 * digits_val s + digit_val c"
  by (simp add: digits_val_def)

lemma digits_val_decimal [simp]: "digits_val (decimal n) = int n"
proof (induction n rule: decimal.induct)
  case (1 n)
  show ?case
  proof (cases "n < 10")
    case True
    then show ?thesis
      using digit_char(2) [OF True] by (simp add: decimal.simps [of n] digits_val_def)
  next
    case False
    then have "digits_val (decimal n) = 10 * int (n div 10) + int (n mod 10)"
      using 1 digit_char(2) [of "n mod 10"] by (simp add: decimal.simps [of n] digits_val_snoc)
    then show ?thesis by (metis div_mod_decomp of_nat_add of_nat_mult of_nat_numeral mult.commute)
  qed
qed

lemma decimal_inject [simp]: "decimal m = decimal n \<longleftrightarrow> m = n"
  by (metis digits_val_decimal of_nat_eq_iff)

lemma decimal_digits: "list_all is_digit (decimal n)"
proof (induction n rule: decimal.induct)
  case (1 n)
  then show ?case
    using digit_char(1) [of n] digit_char(1) [of "n mod 10"] by (simp add: decimal.simps [of n])
qed

lemma decimal_not_Nil [simp]: "decimal n \<noteq> []"
  by (simp add: decimal.simps [of n])

lemma code_nat: "code c = int (of_char c)"
  by (simp add: code_def of_nat_of_char)

lemma is_digit_code: "is_digit c \<longleftrightarrow> 48 \<le> code c \<and> code c \<le> 57"
  by (simp add: is_digit_def code_nat less_eq_char_def)

lemma DecodeRune_size: "s \<noteq> [] \<Longrightarrow> 0 < snd (DecodeRune s)"
  by (simp add: DecodeRune_def split: list.split)

lemma DecodeRune_ascii [simp]: "code a < 128 \<Longrightarrow> DecodeRune (a # r) = (code a, 1)"
  by (simp add: DecodeRune_def)

text \<open>Well-formed text is a sequence of ASCII bytes and of multi-byte sequences, whose bytes are all above ASCII.\<close>

declare utf8_valid.simps [simp del]

lemma utf8_valid_simps [simp]: "utf8_valid []" "a < 0x80 \<Longrightarrow> utf8_valid (a # bs) \<longleftrightarrow> utf8_valid bs"
  by (simp_all add: utf8_valid.simps)

definition utf8_multi :: "bytes \<Rightarrow> bool" where
  "utf8_multi s \<longleftrightarrow> s \<noteq> [] \<and> list_all (\<lambda>b. 0x80 \<le> b) s \<and> (\<forall>t. utf8_valid (s @ t) \<longleftrightarrow> utf8_valid t)"

lemma utf8_cont_high: "utf8_cont b \<Longrightarrow> 0x80 \<le> b"
  by (simp add: utf8_cont_def)

lemma utf8_second_high:
  fixes b :: byte
  shows "0xA0 \<le> b \<Longrightarrow> 0x80 \<le> b" "0x90 \<le> b \<Longrightarrow> 0x80 \<le> b"
  by (erule order_trans [rotated], simp)+

lemma utf8_split:
  assumes "utf8_valid (a # bs)" "\<not> a < 0x80"
  shows "\<exists>s rest. a # bs = s @ rest \<and> utf8_multi s \<and> utf8_valid rest"
proof -
  note unfold = utf8_valid.simps(2) [of a]
  have a: "0x80 \<le> a" using assms(2) by simp
  obtain b cs where bs: "bs = b # cs" using assms by (cases bs) (simp_all add: unfold)
  show ?thesis
  proof (cases "0xC2 \<le> a \<and> a \<le> 0xDF")
    case two: True
    have "utf8_cont b" "utf8_valid cs" using assms two by (simp_all add: unfold bs)
    moreover from this have "utf8_multi [a, b]"
      using assms(2) two a by (simp add: unfold utf8_multi_def utf8_cont_high)
    ultimately show ?thesis by (intro exI [of _ "[a, b]"] exI [of _ cs]) (simp add: bs)
  next
    case two: False
    obtain c ds where cs: "cs = c # ds" using assms two by (cases cs) (simp_all add: unfold bs)
    show ?thesis
    proof (cases "0xE0 \<le> a \<and> a \<le> 0xEF")
      case three: True
      let ?B = "if a = 0xE0 then 0xA0 \<le> b \<and> b \<le> 0xBF else if a = 0xED then 0x80 \<le> b \<and> b \<le> 0x9F else utf8_cont b"
      have *: "?B" "utf8_cont c" "utf8_valid ds" using assms two three by (simp_all add: unfold bs cs)
      have b: "0x80 \<le> b" using *(1) utf8_second_high [of b] utf8_cont_high [of b] by (metis (full_types))
      have "utf8_valid ([a, b, c] @ t) \<longleftrightarrow> utf8_valid t" for t
        unfolding append.simps unfold if_not_P [OF assms(2)] list.case if_not_P [OF two] if_P [OF three]
        using *(1,2) by simp
      then have "utf8_multi [a, b, c]"
        using a b utf8_cont_high [OF *(2)] by (simp add: utf8_multi_def)
      with * show ?thesis by (intro exI [of _ "[a, b, c]"] exI [of _ ds]) (simp add: bs cs)
    next
      case three: False
      obtain d es where ds: "ds = d # es" using assms two three by (cases ds) (simp_all add: unfold bs cs)
      let ?B = "if a = 0xF0 then 0x90 \<le> b \<and> b \<le> 0xBF else if a = 0xF4 then 0x80 \<le> b \<and> b \<le> 0x8F else utf8_cont b"
      have *: "?B" "utf8_cont c" "utf8_cont d" "utf8_valid es" "0xF0 \<le> a" "a \<le> 0xF4"
        using assms two three by (simp_all add: unfold bs cs ds)
      have b: "0x80 \<le> b" using *(1) utf8_second_high [of b] utf8_cont_high [of b] by (metis (full_types))
      have "utf8_valid ([a, b, c, d] @ t) \<longleftrightarrow> utf8_valid t" for t
        unfolding append.simps unfold if_not_P [OF assms(2)] list.case if_not_P [OF two] if_not_P [OF three]
        using *(1,2,3,5,6) by simp
      then have "utf8_multi [a, b, c, d]"
        using a b utf8_cont_high [OF *(2)] utf8_cont_high [OF *(3)] by (simp add: utf8_multi_def)
      with * show ?thesis by (intro exI [of _ "[a, b, c, d]"] exI [of _ es]) (simp add: bs cs ds)
    qed
  qed
qed

lemma utf8_induct [consumes 1, case_names Nil Ascii Multi]:
  assumes "utf8_valid bs"
    and "P []"
    and "\<And>a bs. a < 0x80 \<Longrightarrow> utf8_valid bs \<Longrightarrow> P bs \<Longrightarrow> P (a # bs)"
    and "\<And>s bs. utf8_multi s \<Longrightarrow> utf8_valid bs \<Longrightarrow> P bs \<Longrightarrow> P (s @ bs)"
  shows "P bs"
  using assms(1)
proof (induction bs rule: length_induct)
  case (1 bs)
  show ?case
  proof (cases bs)
    case (Cons a bs')
    show ?thesis
    proof (cases "a < 0x80")
      case True
      then show ?thesis using 1 Cons assms(3) by simp
    next
      case False
      then obtain s rest where s: "bs = s @ rest" "utf8_multi s" "utf8_valid rest"
        using utf8_split [of a bs'] 1(2) Cons by blast
      then have "length rest < length bs" by (simp add: utf8_multi_def)
      then show ?thesis using 1(1) s assms(4) by blast
    qed
  qed (simp add: assms(2))
qed

lemma utf8_valid_append: "utf8_valid a \<Longrightarrow> utf8_valid b \<Longrightarrow> utf8_valid (a @ b)"
  by (induction a rule: utf8_induct) (simp_all add: utf8_multi_def)

text \<open>A text with every occurrence of \<open>q\<close> doubled.\<close>

definition doubled :: "'a \<Rightarrow> 'a list \<Rightarrow> 'a list" where
  "doubled q xs = concat (map (\<lambda>x. if x = q then [x, x] else [x]) xs)"

lemma doubled_simps [simp]:
  "doubled q [] = []" "doubled q (x # xs) = (if x = q then [x, x] else [x]) @ doubled q xs"
  "doubled q (xs @ ys) = doubled q xs @ doubled q ys"
  by (simp_all add: doubled_def)

lemma doubled_multi: "utf8_multi s \<Longrightarrow> q < 0x80 \<Longrightarrow> doubled q s = s"
proof -
  assume "q < 0x80"
  moreover have "doubled q s = s" if "list_all (\<lambda>b. 0x80 \<le> b) s" "q < 0x80" for s
    using that by (induction s) auto
  moreover assume "utf8_multi s"
  ultimately show ?thesis by (simp add: utf8_multi_def)
qed

lemma utf8_valid_doubled: "utf8_valid bs \<Longrightarrow> q < 0x80 \<Longrightarrow> utf8_valid (doubled q bs)"
  by (induction bs rule: utf8_induct) (simp_all add: doubled_multi, simp add: utf8_multi_def)

lemma b64_alphabet_distinct: "distinct b64_alphabet"
  by (simp add: b64_alphabet_def)

lemma b64_alphabet_length: "length b64_alphabet = 64"
  by (simp add: b64_alphabet_def)

lemma b64_val_char [simp]: "n < 64 \<Longrightarrow> b64_val (b64_char n) = Some n"
  unfolding b64_val_def b64_char_def
  by (subst map_of_zip_nth) (simp_all add: b64_alphabet_distinct b64_alphabet_length)

lemma b64_char_in_alphabet [simp]: "n < 64 \<Longrightarrow> b64_char n \<in> set b64_alphabet"
  by (simp add: b64_char_def b64_alphabet_length)

lemma div_byte_less: "unat (a :: byte) div 4 < 64" "unat a div 16 < 16" "unat a div 64 < 4"
  using unat_byte_less [of a] by (simp_all add: less_mult_imp_div_less del: unat_byte_less)

lemma b64_sextets [simp]:
  fixes a b c :: byte
  shows "unat a div 4 < 64" "unat a mod 4 * 16 < 64" "unat a mod 4 * 16 + unat b div 16 < 64"
    "unat b mod 16 * 4 < 64" "unat b mod 16 * 4 + unat c div 64 < 64" "unat c mod 64 < 64"
proof -
  have less: "unat a mod 4 < 4" "unat b mod 16 < 16" "unat c mod 64 < 64" by simp_all
  show "unat a div 4 < 64" by (rule div_byte_less)
  show "unat a mod 4 * 16 < 64" "unat b mod 16 * 4 < 64" "unat c mod 64 < 64" using less by linarith+
  show "unat a mod 4 * 16 + unat b div 16 < 64" using less(1) div_byte_less(2) [of b] by linarith
  show "unat b mod 16 * 4 + unat c div 64 < 64" using less(2) div_byte_less(3) [of c] by linarith
qed

lemma octet_unat [simp]: "octet (unat b) = b"
  by (simp add: octet_def)

lemma b64_octets [simp]:
  fixes b :: byte
  shows "unat b div 16 div 16 = 0" "unat b div 64 div 4 = 0"
    "unat b div 16 mod 16 = unat b div 16" "unat b div 64 mod 4 = unat b div 64"
  using div_byte_less [of b] by simp_all

lemma b64_decode_encode [simp]: "b64_decode (b64_encode bs) = Some bs"
  by (induction bs rule: b64_encode.induct) simp_all

lemma b64_encode_alphabet: "set (b64_encode bs) \<subseteq> set b64_alphabet"
  by (induction bs rule: b64_encode.induct) simp_all

lemma length_b64_encode: "length (b64_encode bs) = (4 * length bs + 2) div 3"
  by (induction bs rule: b64_encode.induct) simp_all

lemma b64_encode_mod4: "length (b64_encode bs) mod 4 \<noteq> 1"
  by (induction bs rule: b64_encode.induct) simp_all

lemma b64_encode_Nil_iff [simp]: "b64_encode bs = [] \<longleftrightarrow> bs = []"
  by (cases bs rule: b64_encode.cases) simp_all

end
