(* ===== verification/Sha256.thy ===== *)
theory Sha256
  imports VgiPrelude
begin

text \<open>
  \<open>crypto/sha256\<close> of the Go standard library, written out from FIPS 180-4: padding to 64-byte
  blocks, the message schedule, and the compression function on 32-bit words. The worker hashes with it to
  stretch a signing key to 32 bytes, to derive the 16-byte bind fingerprint of a split token and to tag the contents of
  a catalog. The fact the rest of the library uses is the length \<open>length_sha256\<close>.
\<close>

unbundle bit_operations_syntax

definition rotr :: "nat \<Rightarrow> int32 \<Rightarrow> int32" where
  "rotr n w = drop_bit n w OR push_bit (32 - n) w"

definition sha_k :: "int32 list" where
  "sha_k = [0x428A2F98, 0x71374491, 0xB5C0FBCF, 0xE9B5DBA5, 0x3956C25B, 0x59F111F1,
   0x923F82A4, 0xAB1C5ED5, 0xD807AA98, 0x12835B01, 0x243185BE, 0x550C7DC3,
   0x72BE5D74, 0x80DEB1FE, 0x9BDC06A7, 0xC19BF174, 0xE49B69C1, 0xEFBE4786,
   0xFC19DC6, 0x240CA1CC, 0x2DE92C6F, 0x4A7484AA, 0x5CB0A9DC, 0x76F988DA,
   0x983E5152, 0xA831C66D, 0xB00327C8, 0xBF597FC7, 0xC6E00BF3, 0xD5A79147,
   0x6CA6351, 0x14292967, 0x27B70A85, 0x2E1B2138, 0x4D2C6DFC, 0x53380D13,
   0x650A7354, 0x766A0ABB, 0x81C2C92E, 0x92722C85, 0xA2BFE8A1, 0xA81A664B,
   0xC24B8B70, 0xC76C51A3, 0xD192E819, 0xD6990624, 0xF40E3585, 0x106AA070,
   0x19A4C116, 0x1E376C08, 0x2748774C, 0x34B0BCB5, 0x391C0CB3, 0x4ED8AA4A,
   0x5B9CCA4F, 0x682E6FF3, 0x748F82EE, 0x78A5636F, 0x84C87814, 0x8CC70208,
   0x90BEFFFA, 0xA4506CEB, 0xBEF9A3F7, 0xC67178F2]"

definition sha_h0 :: "int32 list" where
  "sha_h0 = [0x6A09E667, 0xBB67AE85, 0x3C6EF372, 0xA54FF53A, 0x510E527F, 0x9B05688C,
   0x1F83D9AB, 0x5BE0CD19]"

definition word_be :: "bytes \<Rightarrow> int32" where
  "word_be bs = foldl (\<lambda>w b. push_bit 8 w OR ucast b) 0 bs"

definition be_word :: "int32 \<Rightarrow> bytes" where
  "be_word w = map (\<lambda>i. ucast (drop_bit i w)) [24, 16, 8, 0]"

fun chunks :: "nat \<Rightarrow> nat \<Rightarrow> 'a list \<Rightarrow> 'a list list" where
  "chunks n 0 xs = []"
| "chunks n (Suc k) xs = take n xs # chunks n k (drop n xs)"

text \<open>The schedule keeps the last sixteen words and emits one word a round.\<close>

fun schedule :: "nat \<Rightarrow> int32 list \<Rightarrow> int32 list" where
  "schedule 0 ws = []"
| "schedule (Suc k) ws =
     (let s0 = (let x = ws ! 1 in rotr 7 x XOR rotr 18 x XOR drop_bit 3 x);
          s1 = (let x = ws ! 14 in rotr 17 x XOR rotr 19 x XOR drop_bit 10 x);
          w = ws ! 0 + s0 + ws ! 9 + s1
      in hd ws # schedule k (tl ws @ [w]))"

type_synonym sha_state = "int32 \<times> int32 \<times> int32 \<times> int32 \<times> int32 \<times> int32 \<times> int32 \<times> int32"

fun sha_round :: "int32 \<times> int32 \<Rightarrow> sha_state \<Rightarrow> sha_state" where
  "sha_round (k, w) (a, b, c, d, e, f, g, h) =
     (let t1 = h + (rotr 6 e XOR rotr 11 e XOR rotr 25 e) + ((e AND f) XOR (NOT e AND g)) + k + w;
          t2 = (rotr 2 a XOR rotr 13 a XOR rotr 22 a) + ((a AND b) XOR (a AND c) XOR (b AND c))
      in (t1 + t2, a, b, c, d + t1, e, f, g))"

fun sha_add :: "sha_state \<Rightarrow> sha_state \<Rightarrow> sha_state" where
  "sha_add (a, b, c, d, e, f, g, h) (a', b', c', d', e', f', g', h') =
     (a + a', b + b', c + c', d + d', e + e', f + f', g + g', h + h')"

definition sha_block :: "bytes \<Rightarrow> sha_state \<Rightarrow> sha_state" where
  "sha_block blk st =
     sha_add st (fold sha_round (zip sha_k (schedule 64 (map word_be (chunks 4 16 blk)))) st)"

definition sha_pad :: "bytes \<Rightarrow> bytes" where
  "sha_pad m = m @ [0x80] @ replicate ((119 - length m mod 64) mod 64) 0 @ be_bytes 8 (8 * length m)"

definition sha_init :: sha_state where
  "sha_init = (sha_h0 ! 0, sha_h0 ! 1, sha_h0 ! 2, sha_h0 ! 3, sha_h0 ! 4, sha_h0 ! 5, sha_h0 ! 6, sha_h0 ! 7)"

fun sha_digest :: "sha_state \<Rightarrow> bytes" where
  "sha_digest (a, b, c, d, e, f, g, h) =
     concat (map be_word [a, b, c, d, e, f, g, h])"

definition sha256 :: "bytes \<Rightarrow> bytes" where
  "sha256 m =
     (let p = sha_pad m
      in sha_digest (fold sha_block (chunks 64 (length p div 64) p) sha_init))"

lemma length_sha_digest: "length (sha_digest st) = 32"
  by (cases st rule: sha_digest.cases) (simp add: be_word_def)

lemma length_sha256 [simp]: "length (sha256 m) = 32"
  by (simp add: sha256_def length_sha_digest Let_def)

text \<open>The padded message is a whole number of blocks.\<close>

lemma sha_pad_blocks: "length (sha_pad m) mod 64 = 0"
proof -
  define q r where "q = length m div 64" and "r = length m mod 64"
  have len: "length m = 64 * q + r" and r: "r < 64" by (simp_all add: q_def r_def)
  have "(119 - r) mod 64 = (if r \<le> 55 then 55 - r else 119 - r)"
    using r by (simp add: mod_if)
  then have "\<exists>k. 64 * q + r + (9 + (119 - r) mod 64) = 64 * k"
    using r by (intro exI [of _ "if r \<le> 55 then q + 1 else q + 2"]) auto
  moreover have "length (sha_pad m) = 64 * q + r + (9 + (119 - r) mod 64)"
    by (simp add: sha_pad_def r_def q_def)
  ultimately obtain k where "length (sha_pad m) = 64 * k" by metis
  then show ?thesis by simp
qed

end
