(* ===== verification/Envelope.thy ===== *)
theory Envelope
  imports Sha256
begin

text \<open>
  \<open>vgi/crypto.go\<close>: the sealed envelopes around \<open>attach_opaque_data\<close> and
  \<open>transaction_opaque_data\<close>.

  The cipher (XChaCha20-Poly1305, outside the repository) is the argument \<open>A :: aead\<close>; what the code
  relies on is \<open>aead_laws\<close>, and \<open>aead_separates\<close> where a claim needs that a box sealed under one
  additional data does not open under another. Random bytes are arguments too: \<open>None\<close> is a
  failing source. The locale \<open>sealed_channel\<close> is the contract every sealed value of the worker
  meets; it is interpreted here for the attach and the transaction envelope, and in the theories of
  split tokens and attach tickets for those.
\<close>

section \<open>The cipher\<close>

record aead =
  aead_seal :: "bytes \<Rightarrow> bytes \<Rightarrow> bytes \<Rightarrow> bytes \<Rightarrow> bytes"
  aead_open :: "bytes \<Rightarrow> bytes \<Rightarrow> bytes \<Rightarrow> bytes \<Rightarrow> bytes option"

text \<open>
  Documented behaviour of the cipher: \<open>Open\<close> undoes \<open>Seal\<close>, a sealed message is \<open>Overhead\<close> bytes
  longer than the plaintext, and \<open>Open\<close> accepts nothing but what \<open>Seal\<close> produces.
\<close>

definition aead_laws :: "aead \<Rightarrow> bool" where
  "aead_laws A \<longleftrightarrow>
     (\<forall>k n p ad. aead_open A k n (aead_seal A k n p ad) ad = Some p) \<and>
     (\<forall>k n p ad. length (aead_seal A k n p ad) = length p + 16) \<and>
     (\<forall>k n c ad p. aead_open A k n c ad = Some p \<longrightarrow> c = aead_seal A k n p ad)"

definition aead_separates :: "aead \<Rightarrow> bytes \<Rightarrow> bytes \<Rightarrow> bool" where
  "aead_separates A ad ad' \<longleftrightarrow>
     ad \<noteq> ad' \<longrightarrow> (\<forall>k n p. aead_open A k n (aead_seal A k n p ad) ad' = None)"

section \<open>Constants, callers and errors\<close>

definition attachEnvelopeVersion :: byte where "attachEnvelopeVersion = 2"
definition transactionEnvelopeVersion :: byte where "transactionEnvelopeVersion = 2"
definition attachUUIDLen :: nat where "attachUUIDLen = 16"
definition cryptoKeyLen :: nat where "cryptoKeyLen = 32"
definition cryptoNonceLen :: nat where "cryptoNonceLen = 24"
definition cryptoTagLen :: nat where "cryptoTagLen = 16"
definition cryptoMinLen :: nat where "cryptoMinLen = 1 + cryptoNonceLen + cryptoTagLen"

lemmas crypto_consts = attachEnvelopeVersion_def transactionEnvelopeVersion_def attachUUIDLen_def
  cryptoKeyLen_def cryptoNonceLen_def cryptoTagLen_def cryptoMinLen_def

definition attachAADPrefix :: bytes where
  "attachAADPrefix = str ''vgi.attach_opaque_data.v1'' @ [0]"

definition transactionAADPrefix :: bytes where
  "transactionAADPrefix = str ''vgi.transaction_opaque_data.v1'' @ [0]"

record auth_context =
  Authenticated :: bool
  Domain :: string
  Principal :: string

record call_context =
  Auth :: "auth_context option"
  AttachmentScope :: "string option"

record worker =
  sealOpaqueData :: bool
  httpSigningKey :: bytes

text \<open>
  \<open>StatusError\<close> is an RPC status with its code, kind and message; \<open>NilDereference\<close> is the panic of
  \<open>cc.Auth\<close> on a nil call context.
\<close>

datatype opaque_err =
    NonceFailed
  | NonceLength
  | CipherFailed
  | UuidFailed
  | ShardKeyLength nat
  | NilDereference
  | OpaqueDataRejected
  | StatusError string string string

definition opaqueRejectedKind :: string where
  "opaqueRejectedKind = ''opaque_data_not_recognized''"

definition attachRejected :: opaque_err where
  "attachRejected = StatusError ''INVALID_ARGUMENT'' opaqueRejectedKind ''attach_opaque_data not recognized''"

definition transactionRejected :: opaque_err where
  "transactionRejected =
     StatusError ''INVALID_ARGUMENT'' opaqueRejectedKind ''transaction_opaque_data not recognized''"

section \<open>Additional data\<close>

definition normalizeCryptoKey :: "bytes \<Rightarrow> bytes" where
  "normalizeCryptoKey key = (if length key = cryptoKeyLen then key else sha256 key)"

definition identityTail :: "auth_context option \<Rightarrow> bytes" where
  "identityTail auth =
     (case auth of
        None \<Rightarrow> 0 # str ''anonymous''
      | Some a \<Rightarrow>
          if \<not> Authenticated a then 0 # str ''anonymous''
          else 1 # str (Domain a) @ 0 # str (Principal a))"

definition attachAAD :: "auth_context option \<Rightarrow> bytes" where
  "attachAAD auth = attachAADPrefix @ identityTail auth"

definition transactionAAD :: "auth_context option \<Rightarrow> bytes \<Rightarrow> bytes" where
  "transactionAAD auth attachEnvelope = transactionAADPrefix @ identityTail auth @ 0 # attachEnvelope"

section \<open>Sealing and opening bytes\<close>

text \<open>\<open>chacha20poly1305.NewX\<close> accepts keys of \<open>KeySize\<close> bytes only.\<close>

definition newX :: "bytes \<Rightarrow> bytes option" where
  "newX key = (if length key = cryptoKeyLen then Some key else None)"

definition sealBytesWithNonce ::
  "aead \<Rightarrow> bytes \<Rightarrow> bytes \<Rightarrow> bytes \<Rightarrow> byte \<Rightarrow> bytes \<Rightarrow> opaque_err + bytes" where
  "sealBytesWithNonce A payload key aad version nonce =
     (if length nonce \<noteq> cryptoNonceLen then Inl NonceLength
      else case newX (normalizeCryptoKey key) of
        None \<Rightarrow> Inl CipherFailed
      | Some k \<Rightarrow> Inr (version # nonce @ aead_seal A k nonce payload aad))"

text \<open>The argument \<open>rnd\<close> is what \<open>rand.Read\<close> filled the nonce with.\<close>

definition sealBytes ::
  "aead \<Rightarrow> bytes option \<Rightarrow> bytes \<Rightarrow> bytes \<Rightarrow> bytes \<Rightarrow> byte \<Rightarrow> opaque_err + bytes" where
  "sealBytes A rnd payload key aad version =
     (case rnd of
        None \<Rightarrow> Inl NonceFailed
      | Some nonce \<Rightarrow> sealBytesWithNonce A payload key aad version nonce)"

definition openBytes :: "aead \<Rightarrow> bytes \<Rightarrow> bytes \<Rightarrow> bytes \<Rightarrow> byte \<Rightarrow> opaque_err + bytes" where
  "openBytes A token key aad version =
     (if length token < cryptoMinLen \<or> token ! 0 \<noteq> version then Inl OpaqueDataRejected
      else case newX (normalizeCryptoKey key) of
        None \<Rightarrow> Inl CipherFailed
      | Some k \<Rightarrow>
          let nonce = take cryptoNonceLen (drop 1 token);
              ciphertext = drop (1 + cryptoNonceLen) token
          in case aead_open A k nonce ciphertext aad of
               None \<Rightarrow> Inl OpaqueDataRejected
             | Some plaintext \<Rightarrow> Inr plaintext)"

section \<open>The worker's helpers\<close>

definition callAuth :: "call_context option \<Rightarrow> auth_context option" where
  "callAuth cc = (case cc of None \<Rightarrow> None | Some c \<Rightarrow> Auth c)"

definition sealAttach ::
  "aead \<Rightarrow> bytes option \<Rightarrow> 'w worker_scheme \<Rightarrow> bytes \<Rightarrow> call_context option \<Rightarrow> opaque_err + bytes" where
  "sealAttach A rnd w plaintext cc =
     (if \<not> sealOpaqueData w then Inr plaintext
      else case cc of
        None \<Rightarrow> Inl NilDereference
      | Some c \<Rightarrow> sealBytes A rnd plaintext (httpSigningKey w) (attachAAD (Auth c)) attachEnvelopeVersion)"

definition openAttachFull ::
  "aead \<Rightarrow> 'w worker_scheme \<Rightarrow> bytes \<Rightarrow> call_context option \<Rightarrow> opaque_err + bytes" where
  "openAttachFull A w envelope cc =
     (if \<not> sealOpaqueData w then Inr envelope
      else case openBytes A envelope (httpSigningKey w) (attachAAD (callAuth cc)) attachEnvelopeVersion of
        Inl _ \<Rightarrow> Inl attachRejected
      | Inr plain \<Rightarrow> Inr plain)"

text \<open>\<open>u\<close> is the result of \<open>uuid.NewRandom\<close>: sixteen random bytes, or a failure.\<close>

definition mintAttach ::
  "aead \<Rightarrow> bytes option \<Rightarrow> bytes option \<Rightarrow> 'w worker_scheme \<Rightarrow> bytes \<Rightarrow> call_context option
    \<Rightarrow> opaque_err + bytes" where
  "mintAttach A u rnd w catalogBytes cc =
     (case u of
        None \<Rightarrow> Inl UuidFailed
      | Some uuid \<Rightarrow> sealAttach A rnd w (uuid @ catalogBytes) cc)"

definition sealTransaction ::
  "aead \<Rightarrow> bytes option \<Rightarrow> 'w worker_scheme \<Rightarrow> bytes \<Rightarrow> bytes \<Rightarrow> call_context option
    \<Rightarrow> opaque_err + bytes" where
  "sealTransaction A rnd w plaintext attachEnvelope cc =
     (if \<not> sealOpaqueData w then Inr plaintext
      else sealBytes A rnd plaintext (httpSigningKey w)
             (transactionAAD (callAuth cc) attachEnvelope) transactionEnvelopeVersion)"

definition openAttach ::
  "aead \<Rightarrow> 'w worker_scheme \<Rightarrow> bytes \<Rightarrow> call_context option \<Rightarrow> opaque_err + bytes" where
  "openAttach A w envelope cc =
     rbind (openAttachFull A w envelope cc) (\<lambda>full.
       if length full < attachUUIDLen then Inr full else Inr (drop attachUUIDLen full))"

definition openTransaction ::
  "aead \<Rightarrow> 'w worker_scheme \<Rightarrow> bytes \<Rightarrow> bytes \<Rightarrow> call_context option \<Rightarrow> opaque_err + bytes" where
  "openTransaction A w envelope attachEnvelope cc =
     (if \<not> sealOpaqueData w then Inr envelope
      else case openBytes A envelope (httpSigningKey w)
                  (transactionAAD (callAuth cc) attachEnvelope) transactionEnvelopeVersion of
        Inl _ \<Rightarrow> Inl transactionRejected
      | Inr plain \<Rightarrow> Inr plain)"

section \<open>Requests\<close>

text \<open>
  The two opaque fields reflection looks for. \<open>None\<close> is a request type without the field (or, for
  the transaction, a nil pointer); the other fields of a request are the record's extension.
\<close>

record request =
  AttachOpaqueData :: "bytes option"
  TransactionOpaqueData :: "bytes option"

definition attachmentScope :: "bytes \<Rightarrow> string" where
  "attachmentScope sealedAttach = ''attachment:'' @ hex_encode (sha256 sealedAttach)"

definition unwrapReqOpaque ::
  "aead \<Rightarrow> 'w worker_scheme \<Rightarrow> 'p request_scheme \<Rightarrow> call_context option
    \<Rightarrow> opaque_err + ('p request_scheme \<times> call_context option)" where
  "unwrapReqOpaque A w req cc =
     rbind
       (case AttachOpaqueData req of
          None \<Rightarrow> Inr ([], req, cc)
        | Some sealedAttach \<Rightarrow>
            if length sealedAttach > 0 then
              rbind (openAttach A w sealedAttach cc) (\<lambda>plain.
                Inr (sealedAttach, req\<lparr>AttachOpaqueData := Some plain\<rparr>,
                     map_option (\<lambda>c. c\<lparr>AttachmentScope := Some (attachmentScope sealedAttach)\<rparr>) cc))
            else Inr (sealedAttach, req, cc))
       (\<lambda>(sealedAttach, req1, cc1).
          if \<not> sealOpaqueData w then Inr (req1, cc1)
          else case TransactionOpaqueData req1 of
            None \<Rightarrow> Inr (req1, cc1)
          | Some t \<Rightarrow>
              rbind (openTransaction A w t sealedAttach cc1) (\<lambda>plain.
                Inr (req1\<lparr>TransactionOpaqueData := Some plain\<rparr>, cc1)))"

definition sealedAttachOf :: "'p request_scheme \<Rightarrow> bytes" where
  "sealedAttachOf req = (case AttachOpaqueData req of None \<Rightarrow> [] | Some b \<Rightarrow> b)"

text \<open>
  A handler's result: the answer of \<open>catalog_transaction_begin\<close> carries an optional transaction
  value, every other result passes through.
\<close>

datatype 'r catalog_result =
    TransactionBeginResponse "bytes option"
  | OtherResult 'r

definition sealTransactionResult ::
  "aead \<Rightarrow> bytes option \<Rightarrow> 'w worker_scheme \<Rightarrow> 'r catalog_result \<Rightarrow> bytes \<Rightarrow> call_context option
    \<Rightarrow> opaque_err + 'r catalog_result" where
  "sealTransactionResult A rnd w r sealedAttach cc =
     (case r of
        TransactionBeginResponse (Some t) \<Rightarrow>
          rbind (sealTransaction A rnd w t sealedAttach cc) (\<lambda>sealed.
            Inr (TransactionBeginResponse (Some sealed)))
      | _ \<Rightarrow> Inr r)"

text \<open>The identity a caller is known by: nobody, or a domain and a principal.\<close>

definition identity :: "auth_context option \<Rightarrow> (string \<times> string) option" where
  "identity auth =
     (case auth of
        None \<Rightarrow> None
      | Some a \<Rightarrow> if Authenticated a then Some (Domain a, Principal a) else None)"

definition nul_free_domain :: "auth_context option \<Rightarrow> bool" where
  "nul_free_domain auth = (case identity auth of None \<Rightarrow> True | Some (d, _) \<Rightarrow> 0 \<notin> set (str d))"

section \<open>A cipher to evaluate with\<close>

text \<open>
  A concrete instance of the laws: the tag is the last sixteen bytes of the additional data. It hides
  nothing; it exists so that the hypotheses above are seen to be satisfiable and examples compute.
\<close>

definition plain_tag :: "bytes \<Rightarrow> bytes" where
  "plain_tag ad = take 16 (rev ad @ replicate 16 0)"

definition plain_aead :: aead where
  "plain_aead = \<lparr>
     aead_seal = (\<lambda>k n p ad. p @ plain_tag ad),
     aead_open = (\<lambda>k n c ad.
       if 16 \<le> length c \<and> drop (length c - 16) c = plain_tag ad then Some (take (length c - 16) c) else None)\<rparr>"

text \<open>Callers and a worker the examples share.\<close>

definition alice :: auth_context where
  "alice = \<lparr>Authenticated = True, Domain = ''jwt'', Principal = ''alice''\<rparr>"

definition bob :: auth_context where
  "bob = \<lparr>Authenticated = True, Domain = ''jwt'', Principal = ''bob''\<rparr>"

definition http_worker :: worker where
  "http_worker = \<lparr>sealOpaqueData = True, httpSigningKey = replicate 32 7\<rparr>"

definition call_of :: "auth_context \<Rightarrow> call_context" where
  "call_of a = \<lparr>Auth = Some a, AttachmentScope = None\<rparr>"

section \<open>Facts about the envelope\<close>

lemma length_normalizeCryptoKey [simp]: "length (normalizeCryptoKey key) = 32"
  by (simp add: normalizeCryptoKey_def crypto_consts)

lemma newX_normalize [simp]: "newX (normalizeCryptoKey key) = Some (normalizeCryptoKey key)"
  by (simp add: newX_def crypto_consts)

lemma sealBytes_Inr_iff:
  "sealBytes A rnd payload key aad version = Inr tok \<longleftrightarrow>
     (\<exists>n. rnd = Some n \<and> length n = 24 \<and>
          tok = version # n @ aead_seal A (normalizeCryptoKey key) n payload aad)"
  by (auto simp: sealBytes_def sealBytesWithNonce_def cryptoNonceLen_def split: option.splits)

lemma openBytes_envelope:
  assumes "length n = 24" "16 \<le> length c"
  shows "openBytes A (v # n @ c) key aad v =
    (case aead_open A (normalizeCryptoKey key) n c aad of
       None \<Rightarrow> Inl OpaqueDataRejected | Some p \<Rightarrow> Inr p)"
  using assms by (simp add: openBytes_def crypto_consts)

lemma openBytes_sealBytes:
  assumes "aead_laws A" "sealBytes A rnd payload key aad version = Inr tok"
  shows "openBytes A tok key aad version = Inr payload"
  using assms by (auto simp: sealBytes_Inr_iff openBytes_envelope aead_laws_def)

lemma openBytes_other_aad:
  assumes "aead_laws A" "aead_separates A aad aad'" "aad \<noteq> aad'"
    and "sealBytes A rnd payload key aad version = Inr tok"
  shows "openBytes A tok key aad' version = Inl OpaqueDataRejected"
  using assms by (auto simp: sealBytes_Inr_iff openBytes_envelope aead_laws_def aead_separates_def)

text \<open>What opens was sealed: an accepted token is an envelope of its own plaintext.\<close>

lemma openBytes_sound:
  assumes "aead_laws A" "openBytes A tok key aad version = Inr p"
  shows "sealBytes A (Some (take 24 (drop 1 tok))) p key aad version = Inr tok"
proof -
  let ?n = "take 24 (drop 1 tok)" and ?c = "drop 25 tok"
  have len: "41 \<le> length tok" and v: "tok ! 0 = version"
    using assms(2) by (auto simp: openBytes_def crypto_consts not_less split: if_splits)
  have "aead_open A (normalizeCryptoKey key) ?n ?c aad = Some p"
    using assms(2) by (auto simp: openBytes_def crypto_consts split: if_splits option.splits)
  then have c: "?c = aead_seal A (normalizeCryptoKey key) ?n p aad"
    using assms(1) by (auto simp: aead_laws_def)
  have t: "tok = version # ?n @ ?c"
  proof -
    have "drop 24 (drop 1 tok) = ?c" by simp
    then have "drop 1 tok = ?n @ ?c" by (metis append_take_drop_id)
    moreover have "tok = tok ! 0 # drop 1 tok"
      using len by (cases tok) simp_all
    ultimately show ?thesis using v by metis
  qed
  have "length ?n = 24" using len by simp
  moreover have "tok = version # ?n @ aead_seal A (normalizeCryptoKey key) ?n p aad"
    using t unfolding c .
  ultimately show ?thesis unfolding sealBytes_Inr_iff by blast
qed

lemma openBytes_error: "openBytes A tok key aad version = Inl e \<Longrightarrow> e = OpaqueDataRejected"
  by (auto simp: openBytes_def Let_def split: if_splits option.splits)

section \<open>The contract of a sealed value\<close>

locale sealed_channel =
  fixes ok :: "'c \<Rightarrow> bool"
    and seal :: "'c \<Rightarrow> 'r \<Rightarrow> 'p \<Rightarrow> 'e + 'v"
    and unseal :: "'c \<Rightarrow> 'v \<Rightarrow> 'f + 'p"
  assumes unseal_seal: "ok c \<Longrightarrow> seal c r p = Inr v \<Longrightarrow> unseal c v = Inr p"
begin

lemma seal_inject:
  assumes "ok c" "seal c r p = Inr v" "seal c r' p' = Inr v"
  shows "p = p'"
  using unseal_seal [OF assms(1,2)] unseal_seal [OF assms(1,3)] by simp

lemma unseal_all:
  assumes "ok c" "list_all2 (\<lambda>p v. \<exists>r. seal c r p = Inr v) ps vs"
  shows "map (unseal c) vs = map Inr ps"
  using assms(2)
  by (induction rule: list_all2_induct) (auto dest: unseal_seal [OF assms(1)])

end

interpretation attach_env: sealed_channel
  "\<lambda>(A, w, cc). aead_laws A"
  "\<lambda>(A, w, cc) rnd p. sealAttach A rnd w p cc"
  "\<lambda>(A, w, cc) v. openAttachFull A w v cc"
  by unfold_locales
    (auto simp: sealAttach_def openAttachFull_def callAuth_def openBytes_sealBytes
          split: if_splits option.splits sum.splits)

interpretation txn_env: sealed_channel
  "\<lambda>(A, w, attach, cc). aead_laws A"
  "\<lambda>(A, w, attach, cc) rnd p. sealTransaction A rnd w p attach cc"
  "\<lambda>(A, w, attach, cc) v. openTransaction A w v attach cc"
  by unfold_locales
    (auto simp: sealTransaction_def openTransaction_def openBytes_sealBytes
          split: if_splits option.splits sum.splits)

section \<open>Identities\<close>

lemma identityTail_identity:
  "identityTail auth =
     (case identity auth of
        None \<Rightarrow> 0 # str ''anonymous''
      | Some (d, p) \<Rightarrow> 1 # str d @ 0 # str p)"
  by (simp add: identityTail_def identity_def split: option.splits)

lemma identityTail_inject:
  assumes "nul_free_domain a" "nul_free_domain b"
  shows "identityTail a = identityTail b \<longleftrightarrow> identity a = identity b"
  using assms
  by (auto simp: identityTail_identity nul_free_domain_def split: option.splits)

lemma attachAAD_inject:
  assumes "nul_free_domain a" "nul_free_domain b"
  shows "attachAAD a = attachAAD b \<longleftrightarrow> identity a = identity b"
  using assms by (simp add: attachAAD_def identityTail_inject)

lemma transactionAAD_same_caller [simp]:
  "transactionAAD a e = transactionAAD a e' \<longleftrightarrow> e = e'"
  by (simp add: transactionAAD_def)

text \<open>The two kinds of value never share their additional data.\<close>

lemma attachAAD_not_transactionAAD: "attachAAD a \<noteq> transactionAAD b e"
proof
  assume "attachAAD a = transactionAAD b e"
  then have "attachAAD a ! 4 = transactionAAD b e ! 4" by simp
  then show False
    by (simp add: attachAAD_def transactionAAD_def attachAADPrefix_def transactionAADPrefix_def
      nth_append str_def byte_of_char_def)
qed

lemma openAttachFull_error: "openAttachFull A w env cc = Inl e \<Longrightarrow> e = attachRejected"
  by (auto simp: openAttachFull_def split: if_splits sum.splits)

lemma openAttach_error: "openAttach A w env cc = Inl e \<Longrightarrow> e = attachRejected"
  by (auto simp: openAttach_def rbind_Inl_iff openAttachFull_error split: if_splits)

lemma openTransaction_error: "openTransaction A w env attach cc = Inl e \<Longrightarrow> e = transactionRejected"
  by (auto simp: openTransaction_def split: if_splits sum.splits)

lemma openAttach_sealAttach:
  assumes "aead_laws A" "sealAttach A rnd w (uuid @ b) cc = Inr env" "length uuid = 16"
  shows "openAttach A w env cc = Inr b"
  using attach_env.unseal_seal [of "(A, w, cc)" rnd "uuid @ b" env] assms
  by (simp add: openAttach_def attachUUIDLen_def)

lemma mintAttach_total:
  assumes "length nonce = 24"
  obtains env where "mintAttach A (Some uuid) (Some nonce) w catalogBytes (Some c) = Inr env"
  using assms
  by (cases "sealOpaqueData w")
    (auto simp: mintAttach_def sealAttach_def sealBytes_def sealBytesWithNonce_def crypto_consts)

lemma openAttachFull_cong:
  "attachAAD (callAuth cc) = attachAAD (callAuth cc') \<Longrightarrow> openAttachFull A w env cc = openAttachFull A w env cc'"
  by (simp add: openAttachFull_def)

lemma openTransaction_cong:
  "callAuth cc = callAuth cc' \<Longrightarrow> openTransaction A w env attach cc = openTransaction A w env attach cc'"
  by (simp add: openTransaction_def)

lemma sealAttach_nonempty:
  assumes "sealAttach A rnd w p cc = Inr env" "p \<noteq> []"
  shows "env \<noteq> []"
  using assms by (auto simp: sealAttach_def sealBytes_Inr_iff split: if_splits option.splits)

lemma length_plain_tag [simp]: "length (plain_tag ad) = 16"
  by (simp add: plain_tag_def)

lemma plain_aead_laws [simp]: "aead_laws plain_aead"
  by (auto simp: aead_laws_def plain_aead_def split: if_splits) (metis append_take_drop_id)

lemma plain_aead_separates:
  "plain_tag ad \<noteq> plain_tag ad' \<Longrightarrow> aead_separates plain_aead ad ad'"
  by (simp add: aead_separates_def plain_aead_def)

section \<open>Properties\<close>

text \<open>
  C18. Minting an attach value and opening it in a later call of the same caller gives back exactly the
  catalog's own bytes (the framework UUID stripped) and, for storage routing, the UUID followed by
  them. Minting succeeds whenever the random sources deliver. This holds on the sealed and on the
  pass-through transports.
\<close>
theorem mintAttach_openAttach:
  assumes "aead_laws A" "length uuid = 16" "length nonce = 24"
  shows "\<exists>env. mintAttach A (Some uuid) (Some nonce) w catalogBytes (Some c) = Inr env \<and>
    openAttach A w env (Some c) = Inr catalogBytes \<and>
    openAttachFull A w env (Some c) = Inr (uuid @ catalogBytes)"
proof -
  obtain env where env: "sealAttach A (Some nonce) w (uuid @ catalogBytes) (Some c) = Inr env"
    using mintAttach_total [OF assms(3)] by (metis mintAttach_def option.simps(5))
  then show ?thesis
    using assms openAttach_sealAttach [OF assms(1) env assms(2)]
      attach_env.unseal_seal [of "(A, w, Some c)" "Some nonce" "uuid @ catalogBytes" env]
    by (simp add: mintAttach_def)
qed

theorem mintAttach_openAttach_witness:
  "\<exists>env. mintAttach plain_aead (Some (replicate 16 5)) (Some (replicate 24 9)) http_worker [1, 2] (Some (call_of alice)) = Inr env \<and>
    openAttach plain_aead http_worker env (Some (call_of alice)) = Inr [1, 2] \<and>
    openAttachFull plain_aead http_worker env (Some (call_of alice)) = Inr (replicate 16 5 @ [1, 2])"
  by (rule mintAttach_openAttach) simp_all

text \<open>
  C9. On a sealing transport an attach envelope opens for exactly the identity it was sealed for: the
  same (domain, principal) gets the plaintext, every other caller (anonymous ones included)
  gets the one uniform rejection. Domains are assumed free of NUL, the delimiter of the identity.
\<close>
theorem attach_bound_to_caller:
  assumes "aead_laws A" "sealOpaqueData w"
    and "nul_free_domain (Auth c)" "nul_free_domain (callAuth cc')"
    and "aead_separates A (attachAAD (Auth c)) (attachAAD (callAuth cc'))"
    and "sealAttach A rnd w p (Some c) = Inr env"
  shows "openAttachFull A w env cc' =
    (if identity (callAuth cc') = identity (Auth c) then Inr p else Inl attachRejected)"
proof -
  have seal: "sealBytes A rnd p (httpSigningKey w) (attachAAD (Auth c)) attachEnvelopeVersion = Inr env"
    using assms(2,6) by (simp add: sealAttach_def)
  show ?thesis
  proof (cases "identity (callAuth cc') = identity (Auth c)")
    case True
    then have "attachAAD (callAuth cc') = attachAAD (Auth c)"
      using assms(3,4) by (simp add: attachAAD_inject)
    then show ?thesis
      using True assms(2) openBytes_sealBytes [OF assms(1) seal] by (simp add: openAttachFull_def)
  next
    case False
    then have "attachAAD (Auth c) \<noteq> attachAAD (callAuth cc')"
      using assms(3,4) by (metis attachAAD_inject)
    then show ?thesis
      using False assms(2) openBytes_other_aad [OF assms(1,5) _ seal] by (simp add: openAttachFull_def)
  qed
qed

lemma identity_call_of [simp]:
  "callAuth (Some (call_of a)) = Some a" "Auth (call_of a) = Some a"
  "identity (Some alice) = Some (''jwt'', ''alice'')" "identity (Some bob) = Some (''jwt'', ''bob'')"
  by (simp_all add: callAuth_def call_of_def identity_def alice_def bob_def)

lemma nul_free_examples [simp]: "nul_free_domain (Some alice)" "nul_free_domain (Some bob)"
  by (simp_all add: nul_free_domain_def str_def byte_of_char_def)

lemma plain_separates_alice_bob:
  "aead_separates plain_aead (attachAAD (Some alice)) (attachAAD (Some bob))"
  by (rule plain_aead_separates)
    (simp add: plain_tag_def attachAAD_def identityTail_identity str_def byte_of_char_def)

theorem attach_bound_to_caller_witness:
  "openAttachFull plain_aead http_worker
     (2 # replicate 24 9 @ [1, 2] @ plain_tag (attachAAD (Some alice))) (Some (call_of bob)) = Inl attachRejected"
  using attach_bound_to_caller [of plain_aead http_worker "call_of alice" "Some (call_of bob)"
      "Some (replicate 24 9)" "[1, 2]" "2 # replicate 24 9 @ [1, 2] @ plain_tag (attachAAD (Some alice))"]
  by (simp add: plain_separates_alice_bob sealAttach_def http_worker_def sealBytes_Inr_iff
      crypto_consts normalizeCryptoKey_def) (simp add: plain_aead_def)

text \<open>
  C10. A transaction value opens only together with the attach value it was minted under: for the
  same caller, presenting it beside any other attach value gives the uniform transaction rejection.
\<close>
theorem transaction_bound_to_attach:
  assumes "aead_laws A" "sealOpaqueData w"
    and "aead_separates A (transactionAAD (callAuth cc) attach) (transactionAAD (callAuth cc) attach')"
    and "sealTransaction A rnd w p attach cc = Inr env"
  shows "openTransaction A w env attach' cc = (if attach' = attach then Inr p else Inl transactionRejected)"
proof -
  have seal: "sealBytes A rnd p (httpSigningKey w) (transactionAAD (callAuth cc) attach)
      transactionEnvelopeVersion = Inr env"
    using assms(2,4) by (simp add: sealTransaction_def)
  show ?thesis
    using assms(2) openBytes_sealBytes [OF assms(1) seal] openBytes_other_aad [OF assms(1,3) _ seal]
    by (auto simp: openTransaction_def)
qed

lemma plain_tag_transaction: "plain_tag (transactionAAD a [4]) \<noteq> plain_tag (transactionAAD a [5])"
  by (simp add: plain_tag_def transactionAAD_def)

theorem transaction_bound_to_attach_witness:
  "openTransaction plain_aead http_worker
     (2 # replicate 24 9 @ [1, 2] @ plain_tag (transactionAAD (Some alice) [4])) [5] (Some (call_of alice))
   = Inl transactionRejected"
  using transaction_bound_to_attach [of plain_aead http_worker "Some (call_of alice)" "[4]" "[5]"
      "Some (replicate 24 9)" "[1, 2]" "2 # replicate 24 9 @ [1, 2] @ plain_tag (transactionAAD (Some alice) [4])"]
  by (simp add: sealTransaction_def http_worker_def sealBytes_Inr_iff plain_aead_separates
      plain_tag_transaction crypto_consts normalizeCryptoKey_def)
    (simp add: plain_aead_def)

text \<open>
  C32. No opening of an opaque value tells a prober why it failed: whatever the bytes, the caller and
  the cipher, opening an attach value either succeeds or gives the one attach rejection, a
  transaction value the one transaction rejection, and unwrapping a request one of the two.
\<close>
theorem opaque_errors_uniform:
  "openAttach A w env cc \<in> range Inr \<union> {Inl attachRejected} \<and>
   openTransaction A w env attach cc \<in> range Inr \<union> {Inl transactionRejected} \<and>
   unwrapReqOpaque A w req cc \<in> range Inr \<union> {Inl attachRejected, Inl transactionRejected}"
proof -
  have "openAttach A w env cc \<in> range Inr \<union> {Inl attachRejected}"
    using openAttach_error [of A w env cc] by (cases "openAttach A w env cc") auto
  moreover have "openTransaction A w env attach cc \<in> range Inr \<union> {Inl transactionRejected}"
    using openTransaction_error [of A w env attach cc] by (cases "openTransaction A w env attach cc") auto
  moreover have "e \<in> {attachRejected, transactionRejected}" if "unwrapReqOpaque A w req cc = Inl e" for e
    using that
    by (auto simp: unwrapReqOpaque_def rbind_Inl_iff
        dest!: openAttach_error openTransaction_error split: option.splits if_splits)
  ultimately show ?thesis by (cases "unwrapReqOpaque A w req cc") auto
qed

text \<open>
  A whole transaction session: the attach value minted by \<open>catalog_attach\<close> and the transaction
  value sealed onto the answer of \<open>catalog_transaction_begin\<close>, sent back together in a later request of
  the same caller, reach the handler as the catalog's own bytes and the catalog's own transaction
  value, and the call context carries the scope derived from the sealed attach value.
\<close>
theorem session_unwraps:
  assumes "aead_laws A" "length uuid = 16"
    and "mintAttach A (Some uuid) rnd w b (Some c) = Inr env"
    and "sealTransactionResult A rnd' w (TransactionBeginResponse (Some t)) env (Some c)
         = Inr (TransactionBeginResponse (Some tx) :: 'r catalog_result)"
    and "AttachOpaqueData req = Some env" "TransactionOpaqueData req = Some tx"
  shows "unwrapReqOpaque A w req (Some c) =
    Inr (req\<lparr>AttachOpaqueData := Some b, TransactionOpaqueData := Some t\<rparr>,
         Some (c\<lparr>AttachmentScope := Some (attachmentScope env)\<rparr>))"
proof -
  let ?c = "c\<lparr>AttachmentScope := Some (attachmentScope env)\<rparr>"
  have env: "sealAttach A rnd w (uuid @ b) (Some c) = Inr env"
    using assms(3) by (simp add: mintAttach_def)
  have ne: "env \<noteq> []" using sealAttach_nonempty [OF env] assms(2) by (cases uuid) simp_all
  have tx: "sealTransaction A rnd' w t env (Some c) = Inr tx"
    using assms(4) by (auto simp: sealTransactionResult_def rbind_Inr_iff)
  have "callAuth (Some ?c) = callAuth (Some c)" by (simp add: callAuth_def)
  from openTransaction_cong [OF this, of A w tx env] have "openTransaction A w tx env (Some ?c) = Inr t"
    using txn_env.unseal_seal [of "(A, w, env, Some c)" rnd' t tx] tx assms(1) by simp
  moreover have "tx = t" if "\<not> sealOpaqueData w" using tx that by (simp add: sealTransaction_def)
  ultimately show ?thesis
    using ne openAttach_sealAttach [OF assms(1) env assms(2)] assms(5,6)
    by (simp add: unwrapReqOpaque_def)
qed

theorem session_unwraps_witness:
  "unwrapReqOpaque plain_aead \<lparr>sealOpaqueData = False, httpSigningKey = []\<rparr>
     \<lparr>AttachOpaqueData = Some (replicate 16 5 @ [1, 2]), TransactionOpaqueData = Some [3]\<rparr> (Some (call_of alice)) =
   Inr (\<lparr>AttachOpaqueData = Some [1, 2], TransactionOpaqueData = Some [3]\<rparr>,
        Some ((call_of alice)\<lparr>AttachmentScope := Some (attachmentScope (replicate 16 5 @ [1, 2]))\<rparr>))"
  using session_unwraps [of plain_aead "replicate 16 5" None "\<lparr>sealOpaqueData = False, httpSigningKey = []\<rparr>"
      "[1, 2]" "call_of alice" "replicate 16 5 @ [1, 2]" None "[3]" "[3]"
      "\<lparr>AttachOpaqueData = Some (replicate 16 5 @ [1, 2]), TransactionOpaqueData = Some [3]\<rparr>"]
  by (simp add: mintAttach_def sealAttach_def sealTransactionResult_def sealTransaction_def)

text \<open>
  C39. The identity is delimited by NUL without escaping: moving a NUL-separated part of the domain
  over to the principal names a different caller with the same additional data, so an envelope sealed
  for the one opens for the other. The hypothesis on domains in the claim about callers is needed.
\<close>
theorem identity_ambiguous_with_nul:
  assumes "aead_laws A"
    and "sealAttach A rnd w p (Some \<lparr>Auth = Some \<lparr>Authenticated = True, Domain = d @ CHR 0x00 # e, Principal = q\<rparr>,
                                    AttachmentScope = s\<rparr>) = Inr env"
  shows "openAttachFull A w env (Some \<lparr>Auth = Some \<lparr>Authenticated = True, Domain = d, Principal = e @ CHR 0x00 # q\<rparr>,
                                    AttachmentScope = s\<rparr>) = Inr p"
proof -
  let ?c = "Some \<lparr>Auth = Some \<lparr>Authenticated = True, Domain = d @ CHR 0x00 # e, Principal = q\<rparr>, AttachmentScope = s\<rparr>"
  let ?c' = "Some \<lparr>Auth = Some \<lparr>Authenticated = True, Domain = d, Principal = e @ CHR 0x00 # q\<rparr>, AttachmentScope = s\<rparr>"
  have "attachAAD (callAuth ?c') = attachAAD (callAuth ?c)"
    by (simp add: attachAAD_def identityTail_def callAuth_def str_Cons byte_of_char_def)
  from openAttachFull_cong [OF this, of A w env] show ?thesis
    using attach_env.unseal_seal [of "(A, w, ?c)" rnd p env] assms by simp
qed

theorem identity_ambiguous_with_nul_witness:
  "openAttachFull plain_aead http_worker
     (2 # replicate 24 9 @ [1, 2] @ plain_tag (attachAAD (Some \<lparr>Authenticated = True, Domain = [CHR 0x00] @ ''x'', Principal = ''y''\<rparr>)))
     (Some \<lparr>Auth = Some \<lparr>Authenticated = True, Domain = [], Principal = ''x'' @ CHR 0x00 # ''y''\<rparr>, AttachmentScope = None\<rparr>)
   = Inr [1, 2]"
  by (rule identity_ambiguous_with_nul [where rnd = "Some (replicate 24 9)" and d = "[]" and e = "''x''" and q = "''y''"])
    (simp_all add: sealAttach_def http_worker_def sealBytes_Inr_iff crypto_consts normalizeCryptoKey_def,
     simp add: plain_aead_def)

end
