(* ===== verification/SplitToken.thy ===== *)
theory SplitToken
  imports Envelope
begin

text \<open>
  \<open>vgi/split_token.go\<close>: the envelope around one split of a scan plan.

  A token is a plaintext header (version, flags, anchor length, bind fingerprint, consistency anchor)
  and the worker's payload, sealed when the worker holds a key. \<open>BuildSplitToken\<close> and \<open>OpenSplitToken\<close>
  follow the source check by check; \<open>stampSplitTokens\<close> and \<open>openSplitTokens\<close> are the framework's
  two loops over them. A nil slice that the code tells apart from an empty one is \<open>None\<close>.
  The main result is \<open>OpenSplitToken_iff_Build\<close>: a token is redeemed exactly when this worker, in this key
  state, could have minted it for this bind, snapshot and caller.
\<close>

unbundle bit_operations_syntax

section \<open>Constants and errors\<close>

definition SplitTokenFormatVersion :: byte where "SplitTokenFormatVersion = 1"
definition splitFlagPayloadSealed :: byte where "splitFlagPayloadSealed = 0x01"
definition splitReservedFlagsMask :: byte where "splitReservedFlagsMask = 0xFE"
definition splitFingerprintLen :: nat where "splitFingerprintLen = 16"
definition splitHeaderLen :: nat where "splitHeaderLen = 4 + splitFingerprintLen"
definition splitSealVersion :: byte where "splitSealVersion = 1"

lemma splitHeaderLen_20: "splitHeaderLen = 20"
  by (simp add: splitHeaderLen_def splitFingerprintLen_def)

lemmas split_consts = SplitTokenFormatVersion_def splitFlagPayloadSealed_def splitReservedFlagsMask_def
  splitFingerprintLen_def splitHeaderLen_20 splitSealVersion_def

definition splitAADPrefix :: bytes where
  "splitAADPrefix = str ''vgi.split_token.v1'' @ [0]"

definition ErrKindSplitTokenInvalid :: string where
  "ErrKindSplitTokenInvalid = ''SPLIT_TOKEN_INVALID''"

definition ErrKindSplitSnapshotExpired :: string where
  "ErrKindSplitSnapshotExpired = ''SPLIT_SNAPSHOT_EXPIRED''"

definition ErrKindSplitTransactionEnded :: string where
  "ErrKindSplitTransactionEnded = ''SPLIT_TRANSACTION_ENDED''"

text \<open>
  The message of an error is kept as the check that raised it. \<open>SplitTokenError\<close> carries its kind; the
  other constructors are the plain errors of \<open>BuildSplitToken\<close>.
\<close>

datatype split_reason =
    TooShort | UnsupportedVersion | ReservedFlags | UnsealedRefused | SealedWithoutKey
  | TruncatedAnchor | FingerprintMismatch | SnapshotExpired | FailedAuthentication

datatype split_err =
    SplitTokenError (Kind: string) (Reason: split_reason)
  | FingerprintLength nat
  | AnchorTooLong nat
  | SealFailed opaque_err

definition splitInvalid :: "split_reason \<Rightarrow> split_err" where
  "splitInvalid r = SplitTokenError ErrKindSplitTokenInvalid r"

definition splitExpired :: "split_reason \<Rightarrow> split_err" where
  "splitExpired r = SplitTokenError ErrKindSplitSnapshotExpired r"

section \<open>Fingerprint and additional data\<close>

definition feed :: "string \<Rightarrow> bytes \<Rightarrow> bytes" where
  "feed label v = str label @ 0 # v @ [0]"

text \<open>Everything written to the hash, in order.\<close>

definition fingerprintInput :: "string list \<Rightarrow> string \<Rightarrow> bytes \<Rightarrow> bytes \<Rightarrow> bytes \<Rightarrow> bytes" where
  "fingerprintInput schemaPath functionName argsRepr settingsRepr projectionRepr =
     splitAADPrefix
     @ concat (map (\<lambda>component. feed ''schema_path_component'' (str component)) schemaPath)
     @ feed ''function_name'' (str functionName)
     @ feed ''arguments'' argsRepr
     @ feed ''settings'' settingsRepr
     @ feed ''projection_ids'' projectionRepr"

definition BindFingerprint :: "string list \<Rightarrow> string \<Rightarrow> bytes \<Rightarrow> bytes \<Rightarrow> bytes \<Rightarrow> bytes" where
  "BindFingerprint schemaPath functionName argsRepr settingsRepr projectionRepr =
     take splitFingerprintLen
       (sha256 (fingerprintInput schemaPath functionName argsRepr settingsRepr projectionRepr))"

definition splitTokenAAD :: "bytes \<Rightarrow> auth_context option \<Rightarrow> bytes" where
  "splitTokenAAD header auth = header @ identityTail auth"

section \<open>Building and opening a token\<close>

definition splitHeader :: "byte \<Rightarrow> bytes \<Rightarrow> bytes \<Rightarrow> bytes" where
  "splitHeader flags fingerprint anchor =
     [SplitTokenFormatVersion, flags] @ le_bytes 2 (length anchor) @ fingerprint @ anchor"

definition BuildSplitToken ::
  "aead \<Rightarrow> bytes option \<Rightarrow> bytes \<Rightarrow> bytes \<Rightarrow> bytes \<Rightarrow> bytes option \<Rightarrow> auth_context option
    \<Rightarrow> split_err + bytes" where
  "BuildSplitToken A rnd payload fingerprint anchor signingKey auth =
     (if length fingerprint \<noteq> splitFingerprintLen then Inl (FingerprintLength (length fingerprint))
      else if length anchor > 0xFFFF then Inl (AnchorTooLong (length anchor))
      else
        let flags = (if signingKey \<noteq> None then splitFlagPayloadSealed else 0);
            body = splitHeader flags fingerprint anchor
        in case signingKey of
             None \<Rightarrow> Inr (body @ payload)
           | Some key \<Rightarrow>
               rbind (rmap_err SealFailed
                        (sealBytes A rnd payload key (splitTokenAAD body auth) splitSealVersion))
                 (\<lambda>sealed. Inr (body @ sealed)))"

definition OpenSplitToken ::
  "aead \<Rightarrow> bytes \<Rightarrow> bytes option \<Rightarrow> auth_context option \<Rightarrow> bytes option \<Rightarrow> bytes option
    \<Rightarrow> split_err + bytes" where
  "OpenSplitToken A token signingKey auth expectedFingerprint currentAnchor =
     (if length token < splitHeaderLen then Inl (splitInvalid TooShort)
      else
        let version = token ! 0;
            flags = token ! 1;
            anchorLen = le_nat (take 2 (drop 2 token));
            sealed = (flags AND splitFlagPayloadSealed \<noteq> 0);
            endOfAnchor = splitHeaderLen + anchorLen;
            fingerprint = take splitFingerprintLen (drop 4 token);
            anchor = take anchorLen (drop splitHeaderLen token);
            body = take endOfAnchor token;
            rest = drop endOfAnchor token
        in if version \<noteq> SplitTokenFormatVersion then Inl (splitInvalid UnsupportedVersion)
           else if flags AND splitReservedFlagsMask \<noteq> 0 then Inl (splitInvalid ReservedFlags)
           else if signingKey \<noteq> None \<and> \<not> sealed then Inl (splitInvalid UnsealedRefused)
           else if signingKey = None \<and> sealed then Inl (splitInvalid SealedWithoutKey)
           else if length token < endOfAnchor then Inl (splitInvalid TruncatedAnchor)
           else if expectedFingerprint \<noteq> None \<and> Some fingerprint \<noteq> expectedFingerprint
             then Inl (splitInvalid FingerprintMismatch)
           else if currentAnchor \<noteq> None \<and> Some anchor \<noteq> currentAnchor
             then Inl (splitExpired SnapshotExpired)
           else if \<not> sealed then Inr rest
           else case openBytes A rest (the signingKey) (splitTokenAAD body auth) splitSealVersion of
             Inl _ \<Rightarrow> Inl (splitInvalid FailedAuthentication)
           | Inr payload \<Rightarrow> Inr payload)"

section \<open>The framework around the tokens\<close>

record bind_request =
  SchemaPath :: "string list option"
  FunctionName :: string
  Arguments :: bytes
  Settings :: "bytes option"

text \<open>\<open>w.catalog.version\<close>, or \<open>None\<close> when the worker has no catalog.\<close>

record split_worker = worker +
  catalogVersion :: "int64 option"

record scan_split =
  Payload :: bytes
  Token :: bytes

definition bindFingerprintFor :: "'b bind_request_scheme \<Rightarrow> bytes" where
  "bindFingerprintFor req =
     BindFingerprint (case SchemaPath req of None \<Rightarrow> [] | Some p \<Rightarrow> p) (FunctionName req) (Arguments req)
       (case Settings req of None \<Rightarrow> [] | Some s \<Rightarrow> s) []"

definition splitAnchor :: "int64 \<Rightarrow> bytes" where
  "splitAnchor version = put_u64_le version"

definition splitLiveCatalogVersion :: "'w split_worker_scheme \<Rightarrow> int64" where
  "splitLiveCatalogVersion w = (case catalogVersion w of Some v \<Rightarrow> v | None \<Rightarrow> 1)"

definition splitLiveAnchor :: "'w split_worker_scheme \<Rightarrow> bytes" where
  "splitLiveAnchor w = splitAnchor (splitLiveCatalogVersion w)"

definition splitSigningKey :: "'w worker_scheme \<Rightarrow> bytes option" where
  "splitSigningKey w = (if length (httpSigningKey w) = 0 then None else Some (httpSigningKey w))"

text \<open>\<open>rnds\<close> supplies the random bytes, one draw a split.\<close>

fun stampSplitTokens ::
  "aead \<Rightarrow> bytes option list \<Rightarrow> 'w split_worker_scheme \<Rightarrow> 's scan_split_scheme list
    \<Rightarrow> 'b bind_request_scheme \<Rightarrow> int64 \<Rightarrow> auth_context option \<Rightarrow> split_err + 's scan_split_scheme list" where
  "stampSplitTokens A rnds w [] req version auth = Inr []"
| "stampSplitTokens A rnds w (s # splits) req version auth =
     rbind (BuildSplitToken A (case rnds of [] \<Rightarrow> None | r # _ \<Rightarrow> r) (Payload s) (bindFingerprintFor req)
              (splitAnchor version) (splitSigningKey w) auth) (\<lambda>token.
       rbind (stampSplitTokens A (tl rnds) w splits req version auth) (\<lambda>stamped.
         Inr (s\<lparr>Token := token, Payload := []\<rparr> # stamped)))"

fun openSplitTokens ::
  "aead \<Rightarrow> 'w split_worker_scheme \<Rightarrow> bytes list \<Rightarrow> 'b bind_request_scheme \<Rightarrow> call_context option
    \<Rightarrow> split_err + bytes list" where
  "openSplitTokens A w [] bindReq callCtx = Inr []"
| "openSplitTokens A w (token # tokens) bindReq callCtx =
     rbind (OpenSplitToken A token (splitSigningKey w) (callAuth callCtx)
              (Some (bindFingerprintFor bindReq)) (Some (splitLiveAnchor w))) (\<lambda>payload.
       rbind (openSplitTokens A w tokens bindReq callCtx) (\<lambda>payloads.
         Inr (payload # payloads)))"


definition stdio_worker :: split_worker where
  "stdio_worker = \<lparr>sealOpaqueData = False, httpSigningKey = [], catalogVersion = Some 4\<rparr>"

definition sample_bind :: bind_request where
  "sample_bind = \<lparr>SchemaPath = Some [''main''], FunctionName = ''scan'', Arguments = [1], Settings = None\<rparr>"

definition sample_header :: bytes where
  "sample_header = splitHeader 1 (replicate 16 3) []"

section \<open>Facts about headers\<close>

lemma flags_split: "x = (x AND 0xFE) OR (x AND (1 :: byte))"
proof -
  have "(0xFE :: byte) OR 1 = - 1" by simp
  then have "x = x AND (0xFE OR 1)" by (simp only: bit.conj_one_right)
  then show ?thesis by (simp only: bit.conj_disj_distrib)
qed

lemma flags_unsealed:
  assumes "(x :: byte) AND 0xFE = 0" "x AND 1 = 0"
  shows "x = 0"
  using flags_split [of x] assms by simp

lemma flags_sealed:
  assumes "(x :: byte) AND 0xFE = 0" "x AND 1 \<noteq> 0"
  shows "x = 1"
proof -
  have "x AND 1 = of_bool (odd x)" by (simp add: and_one_eq mod_2_eq_odd)
  then have "x AND 1 = 1" using assms(2) by (cases "odd x") simp_all
  then show ?thesis using flags_split [of x] assms(1) by simp
qed

lemma le_bytes2_length: "length xs \<le> 0xFFFF \<Longrightarrow> le_nat (le_bytes 2 (length xs)) = length xs"
  by simp

lemma length_splitHeader [simp]: "length (splitHeader f fp anchor) = 4 + length fp + length anchor"
  by (simp add: splitHeader_def)

text \<open>On a token with a well-formed header the checks are checks of the header's fields.\<close>

lemma OpenSplitToken_header:
  assumes "length fp = 16" "length anchor \<le> 0xFFFF"
  shows "OpenSplitToken A (splitHeader flags fp anchor @ rest) key auth ef ca =
    (if flags AND 0xFE \<noteq> 0 then Inl (splitInvalid ReservedFlags)
     else if key \<noteq> None \<and> flags AND 1 = 0 then Inl (splitInvalid UnsealedRefused)
     else if key = None \<and> flags AND 1 \<noteq> 0 then Inl (splitInvalid SealedWithoutKey)
     else if ef \<noteq> None \<and> Some fp \<noteq> ef then Inl (splitInvalid FingerprintMismatch)
     else if ca \<noteq> None \<and> Some anchor \<noteq> ca then Inl (splitExpired SnapshotExpired)
     else if flags AND 1 = 0 then Inr rest
     else case openBytes A rest (the key) (splitTokenAAD (splitHeader flags fp anchor) auth) 1 of
       Inl _ \<Rightarrow> Inl (splitInvalid FailedAuthentication)
     | Inr payload \<Rightarrow> Inr payload)"
proof -
  let ?tok = "splitHeader flags fp anchor @ rest"
  have eq: "?tok = 1 # flags # le_bytes 2 (length anchor) @ fp @ anchor @ rest"
    by (simp add: splitHeader_def SplitTokenFormatVersion_def)
  have two: "take 2 (drop 2 ?tok) = le_bytes 2 (length anchor)" by (simp add: eq)
  have four: "drop 4 ?tok = fp @ anchor @ rest"
  proof -
    have "drop 4 ?tok = drop 2 (drop 2 ?tok)" by simp
    also have "\<dots> = fp @ anchor @ rest" unfolding eq by simp
    finally show ?thesis .
  qed
  have "drop 20 ?tok = drop 16 (drop 4 ?tok)" by simp
  then have twenty: "drop 20 ?tok = anchor @ rest" using assms(1) by (simp only: four) simp
  have ends: "take (20 + length anchor) ?tok = splitHeader flags fp anchor"
    "drop (20 + length anchor) ?tok = rest" using assms(1) by simp_all
  have heads: "?tok ! 0 = 1" "?tok ! 1 = flags" "\<not> length ?tok < 20" "\<not> length ?tok < 20 + length anchor"
    using assms(1) by (simp_all add: eq)
  show ?thesis
    unfolding OpenSplitToken_def Let_def split_consts
    using assms heads ends
    by (simp only: two four twenty le_bytes2_length if_False if_True simp_thms) simp
qed

lemma split_token_header:
  assumes "20 \<le> length token" "token ! 0 = 1" "20 + n \<le> length token" "n = le_nat (take 2 (drop 2 token))"
  shows "token = splitHeader (token ! 1) (take 16 (drop 4 token)) (take n (drop 20 token)) @ drop (20 + n) token"
proof -
  have two: "take 2 (drop 2 token) = le_bytes 2 (length (take n (drop 20 token)))"
  proof -
    have "length (take 2 (drop 2 token)) = 2" "length (take n (drop 20 token)) = n"
      using assms(1,3) by simp_all
    then show ?thesis using le_bytes_le_nat [of "take 2 (drop 2 token)"] assms(4) by simp
  qed
  have "token = token ! 0 # token ! 1 # drop 2 token"
    using assms(1) by (cases token; cases "tl token") auto
  moreover have "drop 2 token = take 2 (drop 2 token) @ drop 4 token"
    using append_take_drop_id [of 2 "drop 2 token"] by simp
  moreover have "drop 4 token = take 16 (drop 4 token) @ take n (drop 20 token) @ drop (20 + n) token"
    using append_take_drop_id [of 16 "drop 4 token"] append_take_drop_id [of n "drop 20 token"]
    by (simp add: add.commute)
  ultimately have "token = 1 # token ! 1 # le_bytes 2 (length (take n (drop 20 token)))
      @ take 16 (drop 4 token) @ take n (drop 20 token) @ drop (20 + n) token"
    using two assms(2) by metis
  then show ?thesis by (simp add: splitHeader_def SplitTokenFormatVersion_def)
qed

lemma OpenSplitToken_Inr_header:
  assumes "OpenSplitToken A token key auth ef ca = Inr p"
  obtains flags fp anchor rest where
    "token = splitHeader flags fp anchor @ rest" "length fp = 16" "length anchor \<le> 0xFFFF"
proof -
  let ?n = "le_nat (take 2 (drop 2 token))"
  have "20 \<le> length token" "token ! 0 = 1" "20 + ?n \<le> length token"
    using assms by (auto simp: OpenSplitToken_def Let_def split_consts not_less split: if_splits)
  then have "token = splitHeader (token ! 1) (take 16 (drop 4 token)) (take ?n (drop 20 token)) @ drop (20 + ?n) token"
    by (rule split_token_header) simp
  moreover have "length (take 16 (drop 4 token)) = 16" using \<open>20 \<le> length token\<close> by simp
  moreover have "?n < 256 ^ 2"
    using le_nat_less [of "take 2 (drop 2 token)"] \<open>20 \<le> length token\<close> by simp
  then have "length (take ?n (drop 20 token)) \<le> 0xFFFF" by simp
  ultimately show ?thesis using that by blast
qed

section \<open>Facts about tokens\<close>

lemma BuildSplitToken_Inr_iff:
  "BuildSplitToken A rnd p fp anchor key auth = Inr tok \<longleftrightarrow>
     length fp = 16 \<and> length anchor \<le> 0xFFFF \<and>
     (case key of
        None \<Rightarrow> tok = splitHeader 0 fp anchor @ p
      | Some k \<Rightarrow> \<exists>env. sealBytes A rnd p k (splitTokenAAD (splitHeader 1 fp anchor) auth) 1 = Inr env \<and>
                      tok = splitHeader 1 fp anchor @ env)"
  by (auto simp: BuildSplitToken_def split_consts Let_def rbind_Inr_iff rmap_err_Inr_iff split: option.splits)

lemma OpenSplitToken_Build:
  assumes "aead_laws A" "BuildSplitToken A rnd p fp anchor key auth = Inr tok"
  shows "OpenSplitToken A tok key auth (Some fp) (Some anchor) = Inr p"
  using assms
  by (cases key)
    (auto simp: BuildSplitToken_Inr_iff OpenSplitToken_header openBytes_sealBytes [OF assms(1)])

interpretation split_env: sealed_channel
  "\<lambda>(A, fp, anchor, key, auth). aead_laws A"
  "\<lambda>(A, fp, anchor, key, auth) rnd p. BuildSplitToken A rnd p fp anchor key auth"
  "\<lambda>(A, fp, anchor, key, auth) tok. OpenSplitToken A tok key auth (Some fp) (Some anchor)"
  by unfold_locales (auto intro: OpenSplitToken_Build)

lemma OpenSplitToken_imp_Build:
  assumes "aead_laws A" "OpenSplitToken A tok key auth (Some fp) (Some anchor) = Inr p"
  shows "\<exists>rnd. BuildSplitToken A rnd p fp anchor key auth = Inr tok"
proof -
  obtain flags fp' anchor' rest where
    tok: "tok = splitHeader flags fp' anchor' @ rest" "length fp' = 16" "length anchor' \<le> 0xFFFF"
    using OpenSplitToken_Inr_header [OF assms(2)] .
  note open_header = assms(2) [unfolded tok(1) OpenSplitToken_header [OF tok(2,3)]]
  have same: "fp' = fp" "anchor' = anchor" and reserved: "flags AND 0xFE = 0"
    using open_header by (auto split: if_splits)
  show ?thesis
  proof (cases key)
    case None
    then have "flags AND 1 = 0" "rest = p" using open_header by (auto split: if_splits)
    then show ?thesis
      using None tok same flags_unsealed [OF reserved] by (auto simp: BuildSplitToken_Inr_iff)
  next
    case (Some k)
    then have "flags AND 1 \<noteq> 0" using open_header by (auto split: if_splits)
    then have one: "flags = 1" by (rule flags_sealed [OF reserved])
    then have "openBytes A rest k (splitTokenAAD (splitHeader 1 fp anchor) auth) 1 = Inr p"
      using open_header Some same by (auto split: if_splits sum.splits)
    from openBytes_sound [OF assms(1) this] show ?thesis
      using Some tok same one by (auto simp: BuildSplitToken_Inr_iff)
  qed
qed

lemma length_bindFingerprintFor [simp]: "length (bindFingerprintFor req) = 16"
  by (simp add: bindFingerprintFor_def BindFingerprint_def split_consts)

lemma length_splitAnchor [simp]: "length (splitAnchor v) = 8"
  by (simp add: splitAnchor_def)

lemma splitAnchor_inject [simp]: "splitAnchor v = splitAnchor v' \<longleftrightarrow> v = v'"
  by (simp add: splitAnchor_def)

lemma stampSplitTokens_Inr:
  assumes "stampSplitTokens A rnds w splits req version auth = Inr stamped"
  shows "list_all2 (\<lambda>s s'. Payload s' = [] \<and>
    (\<exists>rnd. BuildSplitToken A rnd (Payload s) (bindFingerprintFor req) (splitAnchor version)
             (splitSigningKey w) auth = Inr (Token s'))) splits stamped"
  using assms
  by (induction A rnds w splits req version auth arbitrary: stamped rule: stampSplitTokens.induct)
    (auto simp: rbind_Inr_iff)

lemma openSplitTokens_Inr_iff:
  "openSplitTokens A w tokens bindReq cc = Inr ps \<longleftrightarrow>
     map (\<lambda>t. OpenSplitToken A t (splitSigningKey w) (callAuth cc) (Some (bindFingerprintFor bindReq))
                (Some (splitLiveAnchor w))) tokens = map Inr ps"
  by (induction tokens arbitrary: ps) (auto simp: rbind_Inr_iff Cons_eq_map_conv)

section \<open>Facts about the fingerprint\<close>



section \<open>Properties\<close>

text \<open>
  C3. A token is redeemed exactly when it could have been minted: with the bind fingerprint and the
  live anchor given, opening succeeds with a payload if and only if building a token for that payload
  in the same key state, for the same caller, bind and anchor yields these bytes. In particular a worker that
  holds a key never accepts an unsealed token, and one without a key never accepts a sealed one.
\<close>
theorem OpenSplitToken_iff_Build:
  assumes "aead_laws A"
  shows "OpenSplitToken A tok key auth (Some fp) (Some anchor) = Inr p \<longleftrightarrow>
    (\<exists>rnd. BuildSplitToken A rnd p fp anchor key auth = Inr tok)"
  using OpenSplitToken_Build [OF assms] OpenSplitToken_imp_Build [OF assms] by blast

theorem OpenSplitToken_iff_Build_witness:
  "OpenSplitToken plain_aead (splitHeader 0 (replicate 16 3) [] @ [8]) (Some [1]) (Some alice)
     (Some (replicate 16 3)) (Some []) \<noteq> Inr [8]"
proof -
  have "length (splitHeader 0 (replicate 16 3) []) = length (splitHeader 1 (replicate 16 3) [])" by simp
  moreover have "splitHeader 0 (replicate 16 3) [] \<noteq> splitHeader 1 (replicate 16 3) []"
    by (simp add: splitHeader_def)
  ultimately show ?thesis
    using OpenSplitToken_iff_Build [of plain_aead "splitHeader 0 (replicate 16 3) [] @ [8]" "Some [1]"
        "Some alice" "replicate 16 3" "[]" "[8]"]
    by (simp add: BuildSplitToken_Inr_iff)
qed

text \<open>
  C20. Planning and redeeming agree: when the framework stamps the splits of a plan at the catalog
  version the worker reports, it clears every plaintext payload, and a later init of the same caller
  with the same bind, at an unchanged catalog version, recovers all the payloads in order.
\<close>
theorem stamped_splits_redeem:
  assumes "aead_laws A"
    and "stampSplitTokens A rnds w splits req (splitLiveCatalogVersion w) (callAuth cc) = Inr stamped"
  shows "openSplitTokens A w (map Token stamped) req cc = Inr (map Payload splits) \<and>
    map Payload stamped = replicate (length splits) []"
proof -
  note stamps = stampSplitTokens_Inr [OF assms(2)]
  let ?c = "(A, bindFingerprintFor req, splitLiveAnchor w, splitSigningKey w, callAuth cc)"
  have "list_all2 (\<lambda>p v. \<exists>rnd. BuildSplitToken A rnd p (bindFingerprintFor req) (splitLiveAnchor w)
      (splitSigningKey w) (callAuth cc) = Inr v) (map Payload splits) (map Token stamped)"
    using stamps
    by (auto simp: list_all2_map1 list_all2_map2 splitLiveAnchor_def elim: list_all2_mono)
  then have "map (\<lambda>t. OpenSplitToken A t (splitSigningKey w) (callAuth cc) (Some (bindFingerprintFor req))
      (Some (splitLiveAnchor w))) (map Token stamped) = map Inr (map Payload splits)"
    using split_env.unseal_all [of ?c "map Payload splits" "map Token stamped"] assms(1) by simp
  moreover have "map Payload stamped = replicate (length splits) []"
    using stamps by (induction rule: list_all2_induct) auto
  ultimately show ?thesis by (simp only: openSplitTokens_Inr_iff)
qed

lemma stdio_key [simp]: "splitSigningKey stdio_worker = None"
  by (simp add: splitSigningKey_def stdio_worker_def)

lemma stdio_version [simp]: "splitLiveCatalogVersion stdio_worker = 4"
  by (simp add: splitLiveCatalogVersion_def stdio_worker_def)

lemma stamp_sample:
  "stampSplitTokens A [] stdio_worker [\<lparr>Payload = [8], Token = []\<rparr>] sample_bind 4 None =
     Inr [\<lparr>Payload = [], Token = splitHeader 0 (bindFingerprintFor sample_bind) (splitAnchor 4) @ [8]\<rparr>]"
  by (simp add: BuildSplitToken_def split_consts)

theorem stamped_splits_redeem_witness:
  "openSplitTokens plain_aead stdio_worker
     [splitHeader 0 (bindFingerprintFor sample_bind) (splitAnchor 4) @ [8]] sample_bind None = Inr [[8]]"
proof -
  have "stampSplitTokens plain_aead [] stdio_worker [\<lparr>Payload = [8], Token = []\<rparr>] sample_bind
      (splitLiveCatalogVersion stdio_worker) (callAuth None) =
    Inr [\<lparr>Payload = [], Token = splitHeader 0 (bindFingerprintFor sample_bind) (splitAnchor 4) @ [8]\<rparr>]"
    by (simp only: stdio_version callAuth_def option.case stamp_sample)
  from stamped_splits_redeem [OF plain_aead_laws this] show ?thesis
    by (simp del: openSplitTokens.simps)
qed

text \<open>
  A plan that outlives its snapshot is refused as expired: if the catalog version has moved since the
  splits were stamped, redeeming them fails with \<open>SPLIT_SNAPSHOT_EXPIRED\<close>, the one kind that
  means the query can be re-run, whoever the caller and whatever the key.
\<close>
theorem stale_splits_expire:
  assumes "stampSplitTokens A rnds w splits req version auth = Inr stamped" "splits \<noteq> []"
    and "splitSigningKey w' = splitSigningKey w" "splitLiveCatalogVersion w' \<noteq> version"
  shows "openSplitTokens A w' (map Token stamped) req cc =
    Inl (SplitTokenError ''SPLIT_SNAPSHOT_EXPIRED'' SnapshotExpired)"
proof -
  obtain s ss where splits: "splits = s # ss" using assms(2) by (cases splits) auto
  obtain s' ss' rnd where stamped: "stamped = s' # ss'" and
    tok: "BuildSplitToken A rnd (Payload s) (bindFingerprintFor req) (splitAnchor version)
            (splitSigningKey w) auth = Inr (Token s')"
    using stampSplitTokens_Inr [OF assms(1)] by (auto simp: splits list_all2_Cons1)
  have "OpenSplitToken A (Token s') (splitSigningKey w') (callAuth cc) (Some (bindFingerprintFor req))
      (Some (splitLiveAnchor w')) = Inl (splitExpired SnapshotExpired)"
    using tok assms(3,4)
    by (cases "splitSigningKey w")
      (auto simp: BuildSplitToken_Inr_iff OpenSplitToken_header splitLiveAnchor_def)
  then show ?thesis
    by (simp add: stamped splitExpired_def ErrKindSplitSnapshotExpired_def)
qed

theorem stale_splits_expire_witness:
  "openSplitTokens plain_aead (stdio_worker\<lparr>catalogVersion := Some 5\<rparr>)
     [splitHeader 0 (bindFingerprintFor sample_bind) (splitAnchor 4) @ [8]] sample_bind None =
   Inl (SplitTokenError ''SPLIT_SNAPSHOT_EXPIRED'' SnapshotExpired)"
proof -
  have "splitSigningKey (stdio_worker\<lparr>catalogVersion := Some 5\<rparr>) = splitSigningKey stdio_worker"
    "splitLiveCatalogVersion (stdio_worker\<lparr>catalogVersion := Some 5\<rparr>) \<noteq> 4"
    by (simp_all add: splitLiveCatalogVersion_def splitSigningKey_def stdio_worker_def)
  from stale_splits_expire [OF stamp_sample _ this] show ?thesis
    by (simp del: openSplitTokens.simps)
qed

text \<open>
  C33. A sealed token is bound to the caller it was minted for: presented by a caller with another
  identity it fails authentication with \<open>SPLIT_TOKEN_INVALID\<close>.
\<close>
theorem split_token_bound_to_caller:
  assumes "aead_laws A" "BuildSplitToken A rnd p fp anchor (Some k) auth = Inr tok"
    and "nul_free_domain auth" "nul_free_domain auth'" "identity auth' \<noteq> identity auth"
    and "aead_separates A (splitTokenAAD (splitHeader 1 fp anchor) auth)
           (splitTokenAAD (splitHeader 1 fp anchor) auth')"
  shows "OpenSplitToken A tok (Some k) auth' (Some fp) (Some anchor) =
    Inl (SplitTokenError ''SPLIT_TOKEN_INVALID'' FailedAuthentication)"
proof -
  obtain env where tok: "length fp = 16" "length anchor \<le> 0xFFFF" "tok = splitHeader 1 fp anchor @ env"
    and env: "sealBytes A rnd p k (splitTokenAAD (splitHeader 1 fp anchor) auth) 1 = Inr env"
    using assms(2) by (auto simp: BuildSplitToken_Inr_iff)
  have "splitTokenAAD (splitHeader 1 fp anchor) auth \<noteq> splitTokenAAD (splitHeader 1 fp anchor) auth'"
    using identityTail_inject [OF assms(3,4)] assms(5) by (auto simp: splitTokenAAD_def)
  from openBytes_other_aad [OF assms(1,6) this env] show ?thesis
    using tok by (simp add: OpenSplitToken_header splitInvalid_def ErrKindSplitTokenInvalid_def)
qed

lemma plain_tag_split_callers:
  "plain_tag (splitTokenAAD sample_header (Some alice)) \<noteq> plain_tag (splitTokenAAD sample_header (Some bob))"
  by (simp add: plain_tag_def splitTokenAAD_def identityTail_identity str_def byte_of_char_def)

theorem split_token_bound_to_caller_witness:
  "OpenSplitToken plain_aead
     (sample_header @ 1 # replicate 24 9 @ [1, 2] @ plain_tag (splitTokenAAD sample_header (Some alice)))
     (Some (replicate 32 7)) (Some bob) (Some (replicate 16 3)) (Some []) =
   Inl (SplitTokenError ''SPLIT_TOKEN_INVALID'' FailedAuthentication)"
  by (rule split_token_bound_to_caller [where rnd = "Some (replicate 24 9)" and p = "[1, 2]" and auth = "Some alice"])
    (simp_all add: BuildSplitToken_Inr_iff sealBytes_Inr_iff plain_aead_separates plain_tag_split_callers
      flip: sample_header_def, simp add: plain_aead_def)

text \<open>
  Every refusal of a token is a \<open>SplitTokenError\<close> of one of two kinds, and the retriable kind
  \<open>SPLIT_SNAPSHOT_EXPIRED\<close> is given only to a token that passed the bind check: its header carries the expected
  fingerprint and an anchor other than the live one.
\<close>
theorem open_error_kinds:
  assumes "OpenSplitToken A tok key auth (Some fp) (Some anchor) = Inl e"
  shows "(\<exists>r. e = SplitTokenError ''SPLIT_TOKEN_INVALID'' r) \<or>
    e = SplitTokenError ''SPLIT_SNAPSHOT_EXPIRED'' SnapshotExpired \<and> take 16 (drop 4 tok) = fp \<and>
      take (le_nat (take 2 (drop 2 tok))) (drop 20 tok) \<noteq> anchor"
  using assms
  by (auto simp: OpenSplitToken_def Let_def split_consts splitInvalid_def splitExpired_def
      ErrKindSplitTokenInvalid_def ErrKindSplitSnapshotExpired_def split: if_splits sum.splits)

theorem open_error_kinds_witness:
  "(\<exists>r. splitInvalid TooShort = SplitTokenError ''SPLIT_TOKEN_INVALID'' r) \<or>
    splitInvalid TooShort = SplitTokenError ''SPLIT_SNAPSHOT_EXPIRED'' SnapshotExpired \<and>
      take 16 (drop 4 [1]) = replicate 16 (3 :: byte) \<and>
      take (le_nat (take 2 (drop 2 [1]))) (drop 20 [1 :: byte]) \<noteq> []"
  by (rule open_error_kinds [where A = plain_aead and key = None and auth = None])
    (simp add: OpenSplitToken_def split_consts)



text \<open>
  Between the arguments and the settings the hash input is ambiguous: a settings label hidden in
  the arguments moves bytes from one to the other without changing the fingerprint, so two binds with
  different arguments and settings can share it.
\<close>
theorem fingerprint_arguments_settings_collide:
  "BindFingerprint path f (x @ [0] @ str ''settings'' @ [0] @ y) z q =
   BindFingerprint path f x (y @ [0] @ str ''settings'' @ [0] @ z) q"
  by (simp add: BindFingerprint_def fingerprintInput_def feed_def)

end
