(* ===== verification/AttachTicket.thy ===== *)
theory AttachTicket
  imports Envelope GoText
begin

text \<open>
  \<open>vgi/attach_ticket.go\<close>: attach tickets, the sealed text that lets an unattended session repeat a
  user's ATTACH.

  The payload codec (\<open>encodeTicketPayload\<close>, \<open>decodeTicketPayload\<close>) is a pair of functions on bytes, the decoder
  returning the rest it has not read; minting and opening add the AEAD envelope, base64url and the lifetime.
  \<open>sealAttachTicket\<close> is the RPC that issues a ticket and \<open>redeemAttachTicket\<close> the first step of
  \<open>catalog_attach\<close> that replaces a request by the one sealed in its ticket. Arguments stand for the cipher (\<open>A\<close>),
  the Arrow IPC reader (\<open>R\<close>), the Unicode tables (\<open>U\<close>), the random sources and the clock. Unix seconds are 64-bit
  words compared as signed numbers.
\<close>

section \<open>Constants and errors\<close>

definition AttachTicketPrefix :: string where "AttachTicketPrefix = ''vgia1.''"
definition AttachTicketOption :: string where "AttachTicketOption = ''vgi_attach_ticket''"
definition attachTicketEnvelopeVersion :: byte where "attachTicketEnvelopeVersion = 0x01"
definition attachTicketMaxOptionsBytes :: nat where "attachTicketMaxOptionsBytes = 16 * 1024"
definition attachTicketMaxChars :: nat where "attachTicketMaxChars = 32 * 1024"
definition attachTicketClockSkew :: int64 where "attachTicketClockSkew = 60"
definition attachTicketMaxText :: nat where "attachTicketMaxText = 0xFFFF"

lemmas ticket_consts = attachTicketEnvelopeVersion_def attachTicketMaxOptionsBytes_def
  attachTicketMaxChars_def attachTicketClockSkew_def attachTicketMaxText_def

definition attachTicketAADPrefix :: bytes where
  "attachTicketAADPrefix = str ''vgi.attach_ticket.v1'' @ [0]"

text \<open>Plain errors of minting; their text is a violation of the request when the RPC reports them.\<close>

datatype mint_err =
    OptionsTooBig nat
  | TextTooLong string
  | NonceUnavailable
  | NeedsPrincipal
  | IdUnavailable
  | NeedsCatalog
  | BadTicketId
  | BadExpiry
  | SealError opaque_err
  | TicketTooLong nat

text \<open>The description of a field violation: literal text, or one of the formatted messages.\<close>

datatype description =
    Text string
  | NoCatalogNamed string
  | OptionBytes nat
  | MintFailed mint_err

datatype ticket_err =
    AttachTicketInvalid string
  | AttachTicketExpired string
  | TicketInvalidRequest string "(string \<times> description) list"
  | TicketActionDenied string
  | ReadingOptions
  | SpecUnreadable

definition ticketInvalid :: "string \<Rightarrow> ticket_err" where
  "ticketInvalid detail = AttachTicketInvalid detail"

definition ticketInvalidRequest :: "string \<Rightarrow> (string \<times> description) list \<Rightarrow> ticket_err" where
  "ticketInvalidRequest message violations = TicketInvalidRequest message violations"

definition ticketActionDenied :: "string \<Rightarrow> ticket_err" where
  "ticketActionDenied message = TicketActionDenied message"

section \<open>The payload\<close>

record claims =
  IssuedAt :: int64
  ExpiresAt :: int64
  TicketID :: string
  CatalogName :: string
  DataVersionSpec :: string
  ImplementationVersion :: string
  OptionsIPC :: bytes

definition attachTicketIDPattern :: "string \<Rightarrow> bool" where
  "attachTicketIDPattern s = (length s = 32 \<and> list_all (\<lambda>c. c \<in> set ''0123456789abcdef'') s)"

definition attachTicketB64URL :: "string \<Rightarrow> bool" where
  "attachTicketB64URL s = (s \<noteq> [] \<and> list_all (\<lambda>c. c \<in> set b64_alphabet) s)"

definition attachTicketAAD :: "string \<Rightarrow> bytes" where
  "attachTicketAAD caller = attachTicketAADPrefix @ str caller"

fun encodeTexts :: "(string \<times> string) list \<Rightarrow> mint_err + bytes" where
  "encodeTexts [] = Inr []"
| "encodeTexts ((name, v) # fs) =
     (if length v > attachTicketMaxText then Inl (TextTooLong name)
      else rbind (encodeTexts fs) (\<lambda>rest. Inr (le_bytes 2 (length v) @ str v @ rest)))"

definition encodeTicketPayload :: "claims \<Rightarrow> mint_err + bytes" where
  "encodeTicketPayload c =
     (if length (OptionsIPC c) > attachTicketMaxOptionsBytes then Inl (OptionsTooBig (length (OptionsIPC c)))
      else rbind (encodeTexts [(''ticket_id'', TicketID c), (''catalog_name'', CatalogName c),
                     (''data_version_spec'', DataVersionSpec c),
                     (''implementation_version'', ImplementationVersion c)]) (\<lambda>texts.
        Inr (put_u64_le (IssuedAt c) @ put_u64_le (ExpiresAt c) @ texts
             @ le_bytes 4 (length (OptionsIPC c)) @ OptionsIPC c)))"

definition takeBytes :: "nat \<Rightarrow> bytes \<Rightarrow> ticket_err + (bytes \<times> bytes)" where
  "takeBytes n rest =
     (if n > length rest then Inl (ticketInvalid ''attach ticket payload is truncated'')
      else Inr (take n rest, drop n rest))"

definition takeText :: "bytes \<Rightarrow> ticket_err + (string \<times> bytes)" where
  "takeText rest =
     rbind (takeBytes 2 rest) (\<lambda>(raw, rest1).
       rbind (takeBytes (le_nat raw) rest1) (\<lambda>(body, rest2).
         if \<not> utf8_valid body then Inl (ticketInvalid ''attach ticket payload is not UTF-8'')
         else Inr (unstr body, rest2)))"

definition decodeTicketPayload :: "bytes \<Rightarrow> ticket_err + claims" where
  "decodeTicketPayload payload =
     rbind (takeBytes 16 payload) (\<lambda>(head, r0).
     rbind (takeText r0) (\<lambda>(ticket_id, r1).
     rbind (takeText r1) (\<lambda>(catalog_name, r2).
     rbind (takeText r2) (\<lambda>(data_version, r3).
     rbind (takeText r3) (\<lambda>(implementation, r4).
     rbind (takeBytes 4 r4) (\<lambda>(raw, r5).
       let n = le_nat raw in
       if n > attachTicketMaxOptionsBytes then Inl (ticketInvalid ''attach ticket options exceed 16 KiB'')
       else rbind (takeBytes n r5) (\<lambda>(opts, r6).
         let c = \<lparr>IssuedAt = get_u64_le (take 8 head), ExpiresAt = get_u64_le (drop 8 head),
                  TicketID = ticket_id, CatalogName = catalog_name, DataVersionSpec = data_version,
                  ImplementationVersion = implementation, OptionsIPC = opts\<rparr> in
         if r6 \<noteq> [] then Inl (ticketInvalid ''attach ticket payload has trailing bytes'')
         else if \<not> attachTicketIDPattern (TicketID c)
           then Inl (ticketInvalid ''attach ticket id is not 32 lowercase hex'')
         else if CatalogName c = [] then Inl (ticketInvalid ''attach ticket names no catalog'')
         else if ExpiresAt c \<noteq> 0 \<and> ExpiresAt c \<le>s IssuedAt c
           then Inl (ticketInvalid ''attach ticket lifetime is empty'')
         else Inr c)))))))"

section \<open>Minting and opening\<close>

definition decodeTicketBase64URL :: "string \<Rightarrow> ticket_err + bytes" where
  "decodeTicketBase64URL text =
     (if \<not> attachTicketB64URL text \<or> length text mod 4 = 1
      then Inl (ticketInvalid ''attach ticket is not unpadded base64url'')
      else case b64_decode text of
        None \<Rightarrow> Inl (ticketInvalid ''attach ticket is not canonical base64url'')
      | Some raw \<Rightarrow>
          if b64_encode raw \<noteq> text
          then Inl (ticketInvalid ''attach ticket is not canonical base64url'') else Inr raw)"

text \<open>\<open>idRnd\<close> is the random source of ticket ids.\<close>

definition mintAttachTicketWithNonce ::
  "aead \<Rightarrow> bytes option \<Rightarrow> bytes \<Rightarrow> string \<Rightarrow> claims \<Rightarrow> bytes \<Rightarrow> mint_err + (string \<times> claims)" where
  "mintAttachTicketWithNonce A idRnd signingKey caller c nonce =
     (if caller = [] then Inl NeedsPrincipal
      else rbind
        (if TicketID c = [] then
           (case idRnd of None \<Rightarrow> Inl IdUnavailable | Some i \<Rightarrow> Inr (c\<lparr>TicketID := hex_encode i\<rparr>))
         else Inr c) (\<lambda>c.
        if CatalogName c = [] then Inl NeedsCatalog
        else if \<not> attachTicketIDPattern (TicketID c) then Inl BadTicketId
        else if ExpiresAt c \<noteq> 0 \<and> ExpiresAt c \<le>s IssuedAt c then Inl BadExpiry
        else rbind (encodeTicketPayload c) (\<lambda>payload.
          rbind (rmap_err SealError (sealBytesWithNonce A payload signingKey (attachTicketAAD caller)
                   attachTicketEnvelopeVersion nonce)) (\<lambda>envelope.
            let token = AttachTicketPrefix @ b64_encode envelope in
            if length token > attachTicketMaxChars then Inl (TicketTooLong (length token))
            else Inr (token, c)))))"

definition MintAttachTicket ::
  "aead \<Rightarrow> bytes option \<Rightarrow> bytes option \<Rightarrow> bytes \<Rightarrow> string \<Rightarrow> claims \<Rightarrow> mint_err + (string \<times> claims)" where
  "MintAttachTicket A rnd idRnd signingKey caller c =
     (case rnd of
        None \<Rightarrow> Inl NonceUnavailable
      | Some nonce \<Rightarrow> mintAttachTicketWithNonce A idRnd signingKey caller c nonce)"

definition OpenAttachTicket ::
  "aead \<Rightarrow> bytes \<Rightarrow> string \<Rightarrow> string \<Rightarrow> int64 \<Rightarrow> ticket_err + claims" where
  "OpenAttachTicket A signingKey token caller now =
     (if \<not> prefix AttachTicketPrefix token then Inl (ticketInvalid ''not an attach ticket'')
      else if length token > attachTicketMaxChars then Inl (ticketInvalid ''attach ticket is too long'')
      else rbind (decodeTicketBase64URL (drop (length AttachTicketPrefix) token)) (\<lambda>envelope.
        if caller = [] then Inl (ticketInvalid ''an anonymous caller cannot redeem an attach ticket'')
        else case openBytes A envelope signingKey (attachTicketAAD caller) attachTicketEnvelopeVersion of
          Inl _ \<Rightarrow> Inl (ticketInvalid ''attach ticket failed verification'')
        | Inr payload \<Rightarrow>
            rbind (decodeTicketPayload payload) (\<lambda>c.
              if now + attachTicketClockSkew <s IssuedAt c
                then Inl (AttachTicketExpired ''attach ticket is not yet valid'')
              else if ExpiresAt c \<noteq> 0 \<and> ExpiresAt c + attachTicketClockSkew \<le>s now
                then Inl (AttachTicketExpired ''attach ticket has expired'')
              else Inr c)))"

section \<open>Redemption\<close>

definition callerPrincipal :: "auth_context option \<Rightarrow> string" where
  "callerPrincipal auth =
     (case auth of None \<Rightarrow> [] | Some a \<Rightarrow> if \<not> Authenticated a then [] else Principal a)"

text \<open>
  What the Arrow IPC reader makes of a byte string: it may fail to open, hold no batch (with or without a
  read error), or yield a first batch, of which the code looks at the row count, the column names and
  the first row.
\<close>

datatype cell = NullCell | StringCell string | OtherCell

record option_batch =
  NumRows :: nat
  Columns :: "(string \<times> cell) list"

datatype ipc_outcome =
    IpcOpenFailed
  | IpcNoBatch bool
  | IpcBatch option_batch

definition DeserializeRecordBatch :: "(bytes \<Rightarrow> ipc_outcome) \<Rightarrow> bytes \<Rightarrow> option_batch option" where
  "DeserializeRecordBatch R data =
     (case R data of IpcOpenFailed \<Rightarrow> None | IpcNoBatch _ \<Rightarrow> None | IpcBatch b \<Rightarrow> Some b)"

definition attachOptionsRow ::
  "(bytes \<Rightarrow> ipc_outcome) \<Rightarrow> bytes \<Rightarrow> ticket_err + (string list \<times> option_batch) option" where
  "attachOptionsRow R optionsIPC =
     (if length optionsIPC = 0 then Inr None
      else case R optionsIPC of
        IpcOpenFailed \<Rightarrow> Inl ReadingOptions
      | IpcNoBatch failed \<Rightarrow> if failed then Inl ReadingOptions else Inr None
      | IpcBatch b \<Rightarrow> if NumRows b = 0 then Inr None else Inr (Some (map fst (Columns b), b)))"

definition stringOption :: "option_batch \<Rightarrow> nat \<Rightarrow> string option" where
  "stringOption b i = (case snd (Columns b ! i) of StringCell s \<Rightarrow> Some s | _ \<Rightarrow> None)"

record attach_request =
  Name :: string
  Options :: "bytes option"
  ReqDataVersionSpec :: "string option"
  ReqImplementationVersion :: "string option"
  ClientCapabilities :: "bytes option"

fun findTicketCol :: "unicode \<Rightarrow> nat \<Rightarrow> string list \<Rightarrow> nat option" where
  "findTicketCol U i [] = None"
| "findTicketCol U i (name # names) =
     (if EqualFold U name AttachTicketOption then Some i else findTicketCol U (Suc i) names)"

definition besideTicket :: "nat \<Rightarrow> string list \<Rightarrow> (string \<times> description) list" where
  "besideTicket ticketCol names =
     map (\<lambda>(i, name). (''options.'' @ name, Text (''not allowed alongside '' @ AttachTicketOption)))
       (filter (\<lambda>(i, name). i \<noteq> ticketCol) (zip [0..<length names] names))"

definition restoredRequest :: "attach_request \<Rightarrow> claims \<Rightarrow> attach_request" where
  "restoredRequest req c =
     \<lparr>Name = CatalogName c,
      Options = (if length (OptionsIPC c) > 0 then Some (OptionsIPC c) else None),
      ReqDataVersionSpec = (if DataVersionSpec c \<noteq> [] then Some (DataVersionSpec c) else None),
      ReqImplementationVersion = (if ImplementationVersion c \<noteq> [] then Some (ImplementationVersion c) else None),
      ClientCapabilities = ClientCapabilities req\<rparr>"

definition redeemAttachTicket ::
  "aead \<Rightarrow> (bytes \<Rightarrow> ipc_outcome) \<Rightarrow> unicode \<Rightarrow> attach_request \<Rightarrow> bytes \<Rightarrow> auth_context option \<Rightarrow> int64
    \<Rightarrow> ticket_err + attach_request option" where
  "redeemAttachTicket A R U req signingKey auth now =
     (case Options req of
        None \<Rightarrow> Inr None
      | Some opts \<Rightarrow>
          rbind (attachOptionsRow R opts) (\<lambda>row. case row of
            None \<Rightarrow> Inr None
          | Some (names, batch) \<Rightarrow>
              (case findTicketCol U 0 names of
                 None \<Rightarrow> Inr None
               | Some ticketCol \<Rightarrow>
                   let violations = besideTicket ticketCol names in
                   if length violations > 0
                   then Inl (ticketInvalidRequest (AttachTicketOption @ '' must be the only attach option'') violations)
                   else case stringOption batch ticketCol of
                     None \<Rightarrow> Inl (ticketInvalid (AttachTicketOption @ '' must be a string''))
                   | Some token \<Rightarrow>
                       if length signingKey = 0
                       then Inl (ticketInvalid ''this worker does not redeem attach tickets'')
                       else rbind (OpenAttachTicket A signingKey token (callerPrincipal auth) now) (\<lambda>c.
                         if length (OptionsIPC c) > 0 \<and> DeserializeRecordBatch R (OptionsIPC c) = None
                         then Inl (ticketInvalid ''attach ticket options are not an Arrow IPC record'')
                         else Inr (Some (restoredRequest req c))))))"

record ticket_worker = worker +
  signingKeyConfigured :: bool

text \<open>\<open>ticketSigningKey\<close> returns nil as the empty key; both callers test for emptiness.\<close>

definition ticketSigningKey :: "'w ticket_worker_scheme \<Rightarrow> bytes" where
  "ticketSigningKey w =
     (if \<not> signingKeyConfigured w \<or> length (httpSigningKey w) = 0 then [] else httpSigningKey w)"

definition redeemAttachTicketInPlace ::
  "aead \<Rightarrow> (bytes \<Rightarrow> ipc_outcome) \<Rightarrow> unicode \<Rightarrow> 'w ticket_worker_scheme \<Rightarrow> attach_request
    \<Rightarrow> call_context option \<Rightarrow> int64 \<Rightarrow> ticket_err + attach_request" where
  "redeemAttachTicketInPlace A R U w req cc now =
     rbind (redeemAttachTicket A R U req (ticketSigningKey w) (callAuth cc) now) (\<lambda>restored.
       case restored of None \<Rightarrow> Inr req | Some r \<Rightarrow> Inr r)"

section \<open>Declared options\<close>

record attach_option_spec =
  SpecName :: string
  Required :: bool

text \<open>
  A worker as the ticket code sees it: its catalog name and options, the serialized options of its
  overriding catalog info and of its aliases, and its routes, a sub-catalog (a worker of its own) or
  another backend. \<open>None\<close> is a nil \<open>AttachOptionSpecs\<close>; the override's name may be empty.
\<close>

datatype catalog_node =
  CatalogNode
    (nodeName: string)
    (nodeOptions: "attach_option_spec list")
    (nodeOverride: "(string \<times> bytes list option) option")
    (nodeAliases: "(string \<times> bytes list option) list")
    (nodeCatalogOptions: "(string \<times> attach_option_spec list) list")
    (nodeRoutes: "(string \<times> catalog_node option) list")

definition reservedName :: "unicode \<Rightarrow> attach_option_spec \<Rightarrow> bool" where
  "reservedName U spec = EqualFold U (SpecName spec) AttachTicketOption"

text \<open>\<open>True\<close> when some catalog declares the reserved name, the error of the source.\<close>

fun checkReservedAttachOptions :: "unicode \<Rightarrow> catalog_node \<Rightarrow> bool" where
  "checkReservedAttachOptions U (CatalogNode name opts ov al co routes) =
     (list_ex (reservedName U) opts \<or>
      list_ex (\<lambda>(n, specs). list_ex (reservedName U) specs) co \<or>
      list_ex (\<lambda>(n, b). case b of None \<Rightarrow> False | Some child \<Rightarrow> checkReservedAttachOptions U child) routes)"

fun fromSerialized ::
  "(bytes \<Rightarrow> attach_option_spec option) \<Rightarrow> bytes list \<Rightarrow> ticket_err + attach_option_spec list" where
  "fromSerialized P [] = Inr []"
| "fromSerialized P (b # bs) =
     (case P b of
        None \<Rightarrow> Inl SpecUnreadable
      | Some spec \<Rightarrow> rbind (fromSerialized P bs) (\<lambda>specs. Inr (spec # specs)))"

definition primaryName :: "string \<Rightarrow> (string \<times> bytes list option) option \<Rightarrow> string" where
  "primaryName name ov = (case ov of Some (n, _) \<Rightarrow> if n \<noteq> [] then n else name | None \<Rightarrow> name)"

text \<open>\<open>None\<close> as a result: the worker lists no such catalog.\<close>

function declaredAttachOptions ::
  "(bytes \<Rightarrow> attach_option_spec option) \<Rightarrow> catalog_node \<Rightarrow> string
    \<Rightarrow> ticket_err + attach_option_spec list option" where
  "declaredAttachOptions P (CatalogNode name opts ov al co routes) catalogName =
     (if catalogName = primaryName name ov then
        (case ov of
           Some (_, Some raw) \<Rightarrow> rbind (fromSerialized P raw) (\<lambda>specs. Inr (Some specs))
         | _ \<Rightarrow> Inr (Some opts))
      else case map_of al catalogName of
        Some (Some raw) \<Rightarrow> rbind (fromSerialized P raw) (\<lambda>specs. Inr (Some specs))
      | Some None \<Rightarrow> Inr (Some (case map_of co catalogName of None \<Rightarrow> [] | Some specs \<Rightarrow> specs))
      | None \<Rightarrow>
          (case map_of routes catalogName of
             None \<Rightarrow> Inr None
           | Some None \<Rightarrow> Inr (Some [])
           | Some (Some child) \<Rightarrow> declaredAttachOptions P child catalogName))"
  by pat_completeness auto
termination
proof (relation "measure (\<lambda>(P, w, n). size w)", goal_cases)
  case (2 P name opts ov al co routes catalogName x2 child)
  then have "(catalogName, Some child) \<in> set routes" by (auto dest: map_of_SomeD)
  then have "size child < size_list (size_prod (\<lambda>x. 0) (size_option size)) routes"
    by (induction routes) auto
  then show ?case by simp
qed simp

section \<open>Issuing\<close>

record seal_request =
  SealCatalogName :: string
  SealOptions :: "bytes option"
  SealDataVersionSpec :: string
  SealImplementationVersion :: string
  TTLSeconds :: int64

text \<open>\<open>strconv.ParseInt\<close> of the trimmed environment value; \<open>None\<close> for grant keys means there are none.\<close>

definition resolveTicketMaxTTL :: "unicode \<Rightarrow> int64 option \<Rightarrow> string \<Rightarrow> unit + int64" where
  "resolveTicketMaxTTL U grantKeys env =
     (case grantKeys of
        Some maxTTL \<Rightarrow> Inr maxTTL
      | None \<Rightarrow>
          let raw = TrimSpace U env in
          if raw = [] then Inr 0
          else case ParseInt raw of
            None \<Rightarrow> Inl ()
          | Some v \<Rightarrow> if v \<le> 0 then Inl () else Inr (word_of_int v))"

text \<open>
  \<open>hostAttachTickets\<close> decides whether the protocol is served and with which ceiling: \<open>Inr None\<close> is
  absent. \<open>identity\<close> is the worker's own identity configuration: its grant keys and whether it has a
  \<open>MintGrant\<close>. \<open>added\<close> is whether the server accepts the protocol.
\<close>

definition hostAttachTickets ::
  "unicode \<Rightarrow> 'w ticket_worker_scheme \<Rightarrow> (int64 option \<times> bool) option \<Rightarrow> int64 option \<Rightarrow> string \<Rightarrow> bool
    \<Rightarrow> unit + int64 option" where
  "hostAttachTickets U w ident grantKeys env added =
     (if \<not> signingKeyConfigured w \<or> length (httpSigningKey w) = 0 then Inr None
      else
        let keys = (case ident of Some (Some k, _) \<Rightarrow> Some k | _ \<Rightarrow> grantKeys);
            canGrant = (keys \<noteq> None \<or> (case ident of Some (_, mint) \<Rightarrow> mint | None \<Rightarrow> False))
        in if \<not> canGrant then Inr None
           else rbind (resolveTicketMaxTTL U keys env) (\<lambda>maxTTL.
             if added then Inr (Some maxTTL) else Inl ()))"

text \<open>The options record of a request: its violations, the bytes to seal and the option names.\<close>

definition sealOptionsOf ::
  "(bytes \<Rightarrow> ipc_outcome) \<Rightarrow> bytes option \<Rightarrow> (string \<times> description) list \<times> bytes \<times> string list" where
  "sealOptionsOf R opts =
     (case opts of
        None \<Rightarrow> ([], [], [])
      | Some raw \<Rightarrow>
          if length raw > 0 then
            (case DeserializeRecordBatch R raw of
               None \<Rightarrow> ([(''options'', Text ''not an Arrow IPC record'')], [], [])
             | Some b \<Rightarrow>
                 if NumRows b > 1 then ([(''options'', Text ''must be a one-row record'')], [], [])
                 else if NumRows b = 1 then
                   (let names = map fst (Columns b) in ([], if length names > 0 then raw else [], names))
                 else ([], [], []))
          else ([], [], []))"

definition optionViolations ::
  "unicode \<Rightarrow> attach_option_spec list \<Rightarrow> string list \<Rightarrow> (string \<times> description) list" where
  "optionViolations U specs names =
     (let declared = map (\<lambda>s. ToLower U (SpecName s)) specs;
          supplied = map (ToLower U) names
      in concat (map (\<lambda>name.
           if ToLower U name = AttachTicketOption
             then [(''options.'' @ name, Text ''a ticket cannot seal another ticket'')]
           else if ToLower U name \<notin> set declared
             then [(''options.'' @ name, Text ''not an attach option this catalog declares'')]
           else []) names)
         @ concat (map (\<lambda>spec.
             if Required spec \<and> ToLower U (SpecName spec) \<notin> set supplied
             then [(''options.'' @ SpecName spec, Text ''required'')] else []) specs))"

definition ticketLifetime :: "int64 \<Rightarrow> int64 \<Rightarrow> int64" where
  "ticketLifetime maxTTL ttl =
     (if 0 <s ttl \<and> (maxTTL = 0 \<or> ttl <s maxTTL) then ttl else maxTTL)"

definition sealAttachTicket ::
  "aead \<Rightarrow> (bytes \<Rightarrow> ipc_outcome) \<Rightarrow> unicode \<Rightarrow> (bytes \<Rightarrow> attach_option_spec option) \<Rightarrow> bytes option \<Rightarrow> bytes option
    \<Rightarrow> 'w ticket_worker_scheme \<Rightarrow> catalog_node \<Rightarrow> int64 \<Rightarrow> int64 \<Rightarrow> call_context option \<Rightarrow> seal_request
    \<Rightarrow> ticket_err + (string \<times> int64 option)" where
  "sealAttachTicket A R U P rnd idRnd w node maxTTL now cc req =
     (let caller = callerPrincipal (callAuth cc); key = ticketSigningKey w in
      if caller = [] then Inl (ticketActionDenied ''an anonymous caller cannot seal an attach ticket'')
      else if key = [] then Inl (ticketActionDenied ''this worker does not seal attach tickets'')
      else
        let ttlViolations = (if TTLSeconds req <s 0
              then [(''ttl_seconds'', Text ''must be 0 (as long as allowed) or positive'')] else []);
            (optViolations, optionsIPC, names) = sealOptionsOf R (SealOptions req)
        in rbind (declaredAttachOptions P node (SealCatalogName req)) (\<lambda>specs.
          let nameViolations = (case specs of
                None \<Rightarrow> [(''catalog_name'', NoCatalogNamed (SealCatalogName req))]
              | Some specs \<Rightarrow> optionViolations U specs names);
              sizeViolations = (if length optionsIPC > attachTicketMaxOptionsBytes
                then [(''options'', OptionBytes (length optionsIPC))] else []);
              violations = ttlViolations @ optViolations @ nameViolations @ sizeViolations
          in if violations \<noteq> [] then Inl (ticketInvalidRequest ''seal_attach request is invalid'' violations)
             else
               let lifetime = ticketLifetime maxTTL (TTLSeconds req);
                   expiresAt = (if 0 <s lifetime then now + lifetime else 0)
               in case MintAttachTicket A rnd idRnd key caller
                     \<lparr>IssuedAt = now, ExpiresAt = expiresAt, TicketID = [], CatalogName = SealCatalogName req,
                      DataVersionSpec = SealDataVersionSpec req,
                      ImplementationVersion = SealImplementationVersion req, OptionsIPC = optionsIPC\<rparr> of
                    Inl e \<Rightarrow> Inl (ticketInvalidRequest ''seal_attach request is invalid'' [(''request'', MintFailed e)])
                  | Inr (token, _) \<Rightarrow> Inr (token, if expiresAt \<noteq> 0 then Some expiresAt else None)))"

text \<open>The claims a ticket may carry, and when a ticket is within its lifetime.\<close>

definition wf_claims :: "claims \<Rightarrow> bool" where
  "wf_claims c \<longleftrightarrow>
     attachTicketIDPattern (TicketID c) \<and> CatalogName c \<noteq> [] \<and>
     (ExpiresAt c = 0 \<or> IssuedAt c <s ExpiresAt c)"

definition utf8_claims :: "claims \<Rightarrow> bool" where
  "utf8_claims c \<longleftrightarrow>
     list_all (\<lambda>s. utf8_valid (str s)) [TicketID c, CatalogName c, DataVersionSpec c, ImplementationVersion c]"

definition live :: "claims \<Rightarrow> int64 \<Rightarrow> bool" where
  "live c now \<longleftrightarrow>
     IssuedAt c \<le>s now + attachTicketClockSkew \<and>
     (ExpiresAt c = 0 \<or> now <s ExpiresAt c + attachTicketClockSkew)"

section \<open>Facts about the payload\<close>

lemma takeBytes_append [simp]: "length xs = n \<Longrightarrow> takeBytes n (xs @ rest) = Inr (xs, rest)"
  by (simp add: takeBytes_def)

lemma takeBytes_exact [simp]: "takeBytes (length xs) xs = Inr (xs, [])"
  by (simp add: takeBytes_def)

lemma takeBytes_Inr_iff:
  "takeBytes n bs = Inr (xs, rest) \<longleftrightarrow> bs = xs @ rest \<and> length xs = n"
  by (auto simp: takeBytes_def)

lemma le_nat_le_bytes_small:
  "n \<le> 0xFFFF \<Longrightarrow> le_nat (le_bytes 2 n) = n" "n < 2 ^ 32 \<Longrightarrow> le_nat (le_bytes 4 n) = n"
  by simp_all

lemma le_bytes_le_nat_length: "length raw = n \<Longrightarrow> le_bytes n (le_nat raw) = raw"
  using le_bytes_le_nat by blast

lemma takeText_Inr_iff:
  "takeText bs = Inr (s, rest) \<longleftrightarrow>
     bs = le_bytes 2 (length s) @ str s @ rest \<and> length s \<le> 0xFFFF \<and> utf8_valid (str s)"
proof
  assume "takeText bs = Inr (s, rest)"
  then obtain raw body where raw: "bs = raw @ body @ rest" "length raw = 2" "length body = le_nat raw"
    "utf8_valid body" "s = unstr body"
    by (auto simp: takeText_def rbind_Inr_iff takeBytes_Inr_iff split: if_splits)
  moreover have "le_nat raw < 256 ^ 2" using le_nat_less [of raw] raw(2) by simp
  ultimately show "bs = le_bytes 2 (length s) @ str s @ rest \<and> length s \<le> 0xFFFF \<and> utf8_valid (str s)"
    by (simp add: le_bytes_le_nat_length)
next
  assume "bs = le_bytes 2 (length s) @ str s @ rest \<and> length s \<le> 0xFFFF \<and> utf8_valid (str s)"
  then show "takeText bs = Inr (s, rest)"
    by (simp add: takeText_def)
qed

lemma encodeTexts_Inr:
  "encodeTexts fs = Inr bs \<longleftrightarrow>
     list_all (\<lambda>(n, v). length v \<le> 0xFFFF) fs \<and>
     bs = concat (map (\<lambda>(n, v). le_bytes 2 (length v) @ str v) fs)"
  by (induction fs arbitrary: bs rule: encodeTexts.induct)
    (auto simp: rbind_Inr_iff ticket_consts)

lemma encodeTicketPayload_Inr_iff:
  "encodeTicketPayload c = Inr p \<longleftrightarrow>
     length (OptionsIPC c) \<le> 16384 \<and>
     list_all (\<lambda>v. length v \<le> 0xFFFF) [TicketID c, CatalogName c, DataVersionSpec c, ImplementationVersion c] \<and>
     p = put_u64_le (IssuedAt c) @ put_u64_le (ExpiresAt c)
       @ le_bytes 2 (length (TicketID c)) @ str (TicketID c)
       @ le_bytes 2 (length (CatalogName c)) @ str (CatalogName c)
       @ le_bytes 2 (length (DataVersionSpec c)) @ str (DataVersionSpec c)
       @ le_bytes 2 (length (ImplementationVersion c)) @ str (ImplementationVersion c)
       @ le_bytes 4 (length (OptionsIPC c)) @ OptionsIPC c"
  by (auto simp: encodeTicketPayload_def rbind_Inr_iff encodeTexts_Inr ticket_consts)

lemma not_sle_iff: "\<not> (a \<le>s b) \<longleftrightarrow> b <s (a :: 'a :: len word)"
  by (simp add: word_sle_eq word_sless_alt not_le)

lemma decode_encode:
  assumes "encodeTicketPayload c = Inr p" "wf_claims c" "utf8_claims c"
  shows "decodeTicketPayload p = Inr c"
proof -
  note p = assms(1) [unfolded encodeTicketPayload_Inr_iff]
  let ?rest = "le_bytes 2 (length (TicketID c)) @ str (TicketID c)
       @ le_bytes 2 (length (CatalogName c)) @ str (CatalogName c)
       @ le_bytes 2 (length (DataVersionSpec c)) @ str (DataVersionSpec c)
       @ le_bytes 2 (length (ImplementationVersion c)) @ str (ImplementationVersion c)
       @ le_bytes 4 (length (OptionsIPC c)) @ OptionsIPC c"
  have field: "takeText (le_bytes 2 (length s) @ str s @ r) = Inr (s, r)"
    if "length s \<le> 0xFFFF" "utf8_valid (str s)" for s r
    using that by (simp add: takeText_Inr_iff)
  have head: "takeBytes 16 p = Inr (put_u64_le (IssuedAt c) @ put_u64_le (ExpiresAt c), ?rest)"
    using p by (simp add: takeBytes_Inr_iff)
  have n: "le_nat (le_bytes 4 (length (OptionsIPC c))) = length (OptionsIPC c)"
    using p by simp
  have ex: "\<not> (ExpiresAt c \<noteq> 0 \<and> ExpiresAt c \<le>s IssuedAt c)"
    using assms(2) by (auto simp: wf_claims_def not_sle_iff)
  show ?thesis
    unfolding decodeTicketPayload_def head
    using p assms(2,3) n ex
    by (simp add: field utf8_claims_def wf_claims_def ticket_consts Let_def)
qed

lemma encode_decode:
  assumes "decodeTicketPayload p = Inr c"
  shows "encodeTicketPayload c = Inr p \<and> wf_claims c \<and> utf8_claims c"
proof -
  obtain head r0 raw opts where
    parts: "p = head @ r0" "length head = 16"
      "r0 = le_bytes 2 (length (TicketID c)) @ str (TicketID c)
       @ le_bytes 2 (length (CatalogName c)) @ str (CatalogName c)
       @ le_bytes 2 (length (DataVersionSpec c)) @ str (DataVersionSpec c)
       @ le_bytes 2 (length (ImplementationVersion c)) @ str (ImplementationVersion c)
       @ raw @ opts" "length raw = 4" "length opts = le_nat raw" "opts = OptionsIPC c" "le_nat raw \<le> 16384"
      "list_all (\<lambda>v. length v \<le> 0xFFFF) [TicketID c, CatalogName c, DataVersionSpec c, ImplementationVersion c]"
      "utf8_claims c" "wf_claims c"
      "IssuedAt c = get_u64_le (take 8 head)" "ExpiresAt c = get_u64_le (drop 8 head)"
    using assms
    by (auto simp: decodeTicketPayload_def rbind_Inr_iff takeBytes_Inr_iff takeText_Inr_iff ticket_consts
        Let_def utf8_claims_def wf_claims_def not_sle_iff split: if_splits)
  have "head = put_u64_le (IssuedAt c) @ put_u64_le (ExpiresAt c)"
    using parts(2,11,12) by (simp add: put_get_u64_le)
  moreover have "raw = le_bytes 4 (length (OptionsIPC c))"
    using parts(4-6) le_bytes_le_nat_length [of raw 4] by simp
  ultimately show ?thesis
    using parts by (simp add: encodeTicketPayload_Inr_iff)
qed

section \<open>Facts about tickets\<close>

lemma mint_Inr_iff:
  assumes "TicketID c \<noteq> []"
  shows "mintAttachTicketWithNonce A idRnd key caller c nonce = Inr (tok, c') \<longleftrightarrow>
    c' = c \<and> caller \<noteq> [] \<and> wf_claims c \<and>
    (\<exists>payload env. encodeTicketPayload c = Inr payload \<and>
       sealBytes A (Some nonce) payload key (attachTicketAAD caller) 1 = Inr env \<and>
       tok = AttachTicketPrefix @ b64_encode env \<and> length tok \<le> 32768)"
  using assms
  by (simp add: mintAttachTicketWithNonce_def Let_def res_simps wf_claims_def
      not_sle_iff sealBytes_def ticket_consts not_less) auto

lemma mint_fresh_id:
  assumes "TicketID c = []" "i \<noteq> []"
  shows "mintAttachTicketWithNonce A (Some i) key caller c nonce =
    (if caller = [] then Inl NeedsPrincipal
     else mintAttachTicketWithNonce A (Some i) key caller (c\<lparr>TicketID := hex_encode i\<rparr>) nonce)"
  using assms by (simp add: mintAttachTicketWithNonce_def)

lemma decodeTicketBase64URL_Inr_iff:
  "decodeTicketBase64URL t = Inr raw \<longleftrightarrow> t = b64_encode raw \<and> raw \<noteq> []"
proof
  assume "decodeTicketBase64URL t = Inr raw"
  then show "t = b64_encode raw \<and> raw \<noteq> []"
    by (auto simp: decodeTicketBase64URL_def attachTicketB64URL_def split: if_splits option.splits)
next
  assume t: "t = b64_encode raw \<and> raw \<noteq> []"
  moreover have "list_all (\<lambda>c. c \<in> set b64_alphabet) (b64_encode raw)"
    using b64_encode_alphabet [of raw] by (auto simp: list_all_iff)
  ultimately show "decodeTicketBase64URL t = Inr raw"
    using b64_encode_mod4 [of raw] by (simp add: decodeTicketBase64URL_def attachTicketB64URL_def)
qed

lemma live_iff:
  "live c now \<longleftrightarrow> \<not> (now + 60 <s IssuedAt c) \<and> \<not> (ExpiresAt c \<noteq> 0 \<and> ExpiresAt c + 60 \<le>s now)"
  by (auto simp: live_def ticket_consts not_sle_iff word_sle_eq word_sless_alt)

lemma OpenAttachTicket_Inr_iff:
  "OpenAttachTicket A key tok caller now = Inr c \<longleftrightarrow>
    (\<exists>env payload. tok = AttachTicketPrefix @ b64_encode env \<and> env \<noteq> [] \<and> length tok \<le> 32768 \<and> caller \<noteq> [] \<and>
       openBytes A env key (attachTicketAAD caller) 1 = Inr payload \<and>
       decodeTicketPayload payload = Inr c \<and> live c now)"
proof -
  have "prefix AttachTicketPrefix tok \<and> drop (length AttachTicketPrefix) tok = b64_encode env \<longleftrightarrow>
      tok = AttachTicketPrefix @ b64_encode env" for env
    by (auto simp: prefix_def)
  then show ?thesis
    by (simp add: OpenAttachTicket_def res_simps decodeTicketBase64URL_Inr_iff ticket_consts live_iff not_less) blast
qed

lemma open_mint:
  assumes "aead_laws A" "TicketID c \<noteq> []" "utf8_claims c" "live c now"
    and "mintAttachTicketWithNonce A idRnd key caller c nonce = Inr (tok, c')"
  shows "OpenAttachTicket A key tok caller now = Inr c"
proof -
  obtain payload env where m: "caller \<noteq> []" "wf_claims c" "encodeTicketPayload c = Inr payload"
    "sealBytes A (Some nonce) payload key (attachTicketAAD caller) 1 = Inr env"
    "tok = AttachTicketPrefix @ b64_encode env" "length tok \<le> 32768"
    using assms(5) unfolding mint_Inr_iff [OF assms(2)] by blast
  have "env \<noteq> []" using m(4) by (auto simp: sealBytes_Inr_iff)
  then show ?thesis
    using m assms(3,4) openBytes_sealBytes [OF assms(1) m(4)] decode_encode [OF m(3,2) assms(3)]
    by (auto simp: OpenAttachTicket_Inr_iff)
qed

lemma wf_claims_id: "wf_claims c \<Longrightarrow> TicketID c \<noteq> []"
  by (auto simp: wf_claims_def attachTicketIDPattern_def)

lemma open_imp_mint:
  assumes "aead_laws A" "OpenAttachTicket A key tok caller now = Inr c"
  shows "utf8_claims c \<and> live c now \<and> wf_claims c \<and> (\<exists>nonce. mintAttachTicketWithNonce A None key caller c nonce = Inr (tok, c))"
proof -
  obtain env payload where t: "tok = AttachTicketPrefix @ b64_encode env" "length tok \<le> 32768" "caller \<noteq> []"
    "openBytes A env key (attachTicketAAD caller) 1 = Inr payload" "decodeTicketPayload payload = Inr c" "live c now"
    using assms(2) unfolding OpenAttachTicket_Inr_iff by blast
  note enc = encode_decode [OF t(5)]
  show ?thesis
    using enc t openBytes_sound [OF assms(1) t(4)] mint_Inr_iff [OF wf_claims_id, of c A None key caller] by blast
qed

interpretation ticket_env: sealed_channel
  "\<lambda>(A, key, caller, now). aead_laws A"
  "\<lambda>(A, key, caller, now) nonce c.
     if TicketID c \<noteq> [] \<and> utf8_claims c \<and> live c now
     then map_sum id fst (mintAttachTicketWithNonce A None key caller c nonce) else Inl NeedsPrincipal"
  "\<lambda>(A, key, caller, now) tok. OpenAttachTicket A key tok caller now"
proof (unfold_locales, clarsimp split: if_splits prod.splits)
  fix A key caller now nonce c tok
  assume "aead_laws A" "TicketID c \<noteq> []" "utf8_claims c" "live c now"
    "map_sum id fst (mintAttachTicketWithNonce A None key caller c nonce) = Inr tok"
  then show "OpenAttachTicket A key tok caller now = Inr c"
    by (cases "mintAttachTicketWithNonce A None key caller c nonce") (auto intro: open_mint)
qed

text \<open>An envelope of another protocol never opens as a ticket: its version byte differs.\<close>

lemma attach_envelope_not_ticket:
  "sealBytes A rnd p key aad attachEnvelopeVersion = Inr env \<Longrightarrow>
   openBytes A env key aad' attachTicketEnvelopeVersion = Inl OpaqueDataRejected"
  by (auto simp: sealBytes_Inr_iff openBytes_def crypto_consts ticket_consts)

lemma takeBytes_errs: "errs_in (\<lambda>e. \<exists>d. e = AttachTicketInvalid d) (takeBytes n bs)"
  by (simp add: takeBytes_def ticketInvalid_def)

lemma takeText_errs: "errs_in (\<lambda>e. \<exists>d. e = AttachTicketInvalid d) (takeText bs)"
  unfolding takeText_def by (intro errs_in_intros takeBytes_errs) (simp_all add: ticketInvalid_def)

lemma decodeTicketPayload_errs: "errs_in (\<lambda>e. \<exists>d. e = AttachTicketInvalid d) (decodeTicketPayload p)"
  unfolding decodeTicketPayload_def Let_def
  by (intro errs_in_intros takeBytes_errs takeText_errs) (simp_all add: ticketInvalid_def)

section \<open>Facts about redemption\<close>

lemma attachTicketIDPattern_hex: "length i = 16 \<Longrightarrow> attachTicketIDPattern (hex_encode i)"
proof -
  have digits: "hex_digit n \<in> set ''0123456789abcdef''" if "n < 16" for n
    using nth_mem [of n "''0123456789abcdef''"] that by (simp add: hex_digit_def)
  have "list_all (\<lambda>c. c \<in> set ''0123456789abcdef'') (hex_encode i)"
  proof (induction i)
    case (Cons b i)
    have "unat b div 16 < 16" by (rule div_byte_less)
    then show ?case using Cons digits by simp
  qed simp
  then show "length i = 16 \<Longrightarrow> attachTicketIDPattern (hex_encode i)"
    by (simp add: attachTicketIDPattern_def)
qed

lemma utf8_valid_ascii: "list_all (\<lambda>b. b < 0x80) bs \<Longrightarrow> utf8_valid bs"
  by (induction bs) simp_all

lemma utf8_valid_ticket_id:
  assumes "attachTicketIDPattern s"
  shows "utf8_valid (str s)"
proof (rule utf8_valid_ascii)
  have "byte_of_char c < 0x80" if "c \<in> set ''0123456789abcdef''" for c
    using that by (auto simp: byte_of_char_def)
  then show "list_all (\<lambda>b. b < 0x80) (str s)"
    using assms by (simp add: attachTicketIDPattern_def str_def list_all_iff)
qed

lemma sealAttachTicket_Inr:
  assumes "sealAttachTicket A R U P rnd idRnd w node maxTTL now cc req = Inr (tok, expiry)"
  obtains optionsIPC names nonce c' expiresAt where
    "sealOptionsOf R (SealOptions req) = ([], optionsIPC, names)"
    "rnd = Some nonce" "callerPrincipal (callAuth cc) \<noteq> []" "ticketSigningKey w \<noteq> []"
    "expiresAt = (if 0 <s ticketLifetime maxTTL (TTLSeconds req) then now + ticketLifetime maxTTL (TTLSeconds req) else 0)"
    "mintAttachTicketWithNonce A idRnd (ticketSigningKey w) (callerPrincipal (callAuth cc))
       \<lparr>IssuedAt = now, ExpiresAt = expiresAt, TicketID = [], CatalogName = SealCatalogName req,
        DataVersionSpec = SealDataVersionSpec req, ImplementationVersion = SealImplementationVersion req,
        OptionsIPC = optionsIPC\<rparr> nonce = Inr (tok, c')"
    "expiry = (if expiresAt \<noteq> 0 then Some expiresAt else None)" "\<not> TTLSeconds req <s 0"
proof -
  obtain v optionsIPC names where opts: "sealOptionsOf R (SealOptions req) = (v, optionsIPC, names)"
    by (metis prod_cases3)
  show ?thesis
    using assms opts
    by (auto simp: sealAttachTicket_def Let_def rbind_Inr_iff MintAttachTicket_def
        split: if_splits sum.splits option.splits intro!: that)
qed

lemma sealOptionsOf_readable:
  "sealOptionsOf R opts = (v, o', names) \<Longrightarrow> o' \<noteq> [] \<Longrightarrow> DeserializeRecordBatch R o' \<noteq> None"
  by (auto simp: sealOptionsOf_def Let_def split: option.splits if_splits)

text \<open>A minted ticket carries a hexadecimal id and otherwise the claims it was asked for.\<close>

lemma mint_fresh_Inr:
  assumes "mintAttachTicketWithNonce A (Some i) key caller c nonce = Inr (tok, c')" "TicketID c = []" "i \<noteq> []"
  shows "c' = c\<lparr>TicketID := hex_encode i\<rparr> \<and> wf_claims c' \<and>
    mintAttachTicketWithNonce A (Some i) key caller c' nonce = Inr (tok, c')"
proof -
  let ?c = "c\<lparr>TicketID := hex_encode i\<rparr>"
  have "caller \<noteq> []" and m: "mintAttachTicketWithNonce A (Some i) key caller ?c nonce = Inr (tok, c')"
    using assms(1) unfolding mint_fresh_id [OF assms(2,3)] by (auto split: if_splits)
  moreover have "TicketID ?c \<noteq> []" using assms(3) by simp
  ultimately show ?thesis using mint_Inr_iff by metis
qed

lemma redeem_single_ticket:
  assumes "Options req = Some opts" "opts \<noteq> []"
    and "R opts = IpcBatch \<lparr>NumRows = 1, Columns = [(col, StringCell tok)]\<rparr>"
    and "EqualFold U col AttachTicketOption" "key \<noteq> []"
  shows "redeemAttachTicket A R U req key auth now =
    rbind (OpenAttachTicket A key tok (callerPrincipal auth) now) (\<lambda>c.
      if length (OptionsIPC c) > 0 \<and> DeserializeRecordBatch R (OptionsIPC c) = None
      then Inl (ticketInvalid ''attach ticket options are not an Arrow IPC record'')
      else Inr (Some (restoredRequest req c)))"
  using assms
  by (simp add: redeemAttachTicket_def attachOptionsRow_def besideTicket_def stringOption_def Let_def)

section \<open>A worked ticket\<close>

definition sample_claims :: claims where
  "sample_claims = \<lparr>IssuedAt = 1000, ExpiresAt = 1100, TicketID = hex_encode (replicate 16 1), CatalogName = ''sales'',
     DataVersionSpec = [], ImplementationVersion = [], OptionsIPC = []\<rparr>"

definition sample_payload :: bytes where
  "sample_payload = put_u64_le 1000 @ put_u64_le 1100 @ le_bytes 2 32 @ str (hex_encode (replicate 16 1))
     @ le_bytes 2 (length ''sales'') @ str ''sales'' @ le_bytes 2 0 @ le_bytes 2 0 @ le_bytes 4 0"

definition sample_token :: "string \<Rightarrow> string" where
  "sample_token caller = AttachTicketPrefix
     @ b64_encode (1 # replicate 24 9 @ sample_payload @ plain_tag (attachTicketAAD caller))"

lemma sample_claims_ok:
  "wf_claims sample_claims" "utf8_claims sample_claims" "live sample_claims 1150"
proof -
  show "wf_claims sample_claims"
    by (simp add: wf_claims_def sample_claims_def attachTicketIDPattern_hex word_sless_alt)
  have "utf8_valid (str (hex_encode (replicate 16 1)))"
    by (intro utf8_valid_ticket_id attachTicketIDPattern_hex) simp
  moreover have "utf8_valid (str ''sales'')"
    by (simp add: str_def byte_of_char_def)
  ultimately show "utf8_claims sample_claims"
    by (simp add: utf8_claims_def sample_claims_def)
  show "live sample_claims 1150"
    by (simp add: live_def sample_claims_def ticket_consts word_sless_alt word_sle_eq)
qed

lemma sample_encode: "encodeTicketPayload sample_claims = Inr sample_payload"
  by (simp add: encodeTicketPayload_Inr_iff sample_claims_def sample_payload_def)

lemma length_sample_payload: "length sample_payload = 65"
  by (simp add: sample_payload_def)

lemma sample_mint:
  assumes "caller \<noteq> []"
  shows "mintAttachTicketWithNonce plain_aead idRnd (replicate 32 7) caller sample_claims (replicate 24 9) =
    Inr (sample_token caller, sample_claims)"
proof -
  let ?env = "1 # replicate 24 9 @ sample_payload @ plain_tag (attachTicketAAD caller)"
  have "sealBytes plain_aead (Some (replicate 24 9)) sample_payload (replicate 32 7) (attachTicketAAD caller) 1 = Inr ?env"
    by (simp add: sealBytes_Inr_iff plain_aead_def)
  moreover have "length (sample_token caller) \<le> 32768"
    by (simp add: sample_token_def AttachTicketPrefix_def length_b64_encode length_sample_payload)
  ultimately show ?thesis
    using mint_Inr_iff [OF wf_claims_id [OF sample_claims_ok(1)]] assms sample_claims_ok(1) sample_encode
    by (auto simp: sample_token_def)
qed

section \<open>Properties\<close>

text \<open>
  C19. The payload of a ticket has exactly one spelling: a byte string decodes to claims if and only
  if it is the encoding of those claims and they obey the field rules (a 32-digit lowercase hex id, a catalog name,
  a lifetime that is not empty, UTF-8 texts). Truncated, padded or otherwise altered payloads do not decode.
\<close>
theorem ticket_payload_exact:
  "decodeTicketPayload payload = Inr c \<longleftrightarrow>
   encodeTicketPayload c = Inr payload \<and> wf_claims c \<and> utf8_claims c"
  using decode_encode encode_decode by blast

text \<open>
  C4. A ticket opens exactly for what was minted: for a given key, principal and time, opening the text yields
  claims if and only if minting those claims for that principal under that key gives this very text, the
  claims are UTF-8, and the time is within their lifetime with sixty seconds of skew.
\<close>
theorem ticket_opens_iff_minted:
  assumes "aead_laws A"
  shows "OpenAttachTicket A key tok caller now = Inr c \<longleftrightarrow>
    utf8_claims c \<and> live c now \<and> wf_claims c \<and>
    (\<exists>nonce. mintAttachTicketWithNonce A None key caller c nonce = Inr (tok, c))"
  using open_imp_mint [OF assms] open_mint [OF assms wf_claims_id] by blast

theorem ticket_opens_iff_minted_witness:
  "OpenAttachTicket plain_aead (replicate 32 7) (sample_token ''alice'') ''alice'' 1150 = Inr sample_claims"
  using ticket_opens_iff_minted [of plain_aead "replicate 32 7" "sample_token ''alice''" "''alice''" 1150 sample_claims]
    sample_mint [of "''alice''" None] sample_claims_ok
  by auto

text \<open>
  A ticket is useless to anyone but the principal it names: presented by another caller it is
  refused with the same detail as a forgery, and an anonymous caller is refused before the envelope is opened.
\<close>
theorem ticket_bound_to_principal:
  assumes "aead_laws A" "mintAttachTicketWithNonce A None key caller c nonce = Inr (tok, c)" "TicketID c \<noteq> []"
    and "other \<noteq> caller" "aead_separates A (attachTicketAAD caller) (attachTicketAAD other)"
  shows "OpenAttachTicket A key tok other now =
    Inl (AttachTicketInvalid (if other = [] then ''an anonymous caller cannot redeem an attach ticket''
                              else ''attach ticket failed verification''))"
proof -
  obtain payload env where m: "sealBytes A (Some nonce) payload key (attachTicketAAD caller) 1 = Inr env"
    "tok = AttachTicketPrefix @ b64_encode env" "length tok \<le> 32768"
    using assms(2) unfolding mint_Inr_iff [OF assms(3)] by blast
  have "attachTicketAAD caller \<noteq> attachTicketAAD other"
    using assms(4) by (simp add: attachTicketAAD_def)
  note reject = openBytes_other_aad [OF assms(1,5) this m(1)]
  have "env \<noteq> []" using m(1) by (auto simp: sealBytes_Inr_iff)
  then have "decodeTicketBase64URL (b64_encode env) = Inr env"
    by (simp add: decodeTicketBase64URL_Inr_iff)
  then show ?thesis
    using m reject by (simp add: OpenAttachTicket_def ticket_consts ticketInvalid_def)
qed

lemma plain_tag_tickets: "plain_tag (attachTicketAAD ''alice'') \<noteq> plain_tag (attachTicketAAD ''bob'')"
  by (simp add: plain_tag_def attachTicketAAD_def str_def byte_of_char_def)

theorem ticket_bound_to_principal_witness:
  "OpenAttachTicket plain_aead (replicate 32 7) (sample_token ''alice'') ''bob'' 1150 =
    Inl (AttachTicketInvalid ''attach ticket failed verification'')"
  using ticket_bound_to_principal [of plain_aead "replicate 32 7" "''alice''" sample_claims "replicate 24 9"
      "sample_token ''alice''" "''bob''" 1150] sample_mint [of "''alice''" None] plain_tag_tickets
  by (simp add: plain_aead_separates sample_claims_def)

text \<open>
  Opening a ticket fails with one of two classes: \<open>AttachTicketInvalid\<close>, or \<open>AttachTicketExpired\<close>, and the
  latter only when the ticket verified under the caller's own principal and its claims are outside their lifetime.
\<close>
theorem ticket_error_classes:
  assumes "OpenAttachTicket A key tok caller now = Inl e"
  shows "(\<exists>d. e = AttachTicketInvalid d) \<or>
    (\<exists>d env payload c. e = AttachTicketExpired d \<and> tok = AttachTicketPrefix @ b64_encode env \<and>
       openBytes A env key (attachTicketAAD caller) attachTicketEnvelopeVersion = Inr payload \<and>
       decodeTicketPayload payload = Inr c \<and> \<not> live c now)"
proof -
  have decode: "\<exists>d. e = AttachTicketInvalid d" if "decodeTicketPayload p = Inl e" for p e
    using errs_inD [OF decodeTicketPayload_errs that] .
  have b64: "\<exists>d. e = AttachTicketInvalid d" if "decodeTicketBase64URL t = Inl e" for t e
    using that by (auto simp: decodeTicketBase64URL_def ticketInvalid_def split: if_splits option.splits)
  show ?thesis
  proof (cases "\<exists>d. e = AttachTicketInvalid d")
    case False
    have "prefix AttachTicketPrefix tok" and
      "\<exists>env payload c d. decodeTicketBase64URL (drop (length AttachTicketPrefix) tok) = Inr env \<and>
         openBytes A env key (attachTicketAAD caller) attachTicketEnvelopeVersion = Inr payload \<and>
         decodeTicketPayload payload = Inr c \<and> \<not> live c now \<and> e = AttachTicketExpired d"
      using assms False
      by (auto simp: OpenAttachTicket_def rbind_Inl_iff ticketInvalid_def live_iff ticket_consts
          split: if_splits sum.splits dest: decode b64)
    then show ?thesis
      by (auto simp: prefix_def decodeTicketBase64URL_Inr_iff)
  qed simp
qed

theorem ticket_error_classes_witness:
  "(\<exists>d. ticketInvalid ''not an attach ticket'' = AttachTicketInvalid d) \<or>
    (\<exists>d env payload c. ticketInvalid ''not an attach ticket'' = AttachTicketExpired d \<and> [] = AttachTicketPrefix @ b64_encode env \<and>
       openBytes plain_aead env [] (attachTicketAAD ''alice'') attachTicketEnvelopeVersion = Inr payload \<and>
       decodeTicketPayload payload = Inr c \<and> \<not> live c 0)"
  by (rule ticket_error_classes) (simp add: OpenAttachTicket_def AttachTicketPrefix_def)

text \<open>
  C21. Sealing and redeeming an attach compose: a ticket issued by \<open>seal_attach\<close>, presented as the only
  option of a later ATTACH by the same principal within the ticket's lifetime, turns that request into the
  one the user originally made: the sealed catalog, options and version specs, whatever catalog the request named,
  with the capabilities of the present client.
\<close>
theorem sealed_attach_redeems:
  assumes "aead_laws A" "length i = 16"
    and "sealAttachTicket A R U P rnd (Some i) w node maxTTL now cc req = Inr (tok, expiry)"
    and "sealOptionsOf R (SealOptions req) = (v, optionsIPC, names)"
    and "list_all (\<lambda>s. utf8_valid (str s)) [SealCatalogName req, SealDataVersionSpec req, SealImplementationVersion req]"
    and "Options areq = Some opts" "opts \<noteq> []"
    and "R opts = IpcBatch \<lparr>NumRows = 1, Columns = [(col, StringCell tok)]\<rparr>" "EqualFold U col AttachTicketOption"
    and "callerPrincipal (callAuth cc') = callerPrincipal (callAuth cc)"
    and "now \<le>s now' + 60" "case expiry of None \<Rightarrow> True | Some e \<Rightarrow> now' <s e + 60"
  shows "redeemAttachTicketInPlace A R U w areq cc' now' =
    Inr \<lparr>Name = SealCatalogName req,
         Options = (if optionsIPC \<noteq> [] then Some optionsIPC else None),
         ReqDataVersionSpec = (if SealDataVersionSpec req \<noteq> [] then Some (SealDataVersionSpec req) else None),
         ReqImplementationVersion =
           (if SealImplementationVersion req \<noteq> [] then Some (SealImplementationVersion req) else None),
         ClientCapabilities = ClientCapabilities areq\<rparr>"
proof -
  have i: "i \<noteq> []" using assms(2) by auto
  obtain nonce c' expiresAt where st: "ticketSigningKey w \<noteq> []"
    "mintAttachTicketWithNonce A (Some i) (ticketSigningKey w) (callerPrincipal (callAuth cc))
       \<lparr>IssuedAt = now, ExpiresAt = expiresAt, TicketID = [], CatalogName = SealCatalogName req,
        DataVersionSpec = SealDataVersionSpec req, ImplementationVersion = SealImplementationVersion req,
        OptionsIPC = optionsIPC\<rparr> nonce = Inr (tok, c')"
    "expiry = (if expiresAt \<noteq> 0 then Some expiresAt else None)"
    using sealAttachTicket_Inr [OF assms(3)] assms(4) by (metis prod.inject)
  from mint_fresh_Inr [OF st(2) _ i]
  have c': "c' = \<lparr>IssuedAt = now, ExpiresAt = expiresAt, TicketID = hex_encode i, CatalogName = SealCatalogName req,
        DataVersionSpec = SealDataVersionSpec req, ImplementationVersion = SealImplementationVersion req,
        OptionsIPC = optionsIPC\<rparr>" and mint: "mintAttachTicketWithNonce A (Some i) (ticketSigningKey w)
       (callerPrincipal (callAuth cc)) c' nonce = Inr (tok, c')" by auto
  have "utf8_claims c'"
    using assms(2,5) by (simp add: c' utf8_claims_def utf8_valid_ticket_id attachTicketIDPattern_hex)
  moreover have "live c' now'"
    using assms(11,12) st(3) by (auto simp: c' live_def ticket_consts split: if_splits)
  moreover have "TicketID c' \<noteq> []" using i by (simp add: c')
  ultimately have opened: "OpenAttachTicket A (ticketSigningKey w) tok (callerPrincipal (callAuth cc')) now' = Inr c'"
    using open_mint [OF assms(1) _ _ _ mint] assms(10) by simp
  show ?thesis
    using opened sealOptionsOf_readable [OF assms(4)]
    by (simp add: redeemAttachTicketInPlace_def redeem_single_ticket [where R = R, OF assms(6-9) st(1)] restoredRequest_def c')
qed

definition sample_node :: catalog_node where
  "sample_node = CatalogNode ''sales'' [] None [] [] []"

definition sample_worker :: ticket_worker where
  "sample_worker = \<lparr>sealOpaqueData = True, httpSigningKey = replicate 32 7, signingKeyConfigured = True\<rparr>"

definition sample_seal :: seal_request where
  "sample_seal = \<lparr>SealCatalogName = ''sales'', SealOptions = None, SealDataVersionSpec = [],
     SealImplementationVersion = [], TTLSeconds = 100\<rparr>"

definition ticket_reader :: "string \<Rightarrow> bytes \<Rightarrow> ipc_outcome" where
  "ticket_reader tok b = IpcBatch \<lparr>NumRows = 1, Columns = [(''VGI_ATTACH_TICKET'', StringCell tok)]\<rparr>"

lemma sample_sealed:
  assumes "ticketLifetime maxTTL 100 = 100"
  shows "sealAttachTicket plain_aead R U P (Some (replicate 24 9)) (Some (replicate 16 1)) sample_worker sample_node maxTTL 1000
     (Some (call_of alice)) sample_seal = Inr (sample_token ''alice'', Some 1100)"
proof -
  have "callerPrincipal (Some alice) = ''alice''" by (simp add: callerPrincipal_def alice_def)
  moreover have "ticketSigningKey sample_worker = replicate 32 7"
    by (simp add: ticketSigningKey_def sample_worker_def)
  moreover have "sample_claims\<lparr>TicketID := []\<rparr> = \<lparr>IssuedAt = 1000, ExpiresAt = 1100, TicketID = [],
     CatalogName = ''sales'', DataVersionSpec = [], ImplementationVersion = [], OptionsIPC = []\<rparr>"
    by (simp add: sample_claims_def)
  moreover have "(sample_claims\<lparr>TicketID := []\<rparr>)\<lparr>TicketID := hex_encode (replicate 16 1)\<rparr> = sample_claims"
    by (simp add: sample_claims_def)
  then have "mintAttachTicketWithNonce plain_aead (Some (replicate 16 1)) (replicate 32 7) ''alice''
      (sample_claims\<lparr>TicketID := []\<rparr>) (replicate 24 9) = Inr (sample_token ''alice'', sample_claims)"
    using sample_mint [of "''alice''" "Some (replicate 16 1)"]
    by (subst mint_fresh_id) (simp_all del: hex_encode_simps)
  ultimately show ?thesis
    using assms
    by (simp add: sealAttachTicket_def Let_def sample_seal_def sealOptionsOf_def sample_node_def primaryName_def
        optionViolations_def MintAttachTicket_def word_sless_alt attachTicketMaxOptionsBytes_def)
qed

theorem sealed_attach_redeems_witness:
  "redeemAttachTicketInPlace plain_aead (ticket_reader (sample_token ''alice'')) plain_unicode sample_worker
     \<lparr>Name = ''other'', Options = Some [1], ReqDataVersionSpec = None, ReqImplementationVersion = None,
      ClientCapabilities = Some [4]\<rparr> (Some (call_of alice)) 1150 =
   Inr \<lparr>Name = ''sales'', Options = None, ReqDataVersionSpec = None, ReqImplementationVersion = None,
        ClientCapabilities = Some [4]\<rparr>"
proof -
  have "EqualFold plain_unicode ''VGI_ATTACH_TICKET'' AttachTicketOption"
    by (simp add: EqualFold_def AttachTicketOption_def ascii_lower_def char_of_def bit_Suc_0_iff)
  moreover have "list_all (\<lambda>s. utf8_valid (str s))
      [SealCatalogName sample_seal, SealDataVersionSpec sample_seal, SealImplementationVersion sample_seal]"
    by (simp add: sample_seal_def str_def byte_of_char_def)
  moreover have "ticketLifetime 0 100 = 100" by (simp add: ticketLifetime_def word_sless_alt)
  note sealed = sample_sealed [OF this, of "ticket_reader (sample_token ''alice'')" plain_unicode "\<lambda>_. None"]
  have "(1000 :: int64) \<le>s 1150 + 60" "(1150 :: int64) <s 1100 + 60"
    by (simp_all add: word_sle_eq word_sless_alt)
  ultimately have "redeemAttachTicketInPlace plain_aead (ticket_reader (sample_token ''alice'')) plain_unicode sample_worker
     \<lparr>Name = ''other'', Options = Some [1], ReqDataVersionSpec = None, ReqImplementationVersion = None,
      ClientCapabilities = Some [4]\<rparr> (Some (call_of alice)) 1150 =
    Inr \<lparr>Name = SealCatalogName sample_seal, Options = (if ([] :: bytes) \<noteq> [] then Some [] else None),
         ReqDataVersionSpec = (if SealDataVersionSpec sample_seal \<noteq> [] then Some (SealDataVersionSpec sample_seal) else None),
         ReqImplementationVersion =
           (if SealImplementationVersion sample_seal \<noteq> [] then Some (SealImplementationVersion sample_seal) else None),
         ClientCapabilities = ClientCapabilities \<lparr>Name = ''other'', Options = Some [1], ReqDataVersionSpec = None,
            ReqImplementationVersion = None, ClientCapabilities = Some [4]\<rparr>\<rparr>"
    by (intro sealed_attach_redeems [OF plain_aead_laws _ sealed, where col = "''VGI_ATTACH_TICKET''" and opts = "[1]"
          and v = "[]" and names = "[]"])
      (simp_all add: ticket_reader_def, simp add: sealOptionsOf_def sample_seal_def)
  then show ?thesis by (simp add: sample_seal_def)
qed

text \<open>
  The worker's ceiling bounds every ticket it issues: with a positive maximum lifetime and a clock at
  or after the epoch, an issued ticket expires strictly after it was issued, at most the maximum
  later, and no later than the lifetime the caller asked for. The 64-bit sum never wraps into a ticket without expiry.
\<close>
theorem sealed_lifetime_ceiling:
  assumes "sealAttachTicket A R U P rnd (Some i) w node maxTTL now cc req = Inr (tok, expiry)"
    and "length i = 16" "0 \<le>s now" "0 <s maxTTL"
  shows "\<exists>e. expiry = Some e \<and> sint now < sint e \<and> sint e \<le> sint now + sint maxTTL \<and>
    (TTLSeconds req = 0 \<or> sint e \<le> sint now + sint (TTLSeconds req))"
proof -
  have i: "i \<noteq> []" using assms(2) by (cases i) simp_all
  let ?lt = "ticketLifetime maxTTL (TTLSeconds req)"
  obtain optionsIPC nonce c' expiresAt where st:
    "expiresAt = (if 0 <s ?lt then now + ?lt else 0)"
    "mintAttachTicketWithNonce A (Some i) (ticketSigningKey w) (callerPrincipal (callAuth cc))
       \<lparr>IssuedAt = now, ExpiresAt = expiresAt, TicketID = [], CatalogName = SealCatalogName req,
        DataVersionSpec = SealDataVersionSpec req, ImplementationVersion = SealImplementationVersion req,
        OptionsIPC = optionsIPC\<rparr> nonce = Inr (tok, c')"
    "expiry = (if expiresAt \<noteq> 0 then Some expiresAt else None)" "\<not> TTLSeconds req <s 0"
    by (rule sealAttachTicket_Inr [OF assms(1)]) (rule that)
  have pos: "0 < sint ?lt" "sint ?lt \<le> sint maxTTL" "TTLSeconds req = 0 \<or> sint ?lt \<le> sint (TTLSeconds req)"
    using assms(4) st(4)
    by (auto simp: ticketLifetime_def word_sless_alt not_less signed_eq_0_iff split: if_splits)
  then have ex: "expiresAt = now + ?lt" using st(1) by (simp add: word_sless_alt)
  have "expiresAt = 0 \<or> sint now < sint expiresAt"
    using mint_fresh_Inr [OF st(2) _ i] by (auto simp: wf_claims_def word_sless_alt)
  moreover have now: "0 \<le> sint now" using assms(3) by (simp add: word_sle_eq)
  note sum = sint_add_nonneg [OF now, of ?lt]
  moreover have "sint now < 2 ^ 63" "sint ?lt < 2 ^ 63" using sint_lt [of now] sint_lt [of ?lt] by simp_all
  ultimately have "sint expiresAt = sint now + sint ?lt" using pos(1) ex by (auto split: if_splits)
  moreover from this have "expiresAt \<noteq> 0" using pos(1) now by auto
  ultimately show ?thesis using st(3) pos by auto
qed

theorem sealed_lifetime_ceiling_witness:
  "\<exists>e. snd (sample_token ''alice'', Some (1100 :: int64)) = Some e \<and> sint (1000 :: int64) < sint e"
proof -
  have "sealAttachTicket plain_aead (ticket_reader []) plain_unicode (\<lambda>_. None) (Some (replicate 24 9)) (Some (replicate 16 1))
     sample_worker sample_node 200 1000 (Some (call_of alice)) sample_seal = Inr (sample_token ''alice'', Some 1100)"
    by (rule sample_sealed) (simp add: ticketLifetime_def word_sless_alt)
  from sealed_lifetime_ceiling [OF this] show ?thesis
    by (simp add: word_sle_eq word_sless_alt)
qed

text \<open>
  C40. Near the end of the 64-bit range the skew wraps around: a ticket whose expiry lies within the last sixty
  representable seconds is well-formed and can be minted, yet every later redemption finds it expired.
\<close>
theorem far_expiry_never_redeems:
  assumes "0 \<le> sint (IssuedAt c)" "2 ^ 63 - 60 \<le> sint (ExpiresAt c)" "0 \<le> sint now"
  shows "\<not> live c now \<and> OpenAttachTicket A key tok caller now \<noteq> Inr c"
proof -
  have "sint (ExpiresAt c) < 2 ^ 63" using sint_lt [of "ExpiresAt c"] by simp
  then have "sint (ExpiresAt c + 60) < 0"
    using sint_add_nonneg [of "ExpiresAt c" 60] assms(2) by simp
  moreover have "ExpiresAt c \<noteq> 0" using assms(2) by auto
  ultimately have "\<not> live c now"
    using assms(3) by (simp add: live_def ticket_consts word_sless_alt)
  then show ?thesis by (simp add: OpenAttachTicket_Inr_iff)
qed

theorem far_expiry_never_redeems_witness:
  "wf_claims (sample_claims\<lparr>ExpiresAt := 0x7FFFFFFFFFFFFFFF\<rparr>) \<and>
   \<not> live (sample_claims\<lparr>ExpiresAt := 0x7FFFFFFFFFFFFFFF\<rparr>) 1000"
proof -
  have "wf_claims (sample_claims\<lparr>ExpiresAt := 0x7FFFFFFFFFFFFFFF\<rparr>)"
    using sample_claims_ok(1) by (simp add: wf_claims_def sample_claims_def word_sless_alt)
  then show ?thesis
    using far_expiry_never_redeems [of "sample_claims\<lparr>ExpiresAt := 0x7FFFFFFFFFFFFFFF\<rparr>" 1000]
    by (simp add: sample_claims_def)
qed

end
