(* ===== verification/SqliteDriver.thy ===== *)
theory SqliteDriver
  imports VgiPrelude
begin

text \<open>
  The SQLite driver as the storage code sees it, for any set of tables. \<open>database\<close> is the tables with the driver's
  future outcomes: \<open>faults\<close> lists, call by call, whether the driver fails (\<open>Some e\<close>); an exhausted list means no more
  failures. A failing statement changes nothing, a transaction that does not commit leaves the tables as
  they were, and a failing row scan after a \<open>DELETE ... RETURNING\<close> leaves the rows deleted. \<open>Failure\<close> is an error
  of the code itself, which rolls a transaction back like a driver error.
\<close>

section \<open>Operations on a database\<close>

datatype 'e fault =
    DriverError string
  | Failure 'e

record 't database =
  tables :: 't
  faults :: "string option list"

type_synonym ('e, 't, 'a) dbop = "'t database \<Rightarrow> ('e fault + 'a) \<times> 't database"

text \<open>One call of the driver: the next outcome.\<close>

definition driver :: "('e, 't, unit) dbop" where
  "driver db =
     (case faults db of
        [] \<Rightarrow> (Inr (), db)
      | None # fs \<Rightarrow> (Inr (), db\<lparr>faults := fs\<rparr>)
      | Some e # fs \<Rightarrow> (Inl (DriverError e), db\<lparr>faults := fs\<rparr>))"

definition oreturn :: "'a \<Rightarrow> ('e, 't, 'a) dbop" where
  "oreturn x db = (Inr x, db)"

definition obind :: "('e, 't, 'a) dbop \<Rightarrow> ('a \<Rightarrow> ('e, 't, 'b) dbop) \<Rightarrow> ('e, 't, 'b) dbop" where
  "obind m f db = (case m db of (Inl e, db') \<Rightarrow> (Inl e, db') | (Inr x, db') \<Rightarrow> f x db')"

text \<open>A statement: the driver call, then its effect on the tables.\<close>

definition statement :: "('t \<Rightarrow> 'a \<times> 't) \<Rightarrow> ('e, 't, 'a) dbop" where
  "statement f = obind driver (\<lambda>_ db. let (x, t) = f (tables db) in (Inr x, db\<lparr>tables := t\<rparr>))"

text \<open>The loop over \<open>rows.Next\<close> and \<open>rows.Scan\<close>, with \<open>rows.Err\<close> at the end.\<close>

fun scanRows :: "'r list \<Rightarrow> ('e, 't, 'r list) dbop" where
  "scanRows [] = obind driver (\<lambda>_. oreturn [])"
| "scanRows (r # rs) = obind driver (\<lambda>_. obind (scanRows rs) (\<lambda>out. oreturn (r # out)))"

text \<open>An error of the code itself.\<close>

definition ofail :: "'e \<Rightarrow> ('e, 't, 'a) dbop" where
  "ofail e db = (Inl (Failure e), db)"

text \<open>A fallible computation inside an operation.\<close>

definition olift :: "'e + 'a \<Rightarrow> ('e, 't, 'a) dbop" where
  "olift r = (case r of Inl e \<Rightarrow> ofail e | Inr x \<Rightarrow> oreturn x)"

text \<open>
  The loop over \<open>rows.Next\<close> and \<open>rows.Scan\<close> where \<open>rows.Err\<close> is not asked: a driver failure ends the loop, and the rows read
  so far are the result.
\<close>

fun nextRows :: "'r list \<Rightarrow> ('e, 't, 'r list) dbop" where
  "nextRows [] = oreturn []"
| "nextRows (r # rs) = (\<lambda>db.
     case driver db of
       (Inl (_ :: 'e fault), db') \<Rightarrow> (Inr [], db')
     | (Inr _, db') \<Rightarrow> obind (nextRows rs) (\<lambda>out. oreturn (r # out)) db')"

text \<open>\<open>Begin\<close>, the body, \<open>Commit\<close>: any failure restores the tables of the \<open>Begin\<close>.\<close>

definition transaction :: "('e, 't, 'a) dbop \<Rightarrow> ('e, 't, 'a) dbop" where
  "transaction body = obind driver (\<lambda>_ db.
     case obind body (\<lambda>x. obind driver (\<lambda>_. oreturn x)) db of
       (Inl e, db') \<Rightarrow> (Inl e, db'\<lparr>tables := tables db\<rparr>)
     | (Inr x, db') \<Rightarrow> (Inr x, db'))"

section \<open>The driver without failures\<close>

lemma driver_ok [simp]: "faults db = [] \<Longrightarrow> driver db = (Inr (), db)"
  by (simp add: driver_def)

lemma oreturn_ok [simp]: "oreturn x db = (Inr x, db)"
  by (simp add: oreturn_def)

lemma obind_eq: "m db = (Inr x, db') \<Longrightarrow> obind m f db = f x db'"
  by (simp add: obind_def)

lemma statement_ok [simp]:
  "faults db = [] \<Longrightarrow> statement f db = (Inr (fst (f (tables db))), db\<lparr>tables := snd (f (tables db))\<rparr>)"
  by (simp add: statement_def obind_def split: prod.splits)

lemma obind_statement_ok [simp]:
  "faults db = [] \<Longrightarrow> obind (statement f) g db = g (fst (f (tables db))) (db\<lparr>tables := snd (f (tables db))\<rparr>)"
  by (rule obind_eq) simp

lemma obind_driver_ok [simp]: "faults db = [] \<Longrightarrow> obind driver g db = g () db"
  by (rule obind_eq) simp

lemma obind_oreturn_ok [simp]: "obind (oreturn x) g db = g x db"
  by (rule obind_eq) simp

lemma scanRows_ok [simp]: "faults db = [] \<Longrightarrow> scanRows rs db = (Inr rs, db)"
  by (induction rs) (simp_all add: obind_def)

lemma obind_scanRows_ok [simp]: "faults db = [] \<Longrightarrow> obind (scanRows rs) g db = g rs db"
  by (rule obind_eq) simp

lemma transaction_ok:
  "faults db = [] \<Longrightarrow> body db = (Inr x, db') \<Longrightarrow> faults db' = [] \<Longrightarrow> transaction body db = (Inr x, db')"
  by (simp add: transaction_def obind_def)

lemma ofail_eq [simp]: "ofail e db = (Inl (Failure e), db)"
  by (simp add: ofail_def)

lemma olift_simps [simp]: "olift (Inl e) = ofail e" "olift (Inr x) = oreturn x"
  by (simp_all add: olift_def)

lemma nextRows_ok [simp]: "faults db = [] \<Longrightarrow> nextRows rs db = (Inr rs, db)"
  by (induction rs) (simp_all add: obind_def)

section \<open>Failures\<close>

lemma driver_tables [simp]: "tables (snd (driver db)) = tables db"
  by (simp add: driver_def split: list.splits option.splits)

lemma driver_same: "driver db = (r, db') \<Longrightarrow> tables db' = tables db"
  by (metis driver_tables snd_conv)

lemma transaction_cases:
  "tables (snd (transaction body db)) = tables db \<or> is_ok (fst (transaction body db))"
  by (auto dest: driver_same simp: transaction_def obind_def split: prod.splits sum.splits)

definition preserves :: "('t \<Rightarrow> bool) \<Rightarrow> ('e, 't, 'a) dbop \<Rightarrow> bool" where
  "preserves I m \<longleftrightarrow> (\<forall>db. I (tables db) \<longrightarrow> I (tables (snd (m db))))"

lemma preserves_driver: "preserves I driver"
  by (simp add: preserves_def)

lemma preserves_oreturn: "preserves I (oreturn x)"
  by (simp add: preserves_def)

lemma preserves_Pair [simp]: "preserves I (Pair (Inr x))"
  by (simp add: preserves_def)

lemma preserves_obind: "preserves I m \<Longrightarrow> (\<And>x. preserves I (f x)) \<Longrightarrow> preserves I (obind m f)"
  unfolding preserves_def obind_def by (auto split: prod.splits sum.splits)

lemma preserves_statement: "(\<And>t. I t \<Longrightarrow> I (snd (f t))) \<Longrightarrow> preserves I (statement f)"
  unfolding statement_def
  by (rule preserves_obind [OF preserves_driver]) (auto simp: preserves_def split: prod.splits, metis snd_conv)

lemma preserves_scanRows: "preserves I (scanRows rs)"
  by (induction rs) (auto intro: preserves_obind preserves_driver preserves_oreturn)

lemma preserves_transaction: "preserves I m \<Longrightarrow> preserves I (transaction m)"
proof -
  assume m: "preserves I m"
  have "preserves I (obind m (\<lambda>x. obind driver (\<lambda>_. oreturn x)))"
    by (intro preserves_obind m preserves_driver preserves_oreturn)
  then have "preserves I (\<lambda>db. case obind m (\<lambda>x. obind driver (\<lambda>_. oreturn x)) db of
       (Inl e, db') \<Rightarrow> (Inl e, db'\<lparr>tables := tables db\<rparr>) | (Inr x, db') \<Rightarrow> (Inr x, db'))"
    unfolding preserves_def by (auto split: prod.splits sum.splits)
  then show ?thesis
    unfolding transaction_def by (intro preserves_obind preserves_driver) simp
qed

lemmas preserves_intros = preserves_driver preserves_oreturn preserves_obind preserves_statement
  preserves_scanRows preserves_transaction

section \<open>Triples\<close>

text \<open>
  From tables in \<open>P\<close>, whatever the driver does: a result \<open>x\<close> comes with tables in \<open>Q x\<close>, an error with tables in \<open>E\<close>.
\<close>

definition triple :: "('t \<Rightarrow> bool) \<Rightarrow> ('e, 't, 'a) dbop \<Rightarrow> ('a \<Rightarrow> 't \<Rightarrow> bool) \<Rightarrow> ('t \<Rightarrow> bool) \<Rightarrow> bool" where
  "triple P m Q E \<longleftrightarrow>
     (\<forall>db. P (tables db) \<longrightarrow>
        (case m db of (Inl e, db') \<Rightarrow> E (tables db') | (Inr x, db') \<Rightarrow> Q x (tables db')))"

lemma tripleD:
  assumes "triple P m Q E" "P (tables db)" "m db = (r, db')"
  shows "case r of Inl e \<Rightarrow> E (tables db') | Inr x \<Rightarrow> Q x (tables db')"
  using assms unfolding triple_def by (auto split: prod.splits sum.splits)

lemma triple_mono:
  assumes "triple P m Q E" "\<And>t. P' t \<Longrightarrow> P t" "\<And>x t. Q x t \<Longrightarrow> Q' x t" "\<And>t. E t \<Longrightarrow> E' t"
  shows "triple P' m Q' E'"
  using assms unfolding triple_def by (fastforce split: prod.splits sum.splits)

lemma triple_driver: "(\<And>t. P t \<Longrightarrow> E t) \<Longrightarrow> triple P driver (\<lambda>_. P) E"
  unfolding triple_def by (auto dest: driver_same split: prod.splits sum.splits)

lemma triple_oreturn: "(\<And>t. P t \<Longrightarrow> Q x t) \<Longrightarrow> triple P (oreturn x) Q E"
  by (simp add: triple_def)

lemma triple_ofail: "(\<And>t. P t \<Longrightarrow> E t) \<Longrightarrow> triple P (ofail e) Q E"
  by (simp add: triple_def)

lemma triple_olift:
  "(\<And>x. r = Inr x \<Longrightarrow> (\<And>t. P t \<Longrightarrow> Q x t)) \<Longrightarrow> (\<And>t. P t \<Longrightarrow> E t) \<Longrightarrow> triple P (olift r) Q E"
  by (cases r) (simp_all add: triple_oreturn triple_ofail)

lemma triple_obind: "triple P m Q E \<Longrightarrow> (\<And>x. triple (Q x) (f x) R E) \<Longrightarrow> triple P (obind m f) R E"
  unfolding triple_def obind_def by (fastforce split: prod.splits sum.splits)

lemma triple_statement:
  assumes "\<And>t. P t \<Longrightarrow> Q (fst (f t)) (snd (f t))" "\<And>t. P t \<Longrightarrow> E t"
  shows "triple P (statement f) Q E"
  unfolding statement_def
  by (rule triple_obind [OF triple_driver]) (use assms in \<open>auto simp: triple_def split: prod.splits\<close>, metis fst_conv snd_conv)

lemma triple_query: "(\<And>t. P t \<Longrightarrow> E t) \<Longrightarrow> triple P (statement (\<lambda>t. (g t, t))) (\<lambda>_. P) E"
  by (rule triple_statement) simp_all

lemma triple_transaction:
  assumes "triple P m Q (\<lambda>_. True)" "\<And>t. P t \<Longrightarrow> E t"
  shows "triple P (transaction m) Q E"
proof -
  have body: "triple P (obind m (\<lambda>x. obind driver (\<lambda>_. oreturn x))) Q (\<lambda>_. True)"
    by (rule triple_obind [OF assms(1)]) (rule triple_obind [OF triple_driver]; simp add: triple_oreturn)
  show ?thesis
    unfolding transaction_def
  proof (rule triple_obind [OF triple_driver])
    show "triple P (\<lambda>db. case obind m (\<lambda>x. obind driver (\<lambda>_. oreturn x)) db of
        (Inl e, db') \<Rightarrow> (Inl e, db'\<lparr>tables := tables db\<rparr>) | (Inr x, db') \<Rightarrow> (Inr x, db')) Q E"
      using body assms(2) unfolding triple_def by (auto split: prod.splits sum.splits)
  qed (rule assms(2))
qed

lemma triple_nextRows:
  fixes rs :: "'r list" and P :: "'t \<Rightarrow> bool"
  shows "(\<And>out t. P t \<Longrightarrow> prefix out rs \<Longrightarrow> Q out t) \<Longrightarrow> triple P (nextRows rs :: ('e, 't, 'r list) dbop) Q E"
proof (induction rs arbitrary: Q)
  case Nil
  show ?case unfolding nextRows.simps by (rule triple_oreturn) (simp add: Nil)
next
  case (Cons r rs)
  have rest: "triple P (obind (nextRows rs) (\<lambda>out. (oreturn (r # out) :: ('e, 't, 'r list) dbop))) Q E"
    by (rule triple_obind [OF Cons(1) [of "\<lambda>out. Q (r # out)"]]) (simp_all add: Cons(2) triple_oreturn)
  show ?case
    unfolding triple_def
  proof (intro allI impI)
    fix db :: "'t database"
    assume P: "P (tables db)"
    show "case (nextRows (r # rs) :: ('e, 't, 'r list) dbop) db of (Inl e, db') \<Rightarrow> E (tables db') | (Inr out, db') \<Rightarrow> Q out (tables db')"
    proof (cases "(driver :: ('e, 't, unit) dbop) db")
      case (Pair x db')
      then have "tables db' = tables db" by (rule driver_same)
      then show ?thesis
        using rest P Cons(2) [of _ "[]"] Pair unfolding triple_def by (cases x) simp_all
    qed
  qed
qed

lemma triple_scanRows: "(\<And>t. P t \<Longrightarrow> Q rs t) \<Longrightarrow> (\<And>t. P t \<Longrightarrow> E t) \<Longrightarrow> triple P (scanRows rs) Q E"
proof (induction rs arbitrary: Q)
  case Nil
  then show ?case by (auto intro: triple_obind [OF triple_driver] triple_oreturn)
next
  case (Cons r rs)
  show ?case
    unfolding scanRows.simps
    by (rule triple_obind [OF triple_driver triple_obind [OF Cons(1) [of "\<lambda>out. Q (r # out)"]]])
      (simp_all add: Cons(2,3) triple_oreturn del: oreturn_ok)
qed

section \<open>Outcomes\<close>

text \<open>How an operation ends, whatever the driver does.\<close>

lemma obind_cases:
  assumes "obind m f db = (r, db')"
  obtains (fails) e where "m db = (Inl e, db')" "r = Inl e"
  | (continues) x db'' where "m db = (Inr x, db'')" "f x db'' = (r, db')"
  using assms by (auto simp: obind_def split: prod.splits sum.splits)

lemma driver_cases:
  assumes "driver db = (r, db')"
  shows "tables db' = tables db \<and> (r = Inr () \<or> (\<exists>e. r = Inl (DriverError e)))"
  using assms by (auto simp: driver_def split: list.splits option.splits)

lemma query_cases:
  assumes "statement (\<lambda>t. (g t, t)) db = (r, db')"
  shows "tables db' = tables db \<and> (r = Inr (g (tables db)) \<or> (\<exists>e. r = Inl (DriverError e)))"
  using assms unfolding statement_def by (rule obind_cases) (auto dest: driver_cases)

lemma nextRows_cases:
  fixes db :: "'t database" and r :: "'e fault + 'r list"
  shows "nextRows rs db = (r, db') \<Longrightarrow> tables db' = tables db \<and> (\<exists>out. r = Inr out \<and> prefix out rs)"
proof (induction rs arbitrary: db r)
  case (Cons x rs)
  show ?case
  proof (cases "driver db :: ('e fault + unit) \<times> 't database")
    case (Pair d db1)
    note same = driver_cases [OF Pair]
    show ?thesis
    proof (cases d)
      case (Inl e)
      then show ?thesis using Cons(2) Pair same by auto
    next
      case (Inr u)
      then have "obind (nextRows rs) (\<lambda>out. oreturn (x # out)) db1 = (r, db')" using Cons(2) Pair by simp
      then show ?thesis
        by (rule obind_cases) (use same in \<open>auto dest!: Cons(1)\<close>)
    qed
  qed
qed simp

end
