(* ===== verification/FunctionStore.thy ===== *)
theory FunctionStore
  imports SqliteDriver
begin

text \<open>
  \<open>vgi/function_storage_sqlite.go\<close>: the SQLite tier of the shared storage.

  \<open>tables\<close> are the four tables with the sequences behind their \<open>AUTOINCREMENT\<close> ids; every SQL
  statement of the source is a function on \<open>tables\<close> with the statement's meaning, run by the driver of
  \<open>SqliteDriver\<close> (\<open>sqlite\<close> is a database with these tables).
  BLOBs are compared as byte strings, which is the lexicographic order of \<open>bytes\<close>. Slices stored and read are
  non-nil; \<open>None\<close> is the nil that stands for a missing row.

  The locales \<open>kv_store\<close> and \<open>fifo_queue\<close> are the contracts of \<open>vgi/function_storage.go\<close> that the rest of the
  worker relies on; both are interpreted on this model.
\<close>

section \<open>Tables and the driver\<close>

type_synonym row_key = "bytes \<times> bytes \<times> bytes"

record log_row =
  log_id :: nat
  log_scope :: bytes
  log_ns :: bytes
  log_key :: bytes
  log_value :: bytes

record queue_row =
  queue_id :: nat
  queue_execution :: bytes
  queue_item :: bytes

record tables =
  function_state :: "(row_key \<times> bytes) list"
  function_state_log :: "log_row list"
  log_seq :: nat
  function_counter :: "(row_key \<times> int) list"
  work_queue :: "queue_row list"
  queue_seq :: nat

type_synonym db_err = "unit fault"
type_synonym sqlite = "tables database"
type_synonym 'a op = "(unit, tables, 'a) dbop"

section \<open>Namespaces and keys\<close>

definition nsWorker :: bytes where "nsWorker = str ''worker''"
definition nsScanWorker :: bytes where "nsScanWorker = str ''scan_worker''"
definition nsAgg :: bytes where "nsAgg = str ''agg''"
definition nsAggConst :: bytes where "nsAggConst = str ''agg_const''"
definition nsWin :: bytes where "nsWin = str ''win''"
definition nsTxn :: bytes where "nsTxn = str ''txn''"
definition nsLog :: bytes where "nsLog = str ''log''"

lemmas ns_defs = nsWorker_def nsScanWorker_def nsAgg_def nsAggConst_def nsWin_def nsTxn_def nsLog_def

definition int64Key :: "int64 \<Rightarrow> bytes" where
  "int64Key v = put_u64_be v"

section \<open>Helpers over function\_state\<close>

definition putRow :: "row_key \<Rightarrow> bytes \<Rightarrow> tables \<Rightarrow> tables" where
  "putRow k v t = t\<lparr>function_state := AList.update k v (function_state t)\<rparr>"

definition deleteRows :: "(row_key \<Rightarrow> bool) \<Rightarrow> tables \<Rightarrow> tables" where
  "deleteRows P t = t\<lparr>function_state := filter (\<lambda>(k, v). \<not> P k) (function_state t)\<rparr>"

text \<open>The rows of one (scope, namespace), as (key, value) pairs.\<close>

definition nsRows :: "bytes \<Rightarrow> bytes \<Rightarrow> tables \<Rightarrow> (bytes \<times> bytes) list" where
  "nsRows scope ns t =
     map (\<lambda>((s, n, k), v). (k, v)) (filter (\<lambda>((s, n, k), v). s = scope \<and> n = ns) (function_state t))"

definition statePut :: "bytes \<Rightarrow> bytes \<Rightarrow> bytes \<Rightarrow> bytes \<Rightarrow> unit op" where
  "statePut scope ns key v = statement (\<lambda>t. ((), putRow (scope, ns, key) v t))"

definition stateGetOne :: "bytes \<Rightarrow> bytes \<Rightarrow> bytes \<Rightarrow> bytes option op" where
  "stateGetOne scope ns key = statement (\<lambda>t. (map_of (function_state t) (scope, ns, key), t))"

definition stateDrain :: "bytes \<Rightarrow> bytes \<Rightarrow> (bytes \<times> bytes) list op" where
  "stateDrain scope ns =
     obind (statement (\<lambda>t. (nsRows scope ns t, deleteRows (\<lambda>(s, n, k). s = scope \<and> n = ns) t))) (\<lambda>rows.
       obind (scanRows rows) (\<lambda>out. oreturn (sort_key fst out)))"

record scan_options =
  Start :: "bytes option"
  End :: "bytes option"
  Reverse :: bool
  Limit :: int

definition inRange :: "bytes option \<Rightarrow> bytes option \<Rightarrow> bytes \<Rightarrow> bool" where
  "inRange start stop key \<longleftrightarrow>
     (case start of None \<Rightarrow> True | Some a \<Rightarrow> a \<le> key) \<and> (case stop of None \<Rightarrow> True | Some b \<Rightarrow> key < b)"

definition limited :: "int \<Rightarrow> 'a list \<Rightarrow> 'a list" where
  "limited n xs = (if n > 0 then take (nat n) xs else xs)"

definition rangeRows :: "bytes \<Rightarrow> bytes \<Rightarrow> scan_options \<Rightarrow> tables \<Rightarrow> (bytes \<times> bytes) list" where
  "rangeRows scope ns opts t =
     (let matching = filter (\<lambda>(k, v). inRange (Start opts) (End opts) k) (nsRows scope ns t);
          asc = sort_key fst matching
      in limited (Limit opts) (if Reverse opts then rev asc else asc))"

definition stateScanRange :: "bytes \<Rightarrow> bytes \<Rightarrow> scan_options \<Rightarrow> (bytes \<times> bytes) list op" where
  "stateScanRange scope ns opts =
     obind (statement (\<lambda>t. (rangeRows scope ns opts t, t))) scanRows"

definition stateScan :: "bytes \<Rightarrow> bytes \<Rightarrow> (bytes \<times> bytes) list op" where
  "stateScan scope ns = stateScanRange scope ns \<lparr>Start = None, End = None, Reverse = False, Limit = 0\<rparr>"

definition stateDeleteNS :: "bytes \<Rightarrow> bytes \<Rightarrow> unit op" where
  "stateDeleteNS scope ns = statement (\<lambda>t. ((), deleteRows (\<lambda>(s, n, k). s = scope \<and> n = ns) t))"

definition stateDeleteRange :: "bytes \<Rightarrow> bytes \<Rightarrow> bytes option \<Rightarrow> bytes option \<Rightarrow> nat op" where
  "stateDeleteRange scope ns start stop =
     (let hit = (\<lambda>(s, n, k). s = scope \<and> n = ns \<and> inRange start stop k)
      in statement (\<lambda>t. (length (filter (\<lambda>(k, v). hit k) (function_state t)), deleteRows hit t)))"

definition stateDeleteKey :: "bytes \<Rightarrow> bytes \<Rightarrow> bytes \<Rightarrow> unit op" where
  "stateDeleteKey scope ns key = statement (\<lambda>t. ((), deleteRows (\<lambda>k. k = (scope, ns, key)) t))"

section \<open>Worker and scan-worker state\<close>

definition WorkerPut :: "bytes \<Rightarrow> bytes \<Rightarrow> bytes \<Rightarrow> unit op" where
  "WorkerPut executionID workerKey state = statePut executionID nsWorker workerKey state"

definition WorkerCollect :: "bytes \<Rightarrow> bytes list op" where
  "WorkerCollect executionID = obind (stateDrain executionID nsWorker) (\<lambda>rows. oreturn (map snd rows))"

definition WorkerScan :: "bytes \<Rightarrow> (bytes \<times> bytes) list op" where
  "WorkerScan executionID = stateScan executionID nsWorker"

definition ScanWorkerPut :: "bytes \<Rightarrow> bytes \<Rightarrow> bytes \<Rightarrow> unit op" where
  "ScanWorkerPut executionID streamID state = statePut executionID nsScanWorker streamID state"

definition ScanWorkerScan :: "bytes \<Rightarrow> (bytes \<times> bytes) list op" where
  "ScanWorkerScan executionID = stateScan executionID nsScanWorker"

section \<open>Work queue\<close>

definition insertQueue :: "bytes \<Rightarrow> bytes \<Rightarrow> tables \<Rightarrow> tables" where
  "insertQueue executionID item t =
     t\<lparr>work_queue := work_queue t @ [\<lparr>queue_id = queue_seq t + 1, queue_execution = executionID, queue_item = item\<rparr>],
       queue_seq := queue_seq t + 1\<rparr>"

fun pushItems :: "bytes \<Rightarrow> bytes list \<Rightarrow> nat \<Rightarrow> nat op" where
  "pushItems executionID [] count = oreturn count"
| "pushItems executionID (item # items) count =
     obind (statement (\<lambda>t. ((), insertQueue executionID item t))) (\<lambda>_.
       pushItems executionID items (count + 1))"

definition QueuePush :: "bytes \<Rightarrow> bytes list \<Rightarrow> nat op" where
  "QueuePush executionID items =
     (if length items = 0 then oreturn 0
      else transaction (obind driver (\<lambda>_. pushItems executionID items 0)))"

text \<open>The rows of one queue in id order; the subselect takes the first.\<close>

definition queueRows :: "bytes \<Rightarrow> tables \<Rightarrow> queue_row list" where
  "queueRows executionID t =
     sort_key queue_id (filter (\<lambda>r. queue_execution r = executionID) (work_queue t))"

definition popRow :: "bytes \<Rightarrow> tables \<Rightarrow> bytes option \<times> tables" where
  "popRow executionID t =
     (case queueRows executionID t of
        [] \<Rightarrow> (None, t)
      | r # _ \<Rightarrow> (Some (queue_item r), t\<lparr>work_queue := filter (\<lambda>q. queue_id q \<noteq> queue_id r) (work_queue t)\<rparr>))"

definition QueuePop :: "bytes \<Rightarrow> bytes option op" where
  "QueuePop executionID = statement (popRow executionID)"

definition QueueClear :: "bytes \<Rightarrow> nat op" where
  "QueueClear executionID = statement (\<lambda>t.
     (length (filter (\<lambda>r. queue_execution r = executionID) (work_queue t)),
      t\<lparr>work_queue := filter (\<lambda>r. queue_execution r \<noteq> executionID) (work_queue t)\<rparr>))"

section \<open>Aggregate state, constant arguments and window partitions\<close>

record agg_entry =
  GroupID :: int64
  State :: "bytes option"

fun AggregateStateGet :: "bytes \<Rightarrow> int64 list \<Rightarrow> agg_entry list op" where
  "AggregateStateGet executionID [] = oreturn []"
| "AggregateStateGet executionID (gid # gids) =
     obind (stateGetOne executionID nsAgg (int64Key gid)) (\<lambda>v.
       obind (AggregateStateGet executionID gids) (\<lambda>out.
         oreturn ((case v of None \<Rightarrow> \<lparr>GroupID = 0, State = None\<rparr> | Some s \<Rightarrow> \<lparr>GroupID = gid, State = Some s\<rparr>) # out)))"

text \<open>The prepared \<open>INSERT OR REPLACE\<close> of a batch of rows.\<close>

fun putRows :: "(row_key \<times> bytes) list \<Rightarrow> unit op" where
  "putRows [] = oreturn ()"
| "putRows ((k, v) # rows) = obind (statement (\<lambda>t. ((), putRow k v t))) (\<lambda>_. putRows rows)"

definition putBatch :: "(row_key \<times> bytes) list \<Rightarrow> unit op" where
  "putBatch rows =
     (if length rows = 0 then oreturn () else transaction (obind driver (\<lambda>_. putRows rows)))"

definition AggregateStatePut :: "bytes \<Rightarrow> (int64 \<times> bytes) list \<Rightarrow> unit op" where
  "AggregateStatePut executionID entries =
     putBatch (map (\<lambda>(gid, s). ((executionID, nsAgg, int64Key gid), s)) entries)"

definition AggregateStateClear :: "bytes \<Rightarrow> unit op" where
  "AggregateStateClear executionID = stateDeleteNS executionID nsAgg"

definition AggregateConstArgsPut :: "bytes \<Rightarrow> string \<Rightarrow> bytes \<Rightarrow> unit op" where
  "AggregateConstArgsPut executionID functionName args = statePut executionID nsAggConst (str functionName) args"

definition AggregateConstArgsGet :: "bytes \<Rightarrow> string \<Rightarrow> bytes option op" where
  "AggregateConstArgsGet executionID functionName = stateGetOne executionID nsAggConst (str functionName)"

definition AggregateWindowPartitionPut :: "bytes \<Rightarrow> int64 \<Rightarrow> bytes \<Rightarrow> unit op" where
  "AggregateWindowPartitionPut executionID partitionID data = statePut executionID nsWin (int64Key partitionID) data"

definition AggregateWindowPartitionGet :: "bytes \<Rightarrow> int64 \<Rightarrow> bytes option op" where
  "AggregateWindowPartitionGet executionID partitionID = stateGetOne executionID nsWin (int64Key partitionID)"

definition AggregateWindowPartitionDelete :: "bytes \<Rightarrow> int64 \<Rightarrow> unit op" where
  "AggregateWindowPartitionDelete executionID partitionID = stateDeleteKey executionID nsWin (int64Key partitionID)"

definition AggregateWindowPartitionClear :: "bytes \<Rightarrow> unit op" where
  "AggregateWindowPartitionClear executionID = stateDeleteNS executionID nsWin"

section \<open>Transaction state\<close>

fun TransactionStateGet :: "bytes \<Rightarrow> bytes list \<Rightarrow> bytes option list op" where
  "TransactionStateGet txn [] = oreturn []"
| "TransactionStateGet txn (k # ks) =
     obind (stateGetOne txn nsTxn k) (\<lambda>v. obind (TransactionStateGet txn ks) (\<lambda>out. oreturn (v # out)))"

definition TransactionStatePut :: "bytes \<Rightarrow> (bytes \<times> bytes) list \<Rightarrow> unit op" where
  "TransactionStatePut txn items = putBatch (map (\<lambda>(k, v). ((txn, nsTxn, k), v)) items)"

definition TransactionStateClear :: "bytes \<Rightarrow> unit op" where
  "TransactionStateClear txn = stateDeleteNS txn nsTxn"

section \<open>State log\<close>

definition appendLog :: "bytes \<Rightarrow> bytes \<Rightarrow> bytes \<Rightarrow> tables \<Rightarrow> nat \<times> tables" where
  "appendLog executionID key v t =
     (let i = log_seq t + 1 in
      (i, t\<lparr>function_state_log := function_state_log t @
              [\<lparr>log_id = i, log_scope = executionID, log_ns = nsLog, log_key = key, log_value = v\<rparr>],
            log_seq := i\<rparr>))"

definition StateAppend :: "bytes \<Rightarrow> bytes \<Rightarrow> bytes \<Rightarrow> nat op" where
  "StateAppend executionID key v = statement (appendLog executionID key v)"

definition logRows :: "bytes \<Rightarrow> bytes \<Rightarrow> int \<Rightarrow> int \<Rightarrow> tables \<Rightarrow> (nat \<times> bytes) list" where
  "logRows executionID key afterID limit t =
     limited limit (map (\<lambda>r. (log_id r, log_value r)) (sort_key log_id (filter (\<lambda>r.
       log_scope r = executionID \<and> log_ns r = nsLog \<and> log_key r = key \<and> int (log_id r) > afterID)
       (function_state_log t))))"

definition StateLogScan :: "bytes \<Rightarrow> bytes \<Rightarrow> int \<Rightarrow> int \<Rightarrow> (nat \<times> bytes) list op" where
  "StateLogScan executionID key afterID limit =
     obind (statement (\<lambda>t. (logRows executionID key afterID limit t, t))) scanRows"

definition StateLogClear :: "bytes \<Rightarrow> unit op" where
  "StateLogClear executionID = statement (\<lambda>t. ((), t\<lparr>function_state_log :=
     filter (\<lambda>r. \<not> (log_scope r = executionID \<and> log_ns r = nsLog)) (function_state_log t)\<rparr>))"

section \<open>Attach state and counters\<close>

definition AttachStatePut :: "bytes \<Rightarrow> bytes \<Rightarrow> bytes \<Rightarrow> bytes \<Rightarrow> unit op" where
  "AttachStatePut scope ns key v = statePut scope ns key v"

definition AttachStateGet :: "bytes \<Rightarrow> bytes \<Rightarrow> bytes \<Rightarrow> bytes option op" where
  "AttachStateGet scope ns key = stateGetOne scope ns key"

definition AttachStateScan :: "bytes \<Rightarrow> bytes \<Rightarrow> scan_options \<Rightarrow> (bytes \<times> bytes) list op" where
  "AttachStateScan scope ns opts = stateScanRange scope ns opts"

definition AttachStateDeleteKey :: "bytes \<Rightarrow> bytes \<Rightarrow> bytes \<Rightarrow> unit op" where
  "AttachStateDeleteKey scope ns key = stateDeleteKey scope ns key"

definition AttachStateDeleteNS :: "bytes \<Rightarrow> bytes \<Rightarrow> unit op" where
  "AttachStateDeleteNS scope ns = stateDeleteNS scope ns"

definition AttachStateDeleteRange :: "bytes \<Rightarrow> bytes \<Rightarrow> bytes option \<Rightarrow> bytes option \<Rightarrow> nat op" where
  "AttachStateDeleteRange scope ns start stop = stateDeleteRange scope ns start stop"

definition AttachStateDrain :: "bytes \<Rightarrow> bytes \<Rightarrow> (bytes \<times> bytes) list op" where
  "AttachStateDrain scope ns = stateDrain scope ns"

text \<open>
  SQLite turns an integer sum outside 64 bits into a REAL, which does not scan into an \<open>int64\<close>: the stored
  number is kept exactly here, and reading one outside the range is a scan error.
\<close>

definition int64_range :: "int \<Rightarrow> bool" where
  "int64_range n \<longleftrightarrow> - (2 ^ 63) \<le> n \<and> n < 2 ^ 63"

definition scanCounter :: "int \<Rightarrow> int op" where
  "scanCounter n db = (if int64_range n then (Inr n, db) else (Inl (DriverError ''converting to int64''), db))"

definition AttachCounterGet :: "bytes \<Rightarrow> bytes \<Rightarrow> bytes \<Rightarrow> int op" where
  "AttachCounterGet scope ns key =
     obind (statement (\<lambda>t. (map_of (function_counter t) (scope, ns, key), t))) (\<lambda>row.
       case row of None \<Rightarrow> oreturn 0 | Some n \<Rightarrow> scanCounter n)"

definition AttachCounterAdd :: "bytes \<Rightarrow> bytes \<Rightarrow> bytes \<Rightarrow> int \<Rightarrow> int op" where
  "AttachCounterAdd scope ns key delta =
     obind (statement (\<lambda>t.
       let n = (case map_of (function_counter t) (scope, ns, key) of None \<Rightarrow> delta | Some n \<Rightarrow> n + delta)
       in (n, t\<lparr>function_counter := AList.update (scope, ns, key) n (function_counter t)\<rparr>))) scanCounter"

definition AttachCounterSet :: "bytes \<Rightarrow> bytes \<Rightarrow> bytes \<Rightarrow> int \<Rightarrow> unit op" where
  "AttachCounterSet scope ns key n = statement (\<lambda>t.
     ((), t\<lparr>function_counter := AList.update (scope, ns, key) n (function_counter t)\<rparr>))"

definition AttachCounterDelete :: "bytes \<Rightarrow> bytes \<Rightarrow> bytes \<Rightarrow> unit op" where
  "AttachCounterDelete scope ns key = statement (\<lambda>t.
     ((), t\<lparr>function_counter := AList.delete (scope, ns, key) (function_counter t)\<rparr>))"

section \<open>Teardown\<close>

definition ExecutionClear :: "bytes \<Rightarrow> nat op" where
  "ExecutionClear scope = transaction (
     obind (statement (\<lambda>t. (length (filter (\<lambda>(k, v). fst k = scope) (function_state t)),
                            deleteRows (\<lambda>k. fst k = scope) t))) (\<lambda>a.
     obind (statement (\<lambda>t. (length (filter (\<lambda>r. log_scope r = scope) (function_state_log t)),
                            t\<lparr>function_state_log := filter (\<lambda>r. log_scope r \<noteq> scope) (function_state_log t)\<rparr>))) (\<lambda>b.
     obind (statement (\<lambda>t. (length (filter (\<lambda>(k, v). fst k = scope) (function_counter t)),
                            t\<lparr>function_counter := filter (\<lambda>(k, v). fst k \<noteq> scope) (function_counter t)\<rparr>))) (\<lambda>c.
       oreturn (a + b + c)))))"

section \<open>Runs of the store\<close>

definition empty_tables :: tables where
  "empty_tables = \<lparr>function_state = [], function_state_log = [], log_seq = 0, function_counter = [],
     work_queue = [], queue_seq = 0\<rparr>"

text \<open>One public operation, whatever the driver does, and the states they reach from an empty database.\<close>

inductive store_step :: "sqlite \<Rightarrow> sqlite \<Rightarrow> bool" where
  "store_step db (snd (WorkerPut e k v db))"
| "store_step db (snd (WorkerCollect e db))"
| "store_step db (snd (WorkerScan e db))"
| "store_step db (snd (ScanWorkerPut e k v db))"
| "store_step db (snd (ScanWorkerScan e db))"
| "store_step db (snd (QueuePush e items db))"
| "store_step db (snd (QueuePop e db))"
| "store_step db (snd (QueueClear e db))"
| "store_step db (snd (AggregateStateGet e gids db))"
| "store_step db (snd (AggregateStatePut e entries db))"
| "store_step db (snd (AggregateStateClear e db))"
| "store_step db (snd (AggregateConstArgsPut e f v db))"
| "store_step db (snd (AggregateConstArgsGet e f db))"
| "store_step db (snd (AggregateWindowPartitionPut e i v db))"
| "store_step db (snd (AggregateWindowPartitionGet e i db))"
| "store_step db (snd (AggregateWindowPartitionDelete e i db))"
| "store_step db (snd (AggregateWindowPartitionClear e db))"
| "store_step db (snd (TransactionStateGet e ks db))"
| "store_step db (snd (TransactionStatePut e kvs db))"
| "store_step db (snd (TransactionStateClear e db))"
| "store_step db (snd (StateAppend e k v db))"
| "store_step db (snd (StateLogScan e k a l db))"
| "store_step db (snd (StateLogClear e db))"
| "store_step db (snd (AttachStatePut e ns k v db))"
| "store_step db (snd (AttachStateGet e ns k db))"
| "store_step db (snd (AttachStateScan e ns opts db))"
| "store_step db (snd (AttachStateDeleteKey e ns k db))"
| "store_step db (snd (AttachStateDeleteNS e ns db))"
| "store_step db (snd (AttachStateDeleteRange e ns a b db))"
| "store_step db (snd (AttachStateDrain e ns db))"
| "store_step db (snd (AttachCounterGet e ns k db))"
| "store_step db (snd (AttachCounterAdd e ns k n db))"
| "store_step db (snd (AttachCounterSet e ns k n db))"
| "store_step db (snd (AttachCounterDelete e ns k db))"
| "store_step db (snd (ExecutionClear e db))"

inductive reachable_store :: "sqlite \<Rightarrow> bool" where
  start: "reachable_store \<lparr>tables = empty_tables, faults = fs\<rparr>"
| step: "reachable_store db \<Longrightarrow> store_step db db' \<Longrightarrow> reachable_store db'"

text \<open>
  Well-formed tables: primary keys are unique, and rows with an \<open>AUTOINCREMENT\<close> id stand in id order, none
  above the sequence.
\<close>

definition wf_tables :: "tables \<Rightarrow> bool" where
  "wf_tables t \<longleftrightarrow>
     distinct (map fst (function_state t)) \<and> distinct (map fst (function_counter t)) \<and>
     sorted_wrt (<) (map queue_id (work_queue t)) \<and> list_all (\<lambda>r. queue_id r \<le> queue_seq t) (work_queue t) \<and>
     sorted_wrt (<) (map log_id (function_state_log t)) \<and> list_all (\<lambda>r. log_id r \<le> log_seq t) (function_state_log t)"

text \<open>Two states the examples share.\<close>

definition one_push :: sqlite where
  "one_push = snd (QueuePush [1] [[7], [8]] \<lparr>tables = empty_tables, faults = []\<rparr>)"

definition two_entries :: sqlite where
  "two_entries = snd (StateAppend [1] [2] [9] (snd (StateAppend [1] [2] [8] \<lparr>tables = empty_tables, faults = []\<rparr>)))"

section \<open>The driver without failures\<close>

lemma pushItems_ok:
  "faults db = [] \<Longrightarrow> pushItems e items n db =
     (Inr (n + length items), db\<lparr>tables := fold (insertQueue e) items (tables db)\<rparr>)"
  by (induction items arbitrary: n db) simp_all

lemma putRows_ok:
  "faults db = [] \<Longrightarrow> putRows rows db = (Inr (), db\<lparr>tables := fold (\<lambda>(k, v). putRow k v) rows (tables db)\<rparr>)"
  by (induction rows arbitrary: db) auto

lemma QueuePush_ok:
  "faults db = [] \<Longrightarrow> QueuePush e items db =
     (Inr (length items), db\<lparr>tables := fold (insertQueue e) items (tables db)\<rparr>)"
  by (auto simp: QueuePush_def pushItems_ok intro!: transaction_ok)

lemma putBatch_ok:
  "faults db = [] \<Longrightarrow> putBatch rows db = (Inr (), db\<lparr>tables := fold (\<lambda>(k, v). putRow k v) rows (tables db)\<rparr>)"
  by (auto simp: putBatch_def putRows_ok intro!: transaction_ok)

section \<open>The invariant\<close>

lemma wf_empty: "wf_tables empty_tables"
  by (simp add: wf_tables_def empty_tables_def)

lemma distinct_fst_filter: "distinct (map fst xs) \<Longrightarrow> distinct (map fst (filter P xs))"
  by (rule distinct_map_filter)

lemma sorted_wrt_map_filter: "sorted_wrt R (map f xs) \<Longrightarrow> sorted_wrt R (map f (filter P xs))"
  by (induction xs) auto

lemma list_all_filter: "list_all P xs \<Longrightarrow> list_all P (filter Q xs)"
  by (simp add: list_all_iff)

lemma wf_putRow: "wf_tables t \<Longrightarrow> wf_tables (putRow k v t)"
  by (simp add: wf_tables_def putRow_def distinct_update)

lemma wf_deleteRows: "wf_tables t \<Longrightarrow> wf_tables (deleteRows P t)"
  by (simp add: wf_tables_def deleteRows_def distinct_fst_filter)

lemma wf_insertQueue: "wf_tables t \<Longrightarrow> wf_tables (insertQueue e item t)"
  by (auto simp: wf_tables_def insertQueue_def sorted_wrt_append list_all_iff)

lemma wf_filterQueue: "wf_tables t \<Longrightarrow> wf_tables (t\<lparr>work_queue := filter P (work_queue t)\<rparr>)"
  by (simp add: wf_tables_def sorted_wrt_map_filter list_all_filter)

lemma wf_filterLog: "wf_tables t \<Longrightarrow> wf_tables (t\<lparr>function_state_log := filter P (function_state_log t)\<rparr>)"
  by (simp add: wf_tables_def sorted_wrt_map_filter list_all_filter)

lemma wf_filterCounter: "wf_tables t \<Longrightarrow> wf_tables (t\<lparr>function_counter := filter P (function_counter t)\<rparr>)"
  by (simp add: wf_tables_def distinct_fst_filter)

lemma wf_updateCounter: "wf_tables t \<Longrightarrow> wf_tables (t\<lparr>function_counter := AList.update k n (function_counter t)\<rparr>)"
  by (simp add: wf_tables_def distinct_update)

lemma wf_deleteCounter: "wf_tables t \<Longrightarrow> wf_tables (t\<lparr>function_counter := AList.delete k (function_counter t)\<rparr>)"
  by (simp add: wf_tables_def distinct_delete)

lemma wf_popRow: "wf_tables t \<Longrightarrow> wf_tables (snd (popRow e t))"
  by (auto simp: popRow_def wf_filterQueue split: list.splits)

lemma wf_appendLog: "wf_tables t \<Longrightarrow> wf_tables (snd (appendLog e k v t))"
  by (auto simp: wf_tables_def appendLog_def Let_def sorted_wrt_append list_all_iff)

lemmas wf_rows = wf_putRow wf_deleteRows wf_insertQueue wf_filterQueue wf_filterLog wf_filterCounter
  wf_updateCounter wf_deleteCounter wf_popRow wf_appendLog

lemma wf_statement:
  "(\<And>t. wf_tables t \<Longrightarrow> wf_tables (snd (f t))) \<Longrightarrow> preserves wf_tables (statement f)"
  by (rule preserves_statement)

lemma wf_putRows: "preserves wf_tables (putRows rows)"
  by (induction rows) (auto intro!: preserves_intros simp: wf_rows)

lemma wf_pushItems: "preserves wf_tables (pushItems e items n)"
  by (induction items arbitrary: n) (auto intro!: preserves_intros simp: wf_rows)

lemma wf_statePut: "preserves wf_tables (statePut s n k v)"
  by (simp add: statePut_def preserves_statement wf_rows)

lemma wf_stateGetOne: "preserves I (stateGetOne s n k)"
  by (simp add: stateGetOne_def preserves_statement)

lemma wf_stateScanRange: "preserves I (stateScanRange s n opts)"
  unfolding stateScanRange_def by (intro preserves_intros) simp

lemma wf_stateDrain: "preserves wf_tables (stateDrain s n)"
  unfolding stateDrain_def by (intro preserves_intros) (simp add: wf_rows)

lemma wf_stateDelete: "preserves wf_tables (stateDeleteNS s n)" "preserves wf_tables (stateDeleteRange s n a b)"
  "preserves wf_tables (stateDeleteKey s n k)"
  by (simp_all add: stateDeleteNS_def stateDeleteRange_def stateDeleteKey_def preserves_statement wf_rows Let_def)

lemma wf_putBatch: "preserves wf_tables (putBatch rows)"
  by (simp add: putBatch_def preserves_intros wf_putRows)

lemma wf_AggregateStateGet: "preserves I (AggregateStateGet e gids)"
  by (induction gids) (auto intro!: preserves_intros wf_stateGetOne)

lemma wf_TransactionStateGet: "preserves I (TransactionStateGet e ks)"
  by (induction ks) (auto intro!: preserves_intros wf_stateGetOne)

lemma wf_scanCounter: "preserves I (scanCounter n)"
  by (simp add: preserves_def scanCounter_def)

lemma wf_counters:
  "preserves wf_tables (AttachCounterGet s n k)" "preserves wf_tables (AttachCounterAdd s n k d)"
  "preserves wf_tables (AttachCounterSet s n k d)" "preserves wf_tables (AttachCounterDelete s n k)"
  unfolding AttachCounterGet_def AttachCounterAdd_def AttachCounterSet_def AttachCounterDelete_def
  by (auto intro!: preserves_intros wf_scanCounter simp: wf_rows Let_def split: option.splits)

lemma wf_ExecutionClear: "preserves wf_tables (ExecutionClear e)"
  unfolding ExecutionClear_def by (intro preserves_intros) (simp_all add: wf_rows)

lemma wf_queue:
  "preserves wf_tables (QueuePush e items)" "preserves wf_tables (QueuePop e)" "preserves wf_tables (QueueClear e)"
  unfolding QueuePush_def QueuePop_def QueueClear_def
  by (auto intro!: preserves_intros wf_pushItems simp: wf_rows)

lemma wf_log:
  "preserves wf_tables (StateAppend e k v)" "preserves wf_tables (StateLogScan e k a l)"
  "preserves wf_tables (StateLogClear e)"
  unfolding StateAppend_def StateLogScan_def StateLogClear_def
  by (auto intro!: preserves_intros simp: wf_rows)

lemmas wf_operations = wf_statePut wf_stateGetOne wf_stateScanRange wf_stateDrain wf_stateDelete wf_putBatch
  wf_AggregateStateGet wf_TransactionStateGet wf_counters wf_ExecutionClear wf_queue wf_log

lemma wf_WorkerCollect: "preserves wf_tables (WorkerCollect e)"
  unfolding WorkerCollect_def by (intro preserves_obind wf_stateDrain preserves_oreturn)

lemmas store_definitions = WorkerPut_def WorkerScan_def ScanWorkerPut_def ScanWorkerScan_def stateScan_def
  AggregateStatePut_def AggregateStateClear_def AggregateConstArgsPut_def AggregateConstArgsGet_def
  AggregateWindowPartitionPut_def AggregateWindowPartitionGet_def AggregateWindowPartitionDelete_def
  AggregateWindowPartitionClear_def TransactionStatePut_def TransactionStateClear_def
  AttachStatePut_def AttachStateGet_def AttachStateScan_def AttachStateDeleteKey_def AttachStateDeleteNS_def
  AttachStateDeleteRange_def AttachStateDrain_def

lemma preservesD: "preserves I m \<Longrightarrow> I (tables db) \<Longrightarrow> I (tables (snd (m db)))"
  by (simp add: preserves_def)

lemma wf_store_step: "store_step db db' \<Longrightarrow> wf_tables (tables db) \<Longrightarrow> wf_tables (tables db')"
  by (induction rule: store_step.induct)
    (simp_all add: store_definitions preservesD wf_operations wf_WorkerCollect)

lemma reachable_wf: "reachable_store db \<Longrightarrow> wf_tables (tables db)"
proof (induction rule: reachable_store.induct)
  case (start fs)
  then show ?case by (simp add: wf_empty)
next
  case (step db db')
  then show ?case by (blast dest: wf_store_step)
qed

section \<open>The contract of a key/value store\<close>

locale kv_store =
  fixes ok :: "'s \<Rightarrow> bool"
    and lookup :: "'s \<Rightarrow> 'k \<rightharpoonup> 'v"
    and put :: "'k \<Rightarrow> 'v \<Rightarrow> 's \<Rightarrow> ('e + unit) \<times> 's"
    and get :: "'k \<Rightarrow> 's \<Rightarrow> ('e + 'v option) \<times> 's"
    and remove :: "('k \<Rightarrow> bool) \<Rightarrow> 's \<Rightarrow> ('e + unit) \<times> 's"
  assumes put_ok: "ok s \<Longrightarrow> \<exists>s'. put k v s = (Inr (), s') \<and> ok s' \<and> lookup s' = (lookup s)(k \<mapsto> v)"
    and get_ok: "ok s \<Longrightarrow> get k s = (Inr (lookup s k), s)"
    and remove_ok: "ok s \<Longrightarrow> \<exists>s'. remove P s = (Inr (), s') \<and> ok s' \<and> lookup s' = (\<lambda>k. if P k then None else lookup s k)"
begin

lemma get_put:
  assumes "ok s" "put k v s = (Inr (), s')"
  shows "get k' s' = (Inr (if k' = k then Some v else lookup s k'), s')"
  using put_ok [OF assms(1), of k v] assms(2) by (auto simp: get_ok)

lemma get_remove:
  assumes "ok s" "remove P s = (Inr (), s')"
  shows "get k s' = (Inr (if P k then None else lookup s k), s')"
  using remove_ok [OF assms(1), of P] assms(2) by (auto simp: get_ok)

lemma put_put:
  assumes "ok s" "put k v s = (Inr (), s1)" "put k w s1 = (Inr (), s2)"
  shows "lookup s2 = (lookup s)(k \<mapsto> w)"
  using put_ok [OF assms(1), of k v] put_ok [of s1 k w] assms(2,3) by auto

end

definition state_lookup :: "sqlite \<Rightarrow> row_key \<rightharpoonup> bytes" where
  "state_lookup db = map_of (function_state (tables db))"

interpretation state_kv: kv_store
  "\<lambda>db. faults db = []" state_lookup
  "\<lambda>(s, n, k) v. statePut s n k v"
  "\<lambda>(s, n, k). stateGetOne s n k"
  "\<lambda>P. statement (\<lambda>t. ((), deleteRows P t))"
  by unfold_locales
    (auto simp: statePut_def stateGetOne_def putRow_def deleteRows_def state_lookup_def update_conv' map_of_filter_keys)

section \<open>The contract of the work queue\<close>

text \<open>Popping a number of times, collecting the answers until the first failure.\<close>

primrec pops :: "('s \<Rightarrow> ('e + 'a option) \<times> 's) \<Rightarrow> nat \<Rightarrow> 's \<Rightarrow> 'a option list" where
  "pops pop 0 s = []"
| "pops pop (Suc n) s = (case pop s of (Inl e, s') \<Rightarrow> [] | (Inr x, s') \<Rightarrow> x # pops pop n s')"

locale fifo_queue =
  fixes ok :: "'s \<Rightarrow> bool"
    and contents :: "'s \<Rightarrow> 'q \<Rightarrow> 'a list"
    and push :: "'q \<Rightarrow> 'a list \<Rightarrow> 's \<Rightarrow> ('e + nat) \<times> 's"
    and pop :: "'q \<Rightarrow> 's \<Rightarrow> ('e + 'a option) \<times> 's"
  assumes push_ok: "ok s \<Longrightarrow>
      \<exists>s'. push q xs s = (Inr (length xs), s') \<and> ok s' \<and> contents s' = (contents s)(q := contents s q @ xs)"
    and pop_empty: "ok s \<Longrightarrow> contents s q = [] \<Longrightarrow> \<exists>s'. pop q s = (Inr None, s') \<and> ok s' \<and> contents s' = contents s"
    and pop_first: "ok s \<Longrightarrow> contents s q = x # xs \<Longrightarrow>
      \<exists>s'. pop q s = (Inr (Some x), s') \<and> ok s' \<and> contents s' = (contents s)(q := xs)"
begin

lemma pops_empty:
  assumes "ok s" "contents s q = []"
  shows "pops (pop q) n s = replicate n None"
  using assms
proof (induction n arbitrary: s)
  case (Suc n)
  obtain s' where "pop q s = (Inr None, s')" "ok s'" "contents s' = contents s"
    using pop_empty [OF Suc.prems] by blast
  then show ?case using Suc by simp
qed simp

lemma pops_in_order:
  assumes "ok s"
  shows "pops (pop q) (length (contents s q) + n) s = map Some (contents s q) @ replicate n None"
  using assms
proof (induction "contents s q" arbitrary: s)
  case Nil
  then show ?case using pops_empty [OF Nil(2), of q] by simp
next
  case (Cons x xs)
  obtain s' where s': "pop q s = (Inr (Some x), s')" "ok s'" "contents s' = (contents s)(q := xs)"
    using pop_first [OF Cons.prems, of q x xs] Cons(2) by metis
  then have "pops (pop q) (length xs + n) s' = map Some xs @ replicate n None"
    using Cons(1) [of s'] by simp
  then show ?case using s'(1) Cons(2) [symmetric] by simp
qed

lemma push_then_pops:
  assumes "ok s" "contents s q = []" "push q xs s = (Inr m, s')"
  shows "m = length xs \<and> pops (pop q) (length xs + n) s' = map Some xs @ replicate n None"
proof -
  have "m = length xs" "ok s'" "contents s' q = xs"
    using push_ok [OF assms(1), of q xs] assms(2,3) by auto
  then show ?thesis using pops_in_order [of s' q n] by simp
qed

end

lemma wf_queue_sorted:
  assumes "wf_tables t"
  shows "queueRows e t = filter (\<lambda>r. queue_execution r = e) (work_queue t)"
proof -
  have "sorted (map queue_id (filter (\<lambda>r. queue_execution r = e) (work_queue t)))"
    using assms sorted_wrt_map_filter [of "(<)" queue_id "work_queue t"]
    by (auto simp: wf_tables_def intro: strict_sorted_imp_sorted)
  then show ?thesis unfolding queueRows_def by (rule sort_key_id_if_sorted)
qed

lemma wf_queue_ids: "wf_tables t \<Longrightarrow> distinct (map queue_id (work_queue t))"
  by (simp add: wf_tables_def strict_sorted_iff)

lemma popRow_first:
  assumes "wf_tables t" "queueRows e t = r # rs"
  shows "fst (popRow e t) = Some (queue_item r) \<and>
    queueRows e' (snd (popRow e t)) = (if e' = e then rs else queueRows e' t)"
proof -
  let ?keep = "\<lambda>q. queue_id q \<noteq> queue_id r"
  let ?t = "t\<lparr>work_queue := filter ?keep (work_queue t)\<rparr>"
  have pop: "popRow e t = (Some (queue_item r), ?t)" using assms(2) by (simp add: popRow_def)
  have rows: "filter (\<lambda>q. queue_execution q = e) (work_queue t) = r # rs"
    using assms by (simp add: wf_queue_sorted)
  then have "r \<in> set (filter (\<lambda>q. queue_execution q = e) (work_queue t))" by simp
  then have r: "r \<in> set (work_queue t)" "queue_execution r = e" by simp_all
  have inj: "q = r" if "q \<in> set (work_queue t)" "queue_id q = queue_id r" for q
    using wf_queue_ids [OF assms(1)] that r(1) by (metis distinct_map inj_on_eq_iff)
  have new: "queueRows e' ?t = filter ?keep (filter (\<lambda>q. queue_execution q = e') (work_queue t))"
    using wf_filterQueue [OF assms(1), of ?keep] by (simp add: wf_queue_sorted conj_commute)
  show ?thesis
  proof (cases "e' = e")
    case True
    have "distinct (map queue_id (r # rs))"
      using distinct_map_filter [OF wf_queue_ids [OF assms(1)], of "\<lambda>q. queue_execution q = e"] rows by simp
    then have "filter ?keep rs = rs" by (auto simp: filter_id_conv) (metis imageI)
    then show ?thesis using True pop new rows by simp
  next
    case False
    then have "filter ?keep (filter (\<lambda>q. queue_execution q = e') (work_queue t)) =
        filter (\<lambda>q. queue_execution q = e') (work_queue t)"
      using inj r(2) unfolding filter_id_conv by auto
    then show ?thesis using False pop new assms(1) by (simp add: wf_queue_sorted)
  qed
qed

lemma queueRows_insert:
  "wf_tables t \<Longrightarrow> map queue_item (queueRows e' (insertQueue e item t)) =
     map queue_item (queueRows e' t) @ (if e' = e then [item] else [])"
  using wf_insertQueue [of t e item] by (simp add: wf_queue_sorted) (simp add: insertQueue_def)

lemma queueRows_inserts:
  "wf_tables t \<Longrightarrow> wf_tables (fold (insertQueue e) items t) \<and>
     map queue_item (queueRows e' (fold (insertQueue e) items t)) =
       map queue_item (queueRows e' t) @ (if e' = e then items else [])"
  by (induction items arbitrary: t) (auto simp: wf_insertQueue queueRows_insert)

definition queue_contents :: "sqlite \<Rightarrow> bytes \<Rightarrow> bytes list" where
  "queue_contents db e = map queue_item (queueRows e (tables db))"

interpretation work_queue_fifo: fifo_queue
  "\<lambda>db. faults db = [] \<and> wf_tables (tables db)" queue_contents QueuePush QueuePop
proof (unfold_locales, goal_cases)
  case (1 db e items)
  then show ?case
    by (auto simp: QueuePush_ok queue_contents_def queueRows_inserts fun_eq_iff)
next
  case (2 db e)
  then have "popRow e (tables db) = (None, tables db)" by (simp add: queue_contents_def popRow_def)
  then show ?case using 2 by (simp add: QueuePop_def)
next
  case (3 db e x xs)
  then obtain r rs where rows: "queueRows e (tables db) = r # rs" "queue_item r = x" "map queue_item rs = xs"
    by (auto simp: queue_contents_def)
  let ?db = "db\<lparr>tables := snd (popRow e (tables db))\<rparr>"
  have "QueuePop e db = (Inr (Some x), ?db)"
    using 3 popRow_first [OF _ rows(1)] rows(2) by (simp add: QueuePop_def)
  moreover have "wf_tables (tables ?db)" using 3 by (simp add: wf_popRow)
  moreover have "queue_contents ?db = (queue_contents db)(e := xs)"
    using 3 popRow_first [OF _ rows(1)] rows(3) by (auto simp: queue_contents_def fun_eq_iff)
  ultimately show ?case using 3 by auto
qed

section \<open>Facts about families and scans\<close>

lemma int64Key_inject [simp]: "int64Key a = int64Key b \<longleftrightarrow> a = b"
  by (simp add: int64Key_def)

lemma ns_distinct: "distinct [nsWorker, nsScanWorker, nsAgg, nsAggConst, nsWin, nsTxn, nsLog]"
  by (simp add: ns_defs)

lemma map_of_fold_putRow:
  "map_of (function_state (fold (\<lambda>(k, v). putRow k v) rows t)) = map_of (function_state t) ++ map_of (rev rows)"
proof (induction rows arbitrary: t)
  case (Cons r rows)
  obtain k v where r: "r = (k, v)" by (cases r)
  have "map_of (function_state (putRow k v t)) = (map_of (function_state t))(k \<mapsto> v)"
    by (simp add: putRow_def update_conv')
  then show ?case using Cons [of "putRow k v t"] by (auto simp: r map_add_def fun_eq_iff split: option.splits)
qed simp

lemma filter_update_other:
  "\<not> P (k, v) \<Longrightarrow> (\<And>w. \<not> P (k, w)) \<Longrightarrow> filter P (AList.update k v xs) = filter P xs"
  by (induction xs) auto

lemma nsRows_putRow_other:
  "(s, n) \<noteq> (s', n') \<Longrightarrow> nsRows s n (putRow (s', n', k) v t) = nsRows s n t"
  unfolding nsRows_def putRow_def by (auto simp: filter_update_other)

lemma nsRows_fold_putRow_other:
  "(\<And>s' n' k v. ((s', n', k), v) \<in> set rows \<Longrightarrow> (s, n) \<noteq> (s', n')) \<Longrightarrow>
   nsRows s n (fold (\<lambda>(k, v). putRow k v) rows t) = nsRows s n t"
proof (induction rows arbitrary: t)
  case (Cons r rows)
  obtain s' n' k v where r: "r = ((s', n', k), v)" by (cases r) auto
  then have "(s, n) \<noteq> (s', n')" using Cons.prems [of s' n' k v] by simp
  moreover have "nsRows s n (fold (\<lambda>(k, v). putRow k v) rows (putRow (s', n', k) v t)) =
      nsRows s n (putRow (s', n', k) v t)"
    by (rule Cons.IH) (erule Cons.prems [OF list.set_intros(2)])
  ultimately show ?case by (simp add: r nsRows_putRow_other)
qed simp

lemma AggregateStateGet_ok:
  "faults db = [] \<Longrightarrow> AggregateStateGet e gids db =
     (Inr (map (\<lambda>gid. case state_lookup db (e, nsAgg, int64Key gid) of
        None \<Rightarrow> \<lparr>GroupID = 0, State = None\<rparr> | Some s \<Rightarrow> \<lparr>GroupID = gid, State = Some s\<rparr>) gids), db)"
  by (induction gids) (simp_all add: stateGetOne_def state_lookup_def obind_def)

lemma TransactionStateGet_ok:
  "faults db = [] \<Longrightarrow> TransactionStateGet x ks db = (Inr (map (\<lambda>k. state_lookup db (x, nsTxn, k)) ks), db)"
  by (induction ks) (simp_all add: stateGetOne_def state_lookup_def obind_def)

lemma AggregateStatePut_ok:
  "faults db = [] \<Longrightarrow> AggregateStatePut e entries db =
     (Inr (), db\<lparr>tables := fold (\<lambda>(k, v). putRow k v)
        (map (\<lambda>(gid, s). ((e, nsAgg, int64Key gid), s)) entries) (tables db)\<rparr>)"
  by (simp add: AggregateStatePut_def putBatch_ok)

lemma map_of_map_key:
  assumes "inj f"
  shows "map_of (map (\<lambda>(k, v). (f k, v)) xs) (f x) = map_of xs x"
  using assms by (induction xs) (auto dest: injD)

lemma map_of_map_key_other:
  "x \<notin> range f \<Longrightarrow> map_of (map (\<lambda>(k, v). (f k, v)) xs) x = None"
  by (induction xs) auto

lemma set_nsRows: "(k, v) \<in> set (nsRows s n t) \<longleftrightarrow> ((s, n, k), v) \<in> set (function_state t)"
  unfolding nsRows_def by force

lemma distinct_nsRows:
  assumes "wf_tables t"
  shows "distinct (map fst (nsRows s n t))"
proof -
  let ?rows = "filter (\<lambda>((s', n', k), v). s' = s \<and> n' = n) (function_state t)"
  have "distinct (map fst ?rows)" using assms by (simp add: wf_tables_def distinct_map_filter)
  moreover have "map fst (nsRows s n t) = map (\<lambda>(s', n', k). k) (map fst ?rows)"
    by (auto simp: nsRows_def split: prod.splits)
  moreover have "inj_on (\<lambda>(s', n', k). k) (set (map fst ?rows))"
    by (auto simp: inj_on_def)
  ultimately show ?thesis by (metis distinct_map)
qed

lemma map_of_nsRows:
  assumes "wf_tables t"
  shows "map_of (nsRows s n t) k = map_of (function_state t) (s, n, k)"
proof -
  have "map_of (nsRows s n t) k = Some v \<longleftrightarrow> map_of (function_state t) (s, n, k) = Some v" for v
    using assms distinct_nsRows [OF assms, of s n]
    by (simp add: wf_tables_def set_nsRows map_of_eq_Some_iff)
  then show ?thesis by (metis not_None_eq)
qed

lemma strict_sorted_sort_key:
  assumes "distinct (map fst xs)"
  shows "sorted_wrt (<) (map fst (sort_key fst (xs :: (bytes \<times> bytes) list)))"
proof -
  have "distinct (map fst (sort_key fst xs))"
    using assms by (metis distinct_map distinct_sort set_sort)
  then show ?thesis by (simp add: strict_sorted_iff)
qed

lemma ExecutionClear_ok:
  assumes "faults db = []"
  shows "ExecutionClear e db =
    (Inr (length (filter (\<lambda>(k, v). fst k = e) (function_state (tables db)))
        + length (filter (\<lambda>r. log_scope r = e) (function_state_log (tables db)))
        + length (filter (\<lambda>(k, v). fst k = e) (function_counter (tables db)))),
     db\<lparr>tables := (tables db)\<lparr>
        function_state := filter (\<lambda>(k, v). fst k \<noteq> e) (function_state (tables db)),
        function_state_log := filter (\<lambda>r. log_scope r \<noteq> e) (function_state_log (tables db)),
        function_counter := filter (\<lambda>(k, v). fst k \<noteq> e) (function_counter (tables db))\<rparr>\<rparr>)"
  unfolding ExecutionClear_def
  by (rule transaction_ok) (use assms in \<open>simp_all add: deleteRows_def\<close>)

lemma wf_log_sorted:
  assumes "wf_tables t"
  shows "sort_key log_id (filter P (function_state_log t)) = filter P (function_state_log t)"
proof -
  have "sorted (map log_id (filter P (function_state_log t)))"
    using assms sorted_wrt_map_filter [of "(<)" log_id "function_state_log t"]
    by (auto simp: wf_tables_def intro: strict_sorted_imp_sorted)
  then show ?thesis by (rule sort_key_id_if_sorted)
qed

text \<open>Cutting a list that is strictly sorted by id at one of its own ids.\<close>

lemma filter_greater_last:
  fixes xs :: "'a list" and f :: "'a \<Rightarrow> nat"
  assumes "sorted_wrt (<) (map f (xs @ ys))" "xs \<noteq> []"
  shows "filter (\<lambda>r. f (last xs) < f r) (xs @ ys) = ys"
proof -
  have le: "f r \<le> f (last xs)" if "r \<in> set xs" for r
  proof -
    obtain zs z where xs: "xs = zs @ [z]" using assms(2) by (metis rev_exhaust)
    show ?thesis using that assms(1) by (auto simp: xs sorted_wrt_append intro: less_imp_le)
  qed
  have gt: "f (last xs) < f r" if "r \<in> set ys" for r
    using assms that by (auto simp: sorted_wrt_append)
  have "filter (\<lambda>r. f (last xs) < f r) xs = []" using le by (auto simp: filter_empty_conv not_less)
  moreover have "filter (\<lambda>r. f (last xs) < f r) ys = ys" using gt by (auto simp: filter_id_conv)
  ultimately show ?thesis by simp
qed






lemma logRows_append:
  assumes "wf_tables t" "appendLog e k v t = (i, t')"
  shows "list_all (\<lambda>r. log_id r < i) (function_state_log t)"
    and "logRows e' k' a 0 t' = logRows e' k' a 0 t @ (if e' = e \<and> k' = k \<and> a < int i then [(i, v)] else [])"
proof -
  have t': "t' = snd (appendLog e k v t)" using assms(2) by simp
  have i: "i = log_seq t + 1" using assms(2) by (auto simp: appendLog_def Let_def)
  show "list_all (\<lambda>r. log_id r < i) (function_state_log t)"
    using assms(1) by (auto simp: i wf_tables_def list_all_iff le_imp_less_Suc)
  have "wf_tables t'" using wf_appendLog [OF assms(1)] t' by simp
  then show "logRows e' k' a 0 t' = logRows e' k' a 0 t @ (if e' = e \<and> k' = k \<and> a < int i then [(i, v)] else [])"
    unfolding logRows_def limited_def
    by (simp add: wf_log_sorted assms(1)) (auto simp: t' appendLog_def Let_def i)
qed

lemma logRows_page:
  assumes "wf_tables t" "logRows e k a n t = page" "page \<noteq> []"
  shows "logRows e k a 0 t = page @ logRows e k (int (fst (last page))) 0 t"
proof -
  let ?P = "\<lambda>a r. log_scope r = e \<and> log_ns r = nsLog \<and> log_key r = k \<and> int (log_id r) > a"
  let ?row = "\<lambda>r. (log_id r, log_value r)"
  define all where "all = filter (?P a) (function_state_log t)"
  define m where "m = (if n > 0 then nat n else length all)"
  have rows: "logRows e k b 0 t = map ?row (filter (?P b) (function_state_log t))" for b
    by (simp add: logRows_def limited_def wf_log_sorted [OF assms(1)])
  have page: "page = map ?row (take m all)"
    using assms(2) by (auto simp: logRows_def limited_def wf_log_sorted [OF assms(1)] all_def m_def take_map)
  then have ne: "take m all \<noteq> []" using assms(3) by auto
  have last: "fst (last page) = log_id (last (take m all))"
    using ne by (simp add: page last_map)
  have sorted: "sorted_wrt (<) (map log_id (take m all @ drop m all))"
    using assms(1) by (simp add: all_def wf_tables_def sorted_wrt_map_filter)
  have "last (take m all) \<in> set (take m all)" using ne by simp
  then have "last (take m all) \<in> set all" by (rule in_set_takeD)
  then have "a < int (log_id (last (take m all)))" by (simp add: all_def)
  then have "filter (?P (int (log_id (last (take m all))))) (function_state_log t) =
      filter (\<lambda>r. log_id (last (take m all)) < log_id r) all"
    by (auto simp: all_def intro!: filter_cong)
  also have "\<dots> = drop m all"
    using filter_greater_last [OF sorted ne] by simp
  finally have "logRows e k (int (fst (last page))) 0 t = map ?row (drop m all)"
    by (simp add: rows last)
  moreover have "logRows e k a 0 t = map ?row (take m all @ drop m all)"
    by (simp add: rows all_def)
  ultimately show ?thesis by (simp only: page map_append)
qed

lemma rangeRows_set:
  assumes "wf_tables t" "Limit opts \<le> 0"
  shows "(k, v) \<in> set (rangeRows s n opts t) \<longleftrightarrow>
    map_of (function_state t) (s, n, k) = Some v \<and> inRange (Start opts) (End opts) k"
proof -
  have "(k, v) \<in> set (nsRows s n t) \<longleftrightarrow> map_of (function_state t) (s, n, k) = Some v"
    using assms(1) by (simp add: set_nsRows wf_tables_def)
  then show ?thesis using assms(2) by (simp add: rangeRows_def Let_def limited_def)
qed

lemma rangeRows_sorted:
  assumes "wf_tables t"
  shows "sorted_wrt (\<lambda>a b. if Reverse opts then b < a else a < b) (map fst (rangeRows s n opts t))"
proof -
  let ?asc = "sort_key fst (filter (\<lambda>(k, v). inRange (Start opts) (End opts) k) (nsRows s n t))"
  have asc: "sorted_wrt (<) (map fst ?asc)"
    by (intro strict_sorted_sort_key distinct_map_filter distinct_nsRows assms)
  have "sorted_wrt (\<lambda>a b. if Reverse opts then b < a else a < b)
      (map fst (if Reverse opts then rev ?asc else ?asc))"
    using asc by (auto simp: rev_map [symmetric] sorted_wrt_rev)
  then have "sorted_wrt (\<lambda>a b. if Reverse opts then b < a else a < b)
      (take m (map fst (if Reverse opts then rev ?asc else ?asc)))" for m
    by (rule sorted_wrt_take)
  then show ?thesis
    using \<open>sorted_wrt _ (map fst (if Reverse opts then rev ?asc else ?asc))\<close>
    by (auto simp: rangeRows_def Let_def limited_def take_map)
qed

section \<open>Properties\<close>


lemma reachable_one_push: "reachable_store one_push"
  unfolding one_push_def by (rule reachable_store.step [OF reachable_store.start store_step.intros(6)])

lemma faults_one_push: "faults one_push = []"
  by (simp add: one_push_def QueuePush_ok)



text \<open>
  C17. The work queue of an execution is first in, first out: in every reachable state with a working driver,
  pushing appends to that execution's queue and no other, and popping yields its items once each in the order
  they were pushed, then nil for ever.
\<close>
theorem work_queue_is_fifo:
  assumes "reachable_store db" "faults db = []"
  shows "queue_contents (snd (QueuePush e items db)) = (queue_contents db)(e := queue_contents db e @ items) \<and>
    pops (QueuePop e) (length (queue_contents db e) + n) db = map Some (queue_contents db e) @ replicate n None"
proof -
  have wf: "wf_tables (tables db)" using assms(1) by (rule reachable_wf)
  obtain db' where "QueuePush e items db = (Inr (length items), db')"
    "queue_contents db' = (queue_contents db)(e := queue_contents db e @ items)"
    using work_queue_fifo.push_ok [of db e items] wf assms(2) by blast
  then show ?thesis using work_queue_fifo.pops_in_order [of db e n] wf assms(2) by simp
qed

theorem work_queue_is_fifo_witness:
  "pops (QueuePop [1]) 3 one_push = [Some [7], Some [8], None]"
proof -
  have "queue_contents one_push [1] = [[7], [8]]"
    by (simp add: one_push_def QueuePush_ok queue_contents_def queueRows_def insertQueue_def empty_tables_def)
  then show ?thesis
    using work_queue_is_fifo [OF reachable_one_push faults_one_push, of "[1]" "[]" 1]
    by (simp add: numeral_3_eq_3)
qed

text \<open>
  C27. Reading back a batch: after storing aggregate states, asking for any list of groups answers in the same
  order with the last state stored for the group, else the state it had before, else an empty entry; the transaction
  values and the worker states of every scope, this execution's included, are untouched.
\<close>
theorem aggregate_state_read_back:
  assumes "faults db = []"
  shows "fst (AggregateStateGet e gids (snd (AggregateStatePut e entries db))) =
      Inr (map (\<lambda>gid.
        case (case map_of (rev entries) gid of Some s \<Rightarrow> Some s | None \<Rightarrow> state_lookup db (e, nsAgg, int64Key gid)) of
          None \<Rightarrow> \<lparr>GroupID = 0, State = None\<rparr>
        | Some s \<Rightarrow> \<lparr>GroupID = gid, State = Some s\<rparr>) gids) \<and>
    fst (TransactionStateGet x ks (snd (AggregateStatePut e entries db))) = fst (TransactionStateGet x ks db) \<and>
    fst (WorkerScan x (snd (AggregateStatePut e entries db))) = fst (WorkerScan x db)"
proof -
  define rows where "rows = map (\<lambda>(gid, s). ((e, nsAgg, int64Key gid), s)) entries"
  define db' where "db' = snd (AggregateStatePut e entries db)"
  have db': "tables db' = fold (\<lambda>(k, v). putRow k v) rows (tables db)" "faults db' = []"
    using assms by (simp_all add: db'_def AggregateStatePut_ok rows_def)
  have lookup: "state_lookup db' k = (case map_of (rev rows) k of Some s \<Rightarrow> Some s | None \<Rightarrow> state_lookup db k)" for k
    by (simp add: state_lookup_def db' map_of_fold_putRow map_add_def split: option.split)
  have rev: "rev rows = map (\<lambda>(gid, s). ((e, nsAgg, int64Key gid), s)) (rev entries)"
    by (simp add: rows_def rev_map)
  have mine: "map_of (rev rows) (e, nsAgg, int64Key gid) = map_of (rev entries) gid" for gid
    unfolding rev by (rule map_of_map_key) (auto simp: inj_def)
  have txn: "map_of (rev rows) (x, nsTxn, k) = None" for k
    unfolding rev by (rule map_of_map_key_other) (auto simp: ns_defs)
  have "nsRows x nsWorker (tables db') = nsRows x nsWorker (tables db)"
    unfolding db' by (rule nsRows_fold_putRow_other) (auto simp: rows_def ns_defs)
  then have "fst (WorkerScan x db') = fst (WorkerScan x db)"
    using assms db'(2) by (simp add: WorkerScan_def stateScan_def stateScanRange_def rangeRows_def)
  moreover have "fst (TransactionStateGet x ks db') = fst (TransactionStateGet x ks db)"
    using assms db'(2) by (simp add: TransactionStateGet_ok lookup txn)
  ultimately show ?thesis
    using db'(2) by (simp add: AggregateStateGet_ok lookup mine flip: db'_def)
qed

theorem aggregate_state_read_back_witness:
  "fst (AggregateStateGet [1] [5, 6] (snd (AggregateStatePut [1] [(5, [1]), (5, [2])]
     \<lparr>tables = empty_tables, faults = []\<rparr>))) =
   Inr [\<lparr>GroupID = 5, State = Some [2]\<rparr>, \<lparr>GroupID = 0, State = None\<rparr>]"
  using aggregate_state_read_back [of "\<lparr>tables = empty_tables, faults = []\<rparr>" "[1]" "[5, 6]" "[(5, [1]), (5, [2])]"]
  by (simp add: state_lookup_def empty_tables_def)

text \<open>
  Clearing an execution removes exactly its own state, log and counter rows and reports how many; rows of
  every other scope and all work queues stay as they were, and clearing again removes nothing.
\<close>
theorem execution_clear_exact:
  assumes "faults db = []" "ExecutionClear e db = (r, db')"
  shows "state_lookup db' = (\<lambda>k. if fst k = e then None else state_lookup db k) \<and>
    function_state_log (tables db') = filter (\<lambda>row. log_scope row \<noteq> e) (function_state_log (tables db)) \<and>
    map_of (function_counter (tables db')) =
      (\<lambda>k. if fst k = e then None else map_of (function_counter (tables db)) k) \<and>
    work_queue (tables db') = work_queue (tables db) \<and>
    r = Inr (length (filter (\<lambda>(k, v). fst k = e) (function_state (tables db)))
           + length (filter (\<lambda>row. log_scope row = e) (function_state_log (tables db)))
           + length (filter (\<lambda>(k, v). fst k = e) (function_counter (tables db)))) \<and>
    ExecutionClear e db' = (Inr 0, db')"
proof -
  note ok = ExecutionClear_ok [OF assms(1), of e]
  have r: "r = fst (ExecutionClear e db)" and db': "db' = snd (ExecutionClear e db)"
    using assms(2) by simp_all
  have "faults db' = []" by (simp add: db' ok assms(1))
  then have again: "ExecutionClear e db' = (Inr 0, db')"
    by (simp add: ExecutionClear_ok) (auto simp: db' ok filter_empty_conv)
  have "state_lookup db' = (\<lambda>k. if fst k = e then None else state_lookup db k)"
    "map_of (function_counter (tables db')) = (\<lambda>k. if fst k = e then None else map_of (function_counter (tables db)) k)"
    by (auto simp: db' ok state_lookup_def map_of_filter_keys fun_eq_iff)
  then show ?thesis using again by (simp add: r db' ok)
qed

theorem execution_clear_exact_witness:
  "state_lookup (snd (ExecutionClear [1] (snd (WorkerPut [2] [3] [4] one_push)))) ([2], nsWorker, [3]) = Some [4]"
proof -
  let ?db = "snd (WorkerPut [2] [3] [4] one_push)"
  have "faults ?db = []" by (simp add: WorkerPut_def statePut_def faults_one_push)
  moreover have "state_lookup ?db ([2], nsWorker, [3]) = Some [4]"
    by (simp add: WorkerPut_def statePut_def faults_one_push state_lookup_def putRow_def update_conv')
  ultimately show ?thesis
    using execution_clear_exact [of ?db "[1]" "fst (ExecutionClear [1] ?db)" "snd (ExecutionClear [1] ?db)"] by simp
qed

text \<open>
  The state log is append-only with a monotonic cursor: in every reachable state an append returns an id
  above every id in the log, and a scan of that log from any earlier cursor is the old scan followed by the new
  entry, while the scans of every other log are unchanged.
\<close>
theorem log_append_is_last:
  assumes "reachable_store db" "faults db = []" "StateAppend e k v db = (Inr i, db')"
  shows "list_all (\<lambda>r. log_id r < i) (function_state_log (tables db)) \<and>
    (\<exists>rows. fst (StateLogScan e' k' a 0 db) = Inr rows \<and>
       fst (StateLogScan e' k' a 0 db') = Inr (rows @ (if e' = e \<and> k' = k \<and> a < int i then [(i, v)] else [])))"
proof -
  have wf: "wf_tables (tables db)" using assms(1) by (rule reachable_wf)
  obtain t' where t': "appendLog e k v (tables db) = (i, t')" "db' = db\<lparr>tables := t'\<rparr>"
    using assms(2,3) by (cases "appendLog e k v (tables db)") (simp add: StateAppend_def)
  then show ?thesis
    using logRows_append [OF wf t'(1)] assms(2) by (simp add: StateLogScan_def)
qed

theorem log_append_is_last_witness:
  "\<exists>rows. fst (StateLogScan [1] [2] (-1) 0 one_push) = Inr rows \<and>
     fst (StateLogScan [1] [2] (-1) 0 (snd (StateAppend [1] [2] [3] one_push))) = Inr (rows @ [(1, [3])])"
proof -
  have "log_seq (tables one_push) = 0"
    by (simp add: one_push_def QueuePush_ok insertQueue_def empty_tables_def)
  then have "StateAppend [1] [2] [3] one_push = (Inr 1, snd (StateAppend [1] [2] [3] one_push))"
    by (simp add: StateAppend_def faults_one_push appendLog_def)
  from log_append_is_last [OF reachable_one_push faults_one_push this, of "[1]" "[2]" "-1"] show ?thesis by simp
qed

text \<open>
  Reading a log page by page loses and repeats nothing: a page of any limit, followed by everything after the
  last id of the page, is the whole scan from the same cursor.
\<close>
theorem log_pages_cover:
  assumes "reachable_store db" "faults db = []"
    and "fst (StateLogScan e k a n db) = Inr page" "page \<noteq> []"
  shows "\<exists>rest. fst (StateLogScan e k (int (fst (last page))) 0 db) = Inr rest \<and>
    fst (StateLogScan e k a 0 db) = Inr (page @ rest)"
  using logRows_page [OF reachable_wf [OF assms(1)], of e k a n page] assms(2-4)
  by (simp add: StateLogScan_def)

lemma two_entries_ok: "reachable_store two_entries" "faults two_entries = []"
  unfolding two_entries_def
  by (rule reachable_store.step [OF reachable_store.step [OF reachable_store.start store_step.intros(21)] store_step.intros(21)])
    (simp add: StateAppend_def)

theorem log_pages_cover_witness:
  "fst (StateLogScan [1] [2] (-1) 0 two_entries) = Inr [(1, [8]), (2, [9])]"
proof -
  have rows: "tables two_entries = \<lparr>function_state = [], function_state_log =
      [\<lparr>log_id = 1, log_scope = [1], log_ns = nsLog, log_key = [2], log_value = [8]\<rparr>,
       \<lparr>log_id = 2, log_scope = [1], log_ns = nsLog, log_key = [2], log_value = [9]\<rparr>],
      log_seq = 2, function_counter = [], work_queue = [], queue_seq = 0\<rparr>"
    by (simp add: two_entries_def StateAppend_def appendLog_def empty_tables_def)
  have "fst (StateLogScan [1] [2] (-1) 1 two_entries) = Inr [(1, [8])]"
    "fst (StateLogScan [1] [2] 1 0 two_entries) = Inr [(2, [9])]"
    by (simp_all del: scanRows.simps add: StateLogScan_def two_entries_ok rows logRows_def limited_def)
  then show ?thesis
    using log_pages_cover [OF two_entries_ok, of "[1]" "[2]" "-1" 1 "[(1, [8])]"] by simp
qed

text \<open>
  A range scan of attach state returns exactly the stored pairs of its (scope, namespace) whose key lies in the
  half-open range, in strictly ascending key order, or strictly descending when reversed; a positive
  limit keeps a prefix of that answer, and a drain returns the ascending scan and leaves the namespace empty.
\<close>
theorem attach_scan_exact:
  assumes "reachable_store db" "faults db = []" "Limit opts \<le> 0"
  shows "\<exists>rows. AttachStateScan s n opts db = (Inr rows, db) \<and>
    set rows = {(k, v). state_lookup db (s, n, k) = Some v \<and> inRange (Start opts) (End opts) k} \<and>
    sorted_wrt (\<lambda>a b. if Reverse opts then b < a else a < b) (map fst rows) \<and>
    AttachStateScan s n (opts\<lparr>Limit := 1 + int m\<rparr>) db = (Inr (take (Suc m) rows), db) \<and>
    (Start opts = None \<and> End opts = None \<and> \<not> Reverse opts \<longrightarrow>
      fst (AttachStateDrain s n db) = Inr rows \<and>
      state_lookup (snd (AttachStateDrain s n db)) =
        (\<lambda>(s', n', k). if s' = s \<and> n' = n then None else state_lookup db (s', n', k)))"
proof (intro exI [of _ "rangeRows s n opts (tables db)"] conjI impI)
  have wf: "wf_tables (tables db)" using assms(1) by (rule reachable_wf)
  let ?rows = "rangeRows s n opts (tables db)"
  show "AttachStateScan s n opts db = (Inr ?rows, db)"
    using assms(2) by (simp add: AttachStateScan_def stateScanRange_def)
  show "set ?rows = {(k, v). state_lookup db (s, n, k) = Some v \<and> inRange (Start opts) (End opts) k}"
    using rangeRows_set [OF wf assms(3)] by (auto simp: state_lookup_def)
  show "sorted_wrt (\<lambda>a b. if Reverse opts then b < a else a < b) (map fst ?rows)"
    by (rule rangeRows_sorted [OF wf])
  show "AttachStateScan s n (opts\<lparr>Limit := 1 + int m\<rparr>) db = (Inr (take (Suc m) ?rows), db)"
    using assms(2,3) by (simp add: AttachStateScan_def stateScanRange_def rangeRows_def Let_def limited_def nat_add_distrib)
  assume whole: "Start opts = None \<and> End opts = None \<and> \<not> Reverse opts"
  then have "?rows = sort_key fst (nsRows s n (tables db))"
    using assms(3) by (simp add: rangeRows_def limited_def inRange_def)
  then show "fst (AttachStateDrain s n db) = Inr ?rows"
    using assms(2) by (simp add: AttachStateDrain_def stateDrain_def)
  show "state_lookup (snd (AttachStateDrain s n db)) =
      (\<lambda>(s', n', k). if s' = s \<and> n' = n then None else state_lookup db (s', n', k))"
    using assms(2)
    by (auto simp: AttachStateDrain_def stateDrain_def deleteRows_def state_lookup_def map_of_filter_keys fun_eq_iff)
qed

theorem attach_scan_exact_witness:
  "\<exists>rows. AttachStateScan [1] [2] \<lparr>Start = None, End = None, Reverse = False, Limit = 0\<rparr> one_push = (Inr rows, one_push) \<and>
    set rows = {(k, v). state_lookup one_push ([1], [2], k) = Some v \<and> inRange None None k}"
  using attach_scan_exact [OF reachable_one_push faults_one_push, of "\<lparr>Start = None, End = None, Reverse = False, Limit = 0\<rparr>" "[1]" "[2]"]
  by auto

end
