(* ===== verification/ExecutionStore.thy ===== *)
theory ExecutionStore
  imports FunctionStore Envelope
begin

text \<open>
  \<open>vgi/storage.go\<close>, \<open>vgi/aggregate_storage.go\<close> and \<open>vgi/shardkey.go\<close>: the views of the shared storage that
  functions and aggregates work with.

  The Go interface \<open>FunctionStorage\<close> is the record \<open>function_storage\<close> of its methods over a state \<open>'s\<close>; its optional
  capabilities are optional fields. \<open>sqlite_storage\<close> is the SQLite implementation. An \<open>execution_storage\<close> binds a
  backend to one execution, shard and substream; a \<open>state_bucket\<close> binds the aggregate methods. The process id
  and the Arrow codec of batches are arguments.
\<close>

section \<open>The storage interface\<close>

type_synonym ('s, 'a) sop = "'s \<Rightarrow> (db_err + 'a) \<times> 's"

record 's state_log_storage =
  sl_Append :: "bytes \<Rightarrow> bytes \<Rightarrow> bytes \<Rightarrow> ('s, nat) sop"
  sl_Scan :: "bytes \<Rightarrow> bytes \<Rightarrow> int \<Rightarrow> int \<Rightarrow> ('s, (nat \<times> bytes) list) sop"
  sl_Clear :: "bytes \<Rightarrow> ('s, unit) sop"

record 's attach_state_storage =
  as_Put :: "bytes \<Rightarrow> bytes \<Rightarrow> bytes \<Rightarrow> bytes \<Rightarrow> ('s, unit) sop"
  as_Get :: "bytes \<Rightarrow> bytes \<Rightarrow> bytes \<Rightarrow> ('s, bytes option) sop"
  as_Scan :: "bytes \<Rightarrow> bytes \<Rightarrow> scan_options \<Rightarrow> ('s, (bytes \<times> bytes) list) sop"
  as_DeleteKey :: "bytes \<Rightarrow> bytes \<Rightarrow> bytes \<Rightarrow> ('s, unit) sop"
  as_DeleteNS :: "bytes \<Rightarrow> bytes \<Rightarrow> ('s, unit) sop"
  as_DeleteRange :: "bytes \<Rightarrow> bytes \<Rightarrow> bytes option \<Rightarrow> bytes option \<Rightarrow> ('s, nat) sop"
  as_Drain :: "bytes \<Rightarrow> bytes \<Rightarrow> ('s, (bytes \<times> bytes) list) sop"
  as_CounterGet :: "bytes \<Rightarrow> bytes \<Rightarrow> bytes \<Rightarrow> ('s, int) sop"
  as_CounterAdd :: "bytes \<Rightarrow> bytes \<Rightarrow> bytes \<Rightarrow> int \<Rightarrow> ('s, int) sop"
  as_CounterSet :: "bytes \<Rightarrow> bytes \<Rightarrow> bytes \<Rightarrow> int \<Rightarrow> ('s, unit) sop"
  as_CounterDelete :: "bytes \<Rightarrow> bytes \<Rightarrow> bytes \<Rightarrow> ('s, unit) sop"

record 's function_storage =
  fs_WorkerPut :: "bytes \<Rightarrow> bytes \<Rightarrow> bytes \<Rightarrow> ('s, unit) sop"
  fs_WorkerCollect :: "bytes \<Rightarrow> ('s, bytes list) sop"
  fs_WorkerScan :: "bytes \<Rightarrow> ('s, (bytes \<times> bytes) list) sop"
  fs_QueuePush :: "bytes \<Rightarrow> bytes list \<Rightarrow> ('s, nat) sop"
  fs_QueuePop :: "bytes \<Rightarrow> ('s, bytes option) sop"
  fs_QueueClear :: "bytes \<Rightarrow> ('s, nat) sop"
  fs_AggregateStateGet :: "bytes \<Rightarrow> int64 list \<Rightarrow> ('s, agg_entry list) sop"
  fs_AggregateStatePut :: "bytes \<Rightarrow> (int64 \<times> bytes) list \<Rightarrow> ('s, unit) sop"
  fs_AggregateStateClear :: "bytes \<Rightarrow> ('s, unit) sop"
  fs_AggregateConstArgsPut :: "bytes \<Rightarrow> string \<Rightarrow> bytes \<Rightarrow> ('s, unit) sop"
  fs_AggregateConstArgsGet :: "bytes \<Rightarrow> string \<Rightarrow> ('s, bytes option) sop"
  fs_WindowPartitionPut :: "bytes \<Rightarrow> int64 \<Rightarrow> bytes \<Rightarrow> ('s, unit) sop"
  fs_WindowPartitionGet :: "bytes \<Rightarrow> int64 \<Rightarrow> ('s, bytes option) sop"
  fs_WindowPartitionDelete :: "bytes \<Rightarrow> int64 \<Rightarrow> ('s, unit) sop"
  fs_WindowPartitionClear :: "bytes \<Rightarrow> ('s, unit) sop"
  fs_ExecutionClear :: "bytes \<Rightarrow> ('s, nat) sop"
  fs_StateLog :: "'s state_log_storage option"
  fs_AttachState :: "'s attach_state_storage option"

definition sqlite_storage :: "sqlite function_storage" where
  "sqlite_storage = \<lparr>
     fs_WorkerPut = WorkerPut, fs_WorkerCollect = WorkerCollect, fs_WorkerScan = WorkerScan,
     fs_QueuePush = QueuePush, fs_QueuePop = QueuePop, fs_QueueClear = QueueClear,
     fs_AggregateStateGet = AggregateStateGet, fs_AggregateStatePut = AggregateStatePut,
     fs_AggregateStateClear = AggregateStateClear, fs_AggregateConstArgsPut = AggregateConstArgsPut,
     fs_AggregateConstArgsGet = AggregateConstArgsGet, fs_WindowPartitionPut = AggregateWindowPartitionPut,
     fs_WindowPartitionGet = AggregateWindowPartitionGet, fs_WindowPartitionDelete = AggregateWindowPartitionDelete,
     fs_WindowPartitionClear = AggregateWindowPartitionClear, fs_ExecutionClear = ExecutionClear,
     fs_StateLog = Some \<lparr>sl_Append = StateAppend, sl_Scan = StateLogScan, sl_Clear = StateLogClear\<rparr>,
     fs_AttachState = Some \<lparr>as_Put = AttachStatePut, as_Get = AttachStateGet, as_Scan = AttachStateScan,
       as_DeleteKey = AttachStateDeleteKey, as_DeleteNS = AttachStateDeleteNS,
       as_DeleteRange = AttachStateDeleteRange, as_Drain = AttachStateDrain,
       as_CounterGet = AttachCounterGet, as_CounterAdd = AttachCounterAdd,
       as_CounterSet = AttachCounterSet, as_CounterDelete = AttachCounterDelete\<rparr>\<rparr>"

datatype store_err =
    BackendNotSet
  | StorageNotInitialized
  | AttachStateUnsupported
  | StateLogUnsupported
  | ResolverNotSet
  | ResolverFailed
  | SerializingBatch nat
  | DeserializingBatch
  | BackendError db_err

text \<open>A method call through the interface, its error passed on.\<close>

definition call :: "('s, 'a) sop \<Rightarrow> 's \<Rightarrow> (store_err + 'a) \<times> 's" where
  "call m s = (case m s of (Inl e, s') \<Rightarrow> (Inl (BackendError e), s') | (Inr x, s') \<Rightarrow> (Inr x, s'))"

section \<open>Storage of one execution\<close>

text \<open>A backend: its methods, and \<open>ForShard\<close> when it routes remotely.\<close>

type_synonym 's storage_backend = "'s function_storage \<times> (string \<Rightarrow> 's function_storage) option"

record 's execution_storage =
  es_back :: "'s storage_backend option"
  executionID :: "bytes option"
  shardKey :: string
  substreamID :: bytes

definition NewExecutionStorage :: "'s execution_storage" where
  "NewExecutionStorage = \<lparr>es_back = None, executionID = None, shardKey = [], substreamID = []\<rparr>"

definition SetBackend :: "'s execution_storage \<Rightarrow> 's storage_backend \<Rightarrow> 's execution_storage" where
  "SetBackend es b = es\<lparr>es_back := Some b\<rparr>"

definition SetExecutionID :: "'s execution_storage \<Rightarrow> bytes \<Rightarrow> 's execution_storage" where
  "SetExecutionID es execID = es\<lparr>executionID := Some execID\<rparr>"

definition SetShardKey :: "'s execution_storage \<Rightarrow> string \<Rightarrow> 's execution_storage" where
  "SetShardKey es key = es\<lparr>shardKey := key\<rparr>"

definition forSubstream :: "'s execution_storage \<Rightarrow> bytes \<Rightarrow> 's execution_storage" where
  "forSubstream es sub =
     (if length sub = 0 then es
      else \<lparr>es_back = es_back es, executionID = executionID es, shardKey = shardKey es, substreamID = sub\<rparr>)"

definition workerKey :: "int64 \<Rightarrow> 's execution_storage \<Rightarrow> bytes" where
  "workerKey pid es = (if length (substreamID es) > 0 then substreamID es else int64Key pid)"

definition resolve :: "'s execution_storage \<Rightarrow> store_err + ('s function_storage \<times> bytes)" where
  "resolve es =
     (case es_back es of
        None \<Rightarrow> Inl BackendNotSet
      | Some (b, forShard) \<Rightarrow>
          (case executionID es of
             None \<Rightarrow> Inl StorageNotInitialized
           | Some exec \<Rightarrow>
               Inr (if shardKey es \<noteq> [] then (case forShard of Some f \<Rightarrow> f (shardKey es) | None \<Rightarrow> b) else b, exec)))"

text \<open>Running a method on the resolved backend.\<close>

definition resolved ::
  "'s execution_storage \<Rightarrow> ('s function_storage \<Rightarrow> bytes \<Rightarrow> 's \<Rightarrow> (store_err + 'a) \<times> 's) \<Rightarrow> 's \<Rightarrow> (store_err + 'a) \<times> 's" where
  "resolved es f s = (case resolve es of Inl e \<Rightarrow> (Inl e, s) | Inr (b, exec) \<Rightarrow> f b exec s)"

definition ES_QueuePush :: "'s execution_storage \<Rightarrow> bytes list \<Rightarrow> 's \<Rightarrow> (store_err + unit) \<times> 's" where
  "ES_QueuePush es items = resolved es (\<lambda>b exec s.
     case call (fs_QueuePush b exec items) s of (Inl e, s') \<Rightarrow> (Inl e, s') | (Inr _, s') \<Rightarrow> (Inr (), s'))"

definition ES_QueuePop :: "'s execution_storage \<Rightarrow> 's \<Rightarrow> (store_err + bytes option) \<times> 's" where
  "ES_QueuePop es = resolved es (\<lambda>b exec. call (fs_QueuePop b exec))"

fun serializeBatches :: "('b \<Rightarrow> bytes option) \<Rightarrow> nat \<Rightarrow> 'b list \<Rightarrow> store_err + bytes list" where
  "serializeBatches ser i [] = Inr []"
| "serializeBatches ser i (b # bs) =
     (case ser b of
        None \<Rightarrow> Inl (SerializingBatch i)
      | Some data \<Rightarrow> rbind (serializeBatches ser (Suc i) bs) (\<lambda>items. Inr (data # items)))"

definition QueuePushBatches ::
  "('b \<Rightarrow> bytes option) \<Rightarrow> 's execution_storage \<Rightarrow> 'b list \<Rightarrow> 's \<Rightarrow> (store_err + unit) \<times> 's" where
  "QueuePushBatches ser es batches s =
     (case serializeBatches ser 0 batches of Inl e \<Rightarrow> (Inl e, s) | Inr items \<Rightarrow> ES_QueuePush es items s)"

definition QueuePopBatch ::
  "(bytes \<Rightarrow> 'b option) \<Rightarrow> 's execution_storage \<Rightarrow> 's \<Rightarrow> (store_err + 'b option) \<times> 's" where
  "QueuePopBatch deser es s =
     (case ES_QueuePop es s of
        (Inl e, s') \<Rightarrow> (Inl e, s')
      | (Inr None, s') \<Rightarrow> (Inr None, s')
      | (Inr (Some data), s') \<Rightarrow>
          (case deser data of None \<Rightarrow> (Inl DeserializingBatch, s') | Some b \<Rightarrow> (Inr (Some b), s')))"

definition stateLog ::
  "'s execution_storage \<Rightarrow> ('s state_log_storage \<Rightarrow> bytes \<Rightarrow> ('s, 'a) sop) \<Rightarrow> 's \<Rightarrow> (store_err + 'a) \<times> 's" where
  "stateLog es f = resolved es (\<lambda>b exec s.
     case fs_StateLog b of None \<Rightarrow> (Inl StateLogUnsupported, s) | Some sl \<Rightarrow> call (f sl exec) s)"

definition ES_StateAppend :: "'s execution_storage \<Rightarrow> bytes \<Rightarrow> bytes \<Rightarrow> 's \<Rightarrow> (store_err + nat) \<times> 's" where
  "ES_StateAppend es key v = stateLog es (\<lambda>sl exec. sl_Append sl exec key v)"

definition ES_StateLogScan ::
  "'s execution_storage \<Rightarrow> bytes \<Rightarrow> int \<Rightarrow> int \<Rightarrow> 's \<Rightarrow> (store_err + (nat \<times> bytes) list) \<times> 's" where
  "ES_StateLogScan es key afterID limit = stateLog es (\<lambda>sl exec. sl_Scan sl exec key afterID limit)"

definition ES_StateLogClear :: "'s execution_storage \<Rightarrow> 's \<Rightarrow> (store_err + unit) \<times> 's" where
  "ES_StateLogClear es = stateLog es (\<lambda>sl exec. sl_Clear sl exec)"

definition Put :: "int64 \<Rightarrow> 's execution_storage \<Rightarrow> bytes \<Rightarrow> 's \<Rightarrow> (store_err + unit) \<times> 's" where
  "Put pid es data = resolved es (\<lambda>b exec. call (fs_WorkerPut b exec (workerKey pid es) data))"

definition Snapshot :: "'s execution_storage \<Rightarrow> 's \<Rightarrow> (store_err + bytes list) \<times> 's" where
  "Snapshot es = resolved es (\<lambda>b exec s.
     case call (fs_WorkerScan b exec) s of
       (Inl e, s') \<Rightarrow> (Inl e, s')
     | (Inr entries, s') \<Rightarrow> (Inr (map snd entries), s'))"

definition Collect :: "'s execution_storage \<Rightarrow> 's \<Rightarrow> (store_err + bytes list) \<times> 's" where
  "Collect es = resolved es (\<lambda>b exec. call (fs_WorkerCollect b exec))"

definition Cleanup :: "'s execution_storage \<Rightarrow> 's \<Rightarrow> 's" where
  "Cleanup es s =
     (case resolve es of
        Inl _ \<Rightarrow> s
      | Inr (b, exec) \<Rightarrow> snd (fs_QueueClear b exec (snd (fs_ExecutionClear b exec s))))"

section \<open>Attach stores\<close>

definition newAttachStore :: "'s storage_backend option \<Rightarrow> bytes \<Rightarrow> store_err + ('s attach_state_storage \<times> bytes)" where
  "newAttachStore b scope =
     (case b of
        None \<Rightarrow> Inl BackendNotSet
      | Some (b, _) \<Rightarrow> (case fs_AttachState b of None \<Rightarrow> Inl AttachStateUnsupported | Some as \<Rightarrow> Inr (as, scope)))"

definition AttachStore :: "'s execution_storage \<Rightarrow> bytes \<Rightarrow> store_err + ('s attach_state_storage \<times> bytes)" where
  "AttachStore es scope = newAttachStore (es_back es) scope"

datatype scan_option =
    WithStart bytes | WithEnd bytes | WithRange "bytes option" "bytes option" | WithReverse | WithLimit int

fun applyScanOption :: "scan_option \<Rightarrow> scan_options \<Rightarrow> scan_options" where
  "applyScanOption (WithStart a) opts = opts\<lparr>Start := Some a\<rparr>"
| "applyScanOption (WithEnd b) opts = opts\<lparr>End := Some b\<rparr>"
| "applyScanOption (WithRange a b) opts = opts\<lparr>Start := a, End := b\<rparr>"
| "applyScanOption WithReverse opts = opts\<lparr>Reverse := True\<rparr>"
| "applyScanOption (WithLimit n) opts = opts\<lparr>Limit := n\<rparr>"

definition AS_Put :: "'s attach_state_storage \<times> bytes \<Rightarrow> bytes \<Rightarrow> bytes \<Rightarrow> bytes \<Rightarrow> ('s, unit) sop" where
  "AS_Put a ns key v = as_Put (fst a) (snd a) ns key v"

definition AS_Get :: "'s attach_state_storage \<times> bytes \<Rightarrow> bytes \<Rightarrow> bytes \<Rightarrow> ('s, bytes option) sop" where
  "AS_Get a ns key = as_Get (fst a) (snd a) ns key"

definition AS_Scan :: "'s attach_state_storage \<times> bytes \<Rightarrow> bytes \<Rightarrow> scan_option list \<Rightarrow> ('s, (bytes \<times> bytes) list) sop" where
  "AS_Scan a ns opts = as_Scan (fst a) (snd a) ns
     (fold applyScanOption opts \<lparr>Start = None, End = None, Reverse = False, Limit = 0\<rparr>)"

definition AS_DeleteKey :: "'s attach_state_storage \<times> bytes \<Rightarrow> bytes \<Rightarrow> bytes \<Rightarrow> ('s, unit) sop" where
  "AS_DeleteKey a ns key = as_DeleteKey (fst a) (snd a) ns key"

definition AS_DeleteNS :: "'s attach_state_storage \<times> bytes \<Rightarrow> bytes \<Rightarrow> ('s, unit) sop" where
  "AS_DeleteNS a ns = as_DeleteNS (fst a) (snd a) ns"

definition AS_DeleteRange :: "'s attach_state_storage \<times> bytes \<Rightarrow> bytes \<Rightarrow> bytes option \<Rightarrow> bytes option \<Rightarrow> ('s, nat) sop" where
  "AS_DeleteRange a ns start stop = as_DeleteRange (fst a) (snd a) ns start stop"

definition AS_Drain :: "'s attach_state_storage \<times> bytes \<Rightarrow> bytes \<Rightarrow> ('s, (bytes \<times> bytes) list) sop" where
  "AS_Drain a ns = as_Drain (fst a) (snd a) ns"

definition AS_CounterGet :: "'s attach_state_storage \<times> bytes \<Rightarrow> bytes \<Rightarrow> bytes \<Rightarrow> ('s, int) sop" where
  "AS_CounterGet a ns key = as_CounterGet (fst a) (snd a) ns key"

definition AS_CounterAdd :: "'s attach_state_storage \<times> bytes \<Rightarrow> bytes \<Rightarrow> bytes \<Rightarrow> int \<Rightarrow> ('s, int) sop" where
  "AS_CounterAdd a ns key delta = as_CounterAdd (fst a) (snd a) ns key delta"

definition AS_CounterSet :: "'s attach_state_storage \<times> bytes \<Rightarrow> bytes \<Rightarrow> bytes \<Rightarrow> int \<Rightarrow> ('s, unit) sop" where
  "AS_CounterSet a ns key v = as_CounterSet (fst a) (snd a) ns key v"

definition AS_CounterDelete :: "'s attach_state_storage \<times> bytes \<Rightarrow> bytes \<Rightarrow> bytes \<Rightarrow> ('s, unit) sop" where
  "AS_CounterDelete a ns key = as_CounterDelete (fst a) (snd a) ns key"

section \<open>Aggregate storage\<close>

text \<open>
  The lazily resolved backend: the cached one, and the resolver the worker sets, whose outcome
  is an argument (\<open>None\<close> is no resolver, \<open>Some None\<close> one that fails).
\<close>

record 's aggregate_storage =
  agg_back :: "'s storage_backend option"
  agg_resolve :: "'s storage_backend option option"

definition newAggregateStorage :: "'s aggregate_storage" where
  "newAggregateStorage = \<lparr>agg_back = None, agg_resolve = None\<rparr>"

definition setResolver :: "'s aggregate_storage \<Rightarrow> 's storage_backend option \<Rightarrow> 's aggregate_storage" where
  "setResolver a r = a\<lparr>agg_resolve := Some r\<rparr>"

definition ensureOpen :: "'s aggregate_storage \<Rightarrow> (store_err + 's storage_backend) \<times> 's aggregate_storage" where
  "ensureOpen a =
     (case agg_back a of
        Some b \<Rightarrow> (Inr b, a)
      | None \<Rightarrow>
          (case agg_resolve a of
             None \<Rightarrow> (Inl ResolverNotSet, a)
           | Some None \<Rightarrow> (Inl ResolverFailed, a)
           | Some (Some b) \<Rightarrow> (Inr b, a\<lparr>agg_back := Some b\<rparr>)))"

record 's state_bucket =
  bucketStorage :: "'s aggregate_storage"
  functionName :: string
  bucketExecution :: bytes
  bucketShardKey :: string

definition bucket :: "'s aggregate_storage \<Rightarrow> string \<Rightarrow> bytes \<Rightarrow> string \<Rightarrow> 's state_bucket" where
  "bucket a funcName execID key =
     \<lparr>bucketStorage = a, functionName = funcName, bucketExecution = execID, bucketShardKey = key\<rparr>"

definition backend :: "'s state_bucket \<Rightarrow> store_err + 's function_storage" where
  "backend bk =
     (case fst (ensureOpen (bucketStorage bk)) of
        Inl e \<Rightarrow> Inl e
      | Inr (b, forShard) \<Rightarrow>
          Inr (if bucketShardKey bk \<noteq> [] then (case forShard of Some f \<Rightarrow> f (bucketShardKey bk) | None \<Rightarrow> b) else b))"

definition onBackend ::
  "'s state_bucket \<Rightarrow> ('s function_storage \<Rightarrow> 's \<Rightarrow> (store_err + 'a) \<times> 's) \<Rightarrow> 's \<Rightarrow> (store_err + 'a) \<times> 's" where
  "onBackend bk f s = (case backend bk of Inl e \<Rightarrow> (Inl e, s) | Inr b \<Rightarrow> f b s)"

text \<open>The returned Go map: the last entry for a group wins; entries without state are skipped.\<close>

definition entriesMap :: "agg_entry list \<Rightarrow> (int64 \<rightharpoonup> bytes)" where
  "entriesMap entries = fold (\<lambda>e m. case State e of None \<Rightarrow> m | Some s \<Rightarrow> m(GroupID e \<mapsto> s)) entries Map.empty"

definition loadStates :: "'s state_bucket \<Rightarrow> int64 list \<Rightarrow> 's \<Rightarrow> (store_err + (int64 \<rightharpoonup> bytes)) \<times> 's" where
  "loadStates bk gids = onBackend bk (\<lambda>b s.
     if length gids = 0 then (Inr Map.empty, s)
     else case call (fs_AggregateStateGet b (bucketExecution bk) gids) s of
       (Inl e, s') \<Rightarrow> (Inl e, s')
     | (Inr entries, s') \<Rightarrow> (Inr (entriesMap entries), s'))"

text \<open>The argument is the Go map as an association list in the order it is iterated.\<close>

definition saveStates :: "'s state_bucket \<Rightarrow> (int64 \<times> bytes) list \<Rightarrow> 's \<Rightarrow> (store_err + unit) \<times> 's" where
  "saveStates bk states = onBackend bk (\<lambda>b s.
     if length states = 0 then (Inr (), s)
     else call (fs_AggregateStatePut b (bucketExecution bk) states) s)"

definition clearBucket :: "'s state_bucket \<Rightarrow> 's \<Rightarrow> (store_err + unit) \<times> 's" where
  "clearBucket bk = onBackend bk (\<lambda>b s.
     case call (fs_AggregateStateClear b (bucketExecution bk)) s of
       (Inl e, s') \<Rightarrow> (Inl e, s')
     | (Inr _, s') \<Rightarrow> call (fs_WindowPartitionClear b (bucketExecution bk)) s')"

definition putConstArgs :: "'s state_bucket \<Rightarrow> bytes \<Rightarrow> 's \<Rightarrow> (store_err + unit) \<times> 's" where
  "putConstArgs bk args = onBackend bk (\<lambda>b. call (fs_AggregateConstArgsPut b (bucketExecution bk) (functionName bk) args))"

definition getConstArgs :: "'s state_bucket \<Rightarrow> 's \<Rightarrow> (store_err + bytes option) \<times> 's" where
  "getConstArgs bk = onBackend bk (\<lambda>b. call (fs_AggregateConstArgsGet b (bucketExecution bk) (functionName bk)))"

definition putWindowPartition :: "'s state_bucket \<Rightarrow> int64 \<Rightarrow> bytes \<Rightarrow> 's \<Rightarrow> (store_err + unit) \<times> 's" where
  "putWindowPartition bk i payload = onBackend bk (\<lambda>b. call (fs_WindowPartitionPut b (bucketExecution bk) i payload))"

definition getWindowPartition :: "'s state_bucket \<Rightarrow> int64 \<Rightarrow> 's \<Rightarrow> (store_err + bytes option) \<times> 's" where
  "getWindowPartition bk i = onBackend bk (\<lambda>b. call (fs_WindowPartitionGet b (bucketExecution bk) i))"

definition deleteWindowPartition :: "'s state_bucket \<Rightarrow> int64 \<Rightarrow> 's \<Rightarrow> (store_err + unit) \<times> 's" where
  "deleteWindowPartition bk i = onBackend bk (\<lambda>b. call (fs_WindowPartitionDelete b (bucketExecution bk) i))"

section \<open>Shard keys\<close>

definition deriveShardKey :: "bytes \<Rightarrow> opaque_err + string" where
  "deriveShardKey attachUUID =
     (if length attachUUID \<noteq> attachUUIDLen then Inl (ShardKeyLength (length attachUUID)) else Inr (''att-'' @ hex_encode attachUUID))"

definition shardKeyForAttach ::
  "aead \<Rightarrow> 'w worker_scheme \<Rightarrow> bytes \<Rightarrow> call_context option \<Rightarrow> opaque_err + string" where
  "shardKeyForAttach A w sealed cc =
     (if length sealed = 0 then Inr []
      else rbind (openAttachFull A w sealed cc) (\<lambda>full.
        if length full < attachUUIDLen then Inr [] else deriveShardKey (take attachUUIDLen full)))"

definition shardKeyForAttachPtr ::
  "aead \<Rightarrow> 'w worker_scheme \<Rightarrow> bytes option \<Rightarrow> call_context option \<Rightarrow> opaque_err + string" where
  "shardKeyForAttachPtr A w sealed cc =
     (case sealed of None \<Rightarrow> Inr [] | Some b \<Rightarrow> shardKeyForAttach A w b cc)"

text \<open>An envelope of an empty plaintext opens as nil, which falls back too.\<close>

definition attachScopeForPtr ::
  "aead \<Rightarrow> 'w worker_scheme \<Rightarrow> bytes option \<Rightarrow> call_context option \<Rightarrow> bytes \<Rightarrow> bytes" where
  "attachScopeForPtr A w sealed cc fallback =
     (case sealed of
        None \<Rightarrow> fallback
      | Some b \<Rightarrow>
          if length b = 0 then fallback
          else case openAttach A w b cc of
            Inl _ \<Rightarrow> fallback
          | Inr plain \<Rightarrow> if openAttachFull A w b cc = Inr [] then fallback else plain)"

text \<open>The SQLite-backed storage of one execution, and a sequence of stores by its streams.\<close>

definition bound_to :: "sqlite execution_storage \<Rightarrow> bytes \<Rightarrow> bool" where
  "bound_to es e \<longleftrightarrow> es_back es = Some (sqlite_storage, None) \<and> executionID es = Some e"

definition putAll ::
  "int64 \<Rightarrow> sqlite execution_storage \<Rightarrow> (bytes \<times> bytes) list \<Rightarrow> sqlite \<Rightarrow> sqlite" where
  "putAll pid es ps = fold (\<lambda>(sub, data) db. snd (Put pid (forSubstream es sub) data db)) ps"

section \<open>Views of a store are stores\<close>

text \<open>An injective renaming of keys turns a key/value store into a key/value store.\<close>

locale kv_view = kv_store ok lookup put get remove
  for ok :: "'s \<Rightarrow> bool"
    and lookup :: "'s \<Rightarrow> 'k \<rightharpoonup> 'v"
    and put :: "'k \<Rightarrow> 'v \<Rightarrow> 's \<Rightarrow> ('e + unit) \<times> 's"
    and get :: "'k \<Rightarrow> 's \<Rightarrow> ('e + 'v option) \<times> 's"
    and remove :: "('k \<Rightarrow> bool) \<Rightarrow> 's \<Rightarrow> ('e + unit) \<times> 's" +
  fixes embed :: "'j \<Rightarrow> 'k"
  assumes inj_embed: "inj embed"
begin

lemma view_frame:
  assumes "ok s" "put (embed j) v s = (Inr (), s')" "k \<notin> range embed"
  shows "lookup s' k = lookup s k"
  using put_ok [OF assms(1), of "embed j" v] assms(2,3) by auto

end

sublocale kv_view \<subseteq> view: kv_store ok "\<lambda>s j. lookup s (embed j)" "\<lambda>j. put (embed j)" "\<lambda>j. get (embed j)"
    "\<lambda>P. remove (\<lambda>k. \<exists>j. k = embed j \<and> P j)"
proof (unfold_locales, goal_cases)
  case (1 s k v)
  then obtain s' where "put (embed k) v s = (Inr (), s')" "ok s'" "lookup s' = (lookup s)(embed k \<mapsto> v)"
    using put_ok by blast
  then show ?case using inj_embed by (auto simp: fun_eq_iff inj_eq)
next
  case (2 s k)
  then show ?case by (rule get_ok)
next
  case (3 s P)
  then obtain s' where "remove (\<lambda>k. \<exists>j. k = embed j \<and> P j) s = (Inr (), s')" "ok s'"
    "lookup s' = (\<lambda>k. if \<exists>j. k = embed j \<and> P j then None else lookup s k)"
    using remove_ok by blast
  then show ?case using inj_embed by (auto simp: fun_eq_iff inj_eq)
qed

text \<open>The worker slots of one execution, and the attach store of one scope, are views of the state table.\<close>

interpretation worker_slots: kv_view
  "\<lambda>db. faults db = []" state_lookup "\<lambda>(s, n, k) v. statePut s n k v" "\<lambda>(s, n, k). stateGetOne s n k"
  "\<lambda>P. statement (\<lambda>t. ((), deleteRows P t))" "\<lambda>k. (e, nsWorker, k)" for e
  by unfold_locales (auto simp: inj_def)

interpretation attach_view: kv_view
  "\<lambda>db. faults db = []" state_lookup "\<lambda>(s, n, k) v. statePut s n k v" "\<lambda>(s, n, k). stateGetOne s n k"
  "\<lambda>P. statement (\<lambda>t. ((), deleteRows P t))" "\<lambda>(ns, k). (scope, ns, k)" for scope
  by unfold_locales (auto simp: inj_def)

section \<open>Facts about bound storage\<close>

lemma resolve_bound: "bound_to es e \<Longrightarrow> resolve es = Inr (sqlite_storage, e)"
  by (simp add: bound_to_def resolve_def)

lemma bound_forSubstream [simp]: "bound_to es e \<Longrightarrow> bound_to (forSubstream es sub) e"
  by (simp add: bound_to_def forSubstream_def)

lemma call_Inr [simp]: "m s = (Inr x, s') \<Longrightarrow> call m s = (Inr x, s')"
  by (simp add: call_def)

lemma Put_ok:
  assumes "bound_to es e" "faults db = []"
  shows "Put pid es data db = (Inr (), db\<lparr>tables := putRow (e, nsWorker, workerKey pid es) data (tables db)\<rparr>)"
  using assms by (simp add: Put_def resolved_def resolve_bound sqlite_storage_def WorkerPut_def statePut_def)

lemma workerKey_forSubstream: "sub \<noteq> [] \<Longrightarrow> workerKey pid (forSubstream es sub) = sub"
  by (simp add: workerKey_def forSubstream_def)

lemma Snapshot_ok:
  assumes "bound_to es e" "faults db = []"
  shows "Snapshot es db = (Inr (map snd (sort_key fst (nsRows e nsWorker (tables db)))), db)"
  using assms
  by (simp add: Snapshot_def resolved_def resolve_bound sqlite_storage_def WorkerScan_def stateScan_def
      stateScanRange_def rangeRows_def limited_def inRange_def)

lemma putAll_ok:
  assumes "bound_to es e" "faults db = []" "list_all (\<lambda>(sub, d). sub \<noteq> []) ps"
  shows "putAll pid es ps db =
    db\<lparr>tables := fold (\<lambda>(k, v). putRow k v) (map (\<lambda>(sub, d). ((e, nsWorker, sub), d)) ps) (tables db)\<rparr>"
  using assms
proof (induction ps arbitrary: db)
  case (Cons p ps)
  obtain sub d where p: "p = (sub, d)" by (cases p)
  have "snd (Put pid (forSubstream es sub) d db) = db\<lparr>tables := putRow (e, nsWorker, sub) d (tables db)\<rparr>"
    using Cons.prems Put_ok [OF bound_forSubstream [OF Cons.prems(1)] Cons.prems(2)] by (simp add: p workerKey_forSubstream)
  then show ?case
    using Cons.IH [of "db\<lparr>tables := putRow (e, nsWorker, sub) d (tables db)\<rparr>"] Cons.prems
    by (simp add: putAll_def p)
qed (simp add: putAll_def)

lemma wf_fold_putRow: "wf_tables t \<Longrightarrow> wf_tables (fold (\<lambda>(k, v). putRow k v) rows t)"
  by (induction rows arbitrary: t) (auto simp: wf_putRow)

lemma map_of_sort_key:
  assumes "distinct (map fst xs)"
  shows "map_of (sort_key fst xs) = map_of (xs :: (bytes \<times> bytes) list)"
proof -
  have "distinct (map fst (sort_key fst xs))"
    using assms by (metis distinct_map distinct_sort set_sort)
  then show ?thesis using assms by (intro map_of_eqI) (auto simp: map_of_eq_Some_iff image_iff)
qed

lemma entriesMap_snoc:
  "entriesMap (xs @ [e]) = (case State e of None \<Rightarrow> entriesMap xs | Some s \<Rightarrow> (entriesMap xs)(GroupID e \<mapsto> s))"
  by (cases "State e") (simp_all add: entriesMap_def)

lemma entriesMap_lookup:
  "entriesMap (map (\<lambda>gid. case f gid of None \<Rightarrow> \<lparr>GroupID = 0, State = None\<rparr> | Some s \<Rightarrow> \<lparr>GroupID = gid, State = Some s\<rparr>) gids)
   = f |` set gids"
proof (induction gids rule: rev_induct)
  case (snoc g gids)
  then show ?case
    by (auto simp: entriesMap_snoc fun_eq_iff restrict_map_def split: option.splits)
qed (simp add: entriesMap_def)

lemma backend_bucket:
  "backend (bucket (setResolver newAggregateStorage (Some (sqlite_storage, None))) f e key) = Inr sqlite_storage"
  by (simp add: backend_def bucket_def setResolver_def newAggregateStorage_def ensureOpen_def)

lemma minted_shard_key:
  assumes "aead_laws A" "length u = 16" "mintAttach A (Some u) rnd w b cc = Inr env"
  shows "shardKeyForAttachPtr A w (Some env) cc = Inr (''att-'' @ hex_encode u)"
    and "attachScopeForPtr A w (Some env) cc fallback = b"
proof -
  have seal: "sealAttach A rnd w (u @ b) cc = Inr env"
    using assms(3) by (simp add: mintAttach_def)
  have "env \<noteq> []"
    using sealAttach_nonempty [OF seal] assms(2) by (cases u) auto
  moreover have "openAttachFull A w env cc = Inr (u @ b)"
    using attach_env.unseal_seal [of "(A, w, cc)" rnd "u @ b" env] assms(1) seal by simp
  moreover have "openAttach A w env cc = Inr b"
    by (rule openAttach_sealAttach [OF assms(1) seal assms(2)])
  ultimately show "shardKeyForAttachPtr A w (Some env) cc = Inr (''att-'' @ hex_encode u)"
    and "attachScopeForPtr A w (Some env) cc fallback = b"
    using assms(2)
    by (auto simp: shardKeyForAttachPtr_def shardKeyForAttach_def attachScopeForPtr_def deriveShardKey_def attachUUIDLen_def)
qed

section \<open>Properties\<close>

text \<open>
  C24. Streams of one execution do not overwrite each other: after any sequence of stores by streams that carry
  a substream id, served by one process, a snapshot holds exactly one value per substream, the last one that
  stream stored, in the order of the substream ids.
\<close>
theorem one_slot_per_substream:
  assumes "bound_to es e" "reachable_store db" "faults db = []" "nsRows e nsWorker (tables db) = []"
    and "list_all (\<lambda>(sub, d). sub \<noteq> []) ps"
  shows "\<exists>rows. fst (Snapshot es (putAll pid es ps db)) = Inr (map snd rows) \<and>
    map_of rows = map_of (rev ps) \<and> sorted_wrt (<) (map fst rows)"
proof (intro exI conjI)
  define keyed where "keyed = map (\<lambda>(sub, d). ((e, nsWorker, sub), d)) ps"
  let ?t = "fold (\<lambda>(k, v). putRow k v) keyed (tables db)"
  let ?rows = "sort_key fst (nsRows e nsWorker ?t)"
  have wf: "wf_tables (tables db)" "wf_tables ?t"
    using reachable_wf [OF assms(2)] by (simp_all add: wf_fold_putRow)
  show "fst (Snapshot es (putAll pid es ps db)) = Inr (map snd ?rows)"
    using assms(1,3,5) by (simp add: putAll_ok Snapshot_ok keyed_def)
  have "map_of (function_state (tables db)) (e, nsWorker, k) = None" for k
    using map_of_nsRows [OF wf(1), of e nsWorker k] assms(4) by simp
  moreover have "map_of (rev keyed) (e, nsWorker, k) = map_of (rev ps) k" for k
    unfolding keyed_def rev_map by (rule map_of_map_key) (auto simp: inj_def)
  ultimately have "map_of (nsRows e nsWorker ?t) k = map_of (rev ps) k" for k
    by (simp add: map_of_nsRows [OF wf(2)] map_of_fold_putRow map_add_def split: option.split)
  then show "map_of ?rows = map_of (rev ps)"
    using map_of_sort_key [OF distinct_nsRows [OF wf(2)]] by (simp add: fun_eq_iff)
  show "sorted_wrt (<) (map fst ?rows)"
    by (intro strict_sorted_sort_key distinct_nsRows wf)
qed

definition sample_es :: "sqlite execution_storage" where
  "sample_es = SetExecutionID (SetBackend NewExecutionStorage (sqlite_storage, None)) [1]"

theorem one_slot_per_substream_witness:
  "\<exists>rows. fst (Snapshot sample_es (putAll 42 sample_es [([2], [10]), ([3], [20]), ([2], [30])] one_push)) = Inr (map snd rows) \<and>
    map_of rows = [[3 :: byte] \<mapsto> [20 :: byte], [2] \<mapsto> [30]] \<and> sorted_wrt (<) (map fst rows)"
proof -
  have "bound_to sample_es [1]"
    by (simp add: bound_to_def sample_es_def SetExecutionID_def SetBackend_def NewExecutionStorage_def)
  moreover have "nsRows [1] nsWorker (tables one_push) = []"
    by (simp add: one_push_def QueuePush_ok insertQueue_def empty_tables_def nsRows_def)
  ultimately show ?thesis
    using one_slot_per_substream [OF _ reachable_one_push faults_one_push, of sample_es "[1]"
        "[([2], [10]), ([3], [20]), ([2], [30])]" 42]
    by simp
qed

text \<open>
  Cleaning up an execution leaves nothing of it behind and touches nothing else: its state rows, log,
  counters and work queue are gone, and those of every other scope are unchanged.
\<close>
theorem cleanup_exact:
  assumes "bound_to es e" "faults db = []" "db' = Cleanup es db"
  shows "state_lookup db' = (\<lambda>k. if fst k = e then None else state_lookup db k) \<and>
    function_state_log (tables db') = filter (\<lambda>r. log_scope r \<noteq> e) (function_state_log (tables db)) \<and>
    map_of (function_counter (tables db')) = (\<lambda>k. if fst k = e then None else map_of (function_counter (tables db)) k) \<and>
    work_queue (tables db') = filter (\<lambda>r. queue_execution r \<noteq> e) (work_queue (tables db))"
proof -
  have db': "db' = db\<lparr>tables := (tables db)\<lparr>
        function_state := filter (\<lambda>(k, v). fst k \<noteq> e) (function_state (tables db)),
        function_state_log := filter (\<lambda>r. log_scope r \<noteq> e) (function_state_log (tables db)),
        function_counter := filter (\<lambda>(k, v). fst k \<noteq> e) (function_counter (tables db)),
        work_queue := filter (\<lambda>r. queue_execution r \<noteq> e) (work_queue (tables db))\<rparr>\<rparr>"
    using assms by (simp add: Cleanup_def resolve_bound sqlite_storage_def ExecutionClear_ok QueueClear_def)
  show ?thesis
    by (auto simp: db' state_lookup_def map_of_filter_keys fun_eq_iff)
qed

theorem cleanup_exact_witness:
  "work_queue (tables (Cleanup sample_es one_push)) = []"
proof -
  have "bound_to sample_es [1]"
    by (simp add: bound_to_def sample_es_def SetExecutionID_def SetBackend_def NewExecutionStorage_def)
  then show ?thesis
    using cleanup_exact [OF _ faults_one_push, of sample_es "[1]"]
    by (simp add: one_push_def QueuePush_ok insertQueue_def empty_tables_def)
qed

text \<open>
  C25. An aggregate bucket is a map: after saving states, loading any list of groups returns exactly those of
  the groups that have a state, with the saved value where one was saved and the earlier one otherwise,
  for every execution and function name and whether or not a shard key is set.
\<close>
theorem bucket_save_load:
  assumes "faults db = []" "distinct (map fst states)"
    and "bk = bucket (setResolver newAggregateStorage (Some (sqlite_storage, None))) f e key"
  shows "fst (loadStates bk gids (snd (saveStates bk states db))) =
    Inr (((\<lambda>g. state_lookup db (e, nsAgg, int64Key g)) ++ map_of states) |` set gids)"
proof -
  define db' where "db' = snd (saveStates bk states db)"
  define keyed where "keyed = map (\<lambda>(gid, s). ((e, nsAgg, int64Key gid), s)) states"
  have e: "bucketExecution bk = e" by (simp add: assms(3) bucket_def)
  have "db' = db\<lparr>tables := fold (\<lambda>(k, v). putRow k v) keyed (tables db)\<rparr>"
    using assms(1) backend_bucket [of f e key]
    by (cases "states = []")
      (simp_all add: db'_def saveStates_def onBackend_def assms(3) sqlite_storage_def AggregateStatePut_ok keyed_def bucket_def)
  then have db': "tables db' = fold (\<lambda>(k, v). putRow k v) keyed (tables db)" "faults db' = []"
    using assms(1) by simp_all
  have "map_of (rev keyed) (e, nsAgg, int64Key g) = map_of (rev states) g" for g
    unfolding keyed_def rev_map by (rule map_of_map_key) (auto simp: inj_def)
  moreover have "map_of (rev states) = map_of states"
    using assms(2) by (intro map_of_eqI) (auto simp: map_of_eq_Some_iff rev_map [symmetric])
  ultimately have "(\<lambda>g. state_lookup db' (e, nsAgg, int64Key g)) =
      (\<lambda>g. state_lookup db (e, nsAgg, int64Key g)) ++ map_of states"
    by (simp add: fun_eq_iff state_lookup_def db' map_of_fold_putRow map_add_def split: option.split)
  moreover have "fst (loadStates bk gids db') = Inr ((\<lambda>g. state_lookup db' (e, nsAgg, int64Key g)) |` set gids)"
    using db'(2) backend_bucket [of f e key]
    by (cases "gids = []")
      (simp_all add: loadStates_def onBackend_def assms(3) sqlite_storage_def AggregateStateGet_ok bucket_def
        entriesMap_lookup [of "\<lambda>g. state_lookup db' (e, nsAgg, int64Key g)"])
  ultimately show ?thesis by (simp add: db'_def)
qed

theorem bucket_save_load_witness:
  "fst (loadStates (bucket (setResolver newAggregateStorage (Some (sqlite_storage, None))) ''sum'' [1] ''k'') [7, 9]
     (snd (saveStates (bucket (setResolver newAggregateStorage (Some (sqlite_storage, None))) ''sum'' [1] ''k'')
       [(7, [70]), (8, [80])] one_push))) = Inr [7 \<mapsto> [70]]"
proof -
  have "state_lookup one_push = (\<lambda>_. None)"
    by (simp add: one_push_def QueuePush_ok insertQueue_def empty_tables_def state_lookup_def fun_eq_iff)
  then show ?thesis
    using bucket_save_load [OF faults_one_push, of "[(7, [70]), (8, [80])]" _ "''sum''" "[1]" "''k''" "[7, 9]"]
    by (simp add: fun_eq_iff restrict_map_def)
qed

text \<open>
  C26. The routing key of an attach value tells logical ATTACHes apart and the attach-state scope does not: for two
  values minted for the same caller, the shard keys are equal exactly when the framework UUIDs are, while the
  scope under which attach state is stored is the catalog's own bytes, whatever the UUIDs are.
\<close>
theorem shard_key_per_attach:
  assumes "aead_laws A" "length u1 = 16" "length u2 = 16"
    and "mintAttach A (Some u1) rnd1 w b1 cc = Inr env1" "mintAttach A (Some u2) rnd2 w b2 cc = Inr env2"
  shows "\<exists>k1 k2. shardKeyForAttachPtr A w (Some env1) cc = Inr k1 \<and> shardKeyForAttachPtr A w (Some env2) cc = Inr k2 \<and>
    k1 \<noteq> [] \<and> (k1 = k2 \<longleftrightarrow> u1 = u2) \<and>
    attachScopeForPtr A w (Some env1) cc fallback = b1 \<and> attachScopeForPtr A w (Some env2) cc fallback = b2"
  using minted_shard_key [OF assms(1,2,4)] minted_shard_key [OF assms(1,3,5)] by simp

theorem shard_key_per_attach_witness:
  "\<exists>env1 env2 k1 k2.
    mintAttach plain_aead (Some (replicate 16 5)) (Some (replicate 24 9)) http_worker (str ''demo'') (Some (call_of alice)) = Inr env1 \<and>
    mintAttach plain_aead (Some (replicate 16 6)) (Some (replicate 24 8)) http_worker (str ''demo'') (Some (call_of alice)) = Inr env2 \<and>
    shardKeyForAttachPtr plain_aead http_worker (Some env1) (Some (call_of alice)) = Inr k1 \<and>
    shardKeyForAttachPtr plain_aead http_worker (Some env2) (Some (call_of alice)) = Inr k2 \<and> k1 \<noteq> k2 \<and>
    attachScopeForPtr plain_aead http_worker (Some env1) (Some (call_of alice)) [] =
      attachScopeForPtr plain_aead http_worker (Some env2) (Some (call_of alice)) []"
proof -
  obtain env1 where e1: "mintAttach plain_aead (Some (replicate 16 5)) (Some (replicate 24 9)) http_worker (str ''demo'')
      (Some (call_of alice)) = Inr env1"
    by (rule mintAttach_total [of "replicate 24 9"]) simp
  obtain env2 where e2: "mintAttach plain_aead (Some (replicate 16 6)) (Some (replicate 24 8)) http_worker (str ''demo'')
      (Some (call_of alice)) = Inr env2"
    by (rule mintAttach_total [of "replicate 24 8"]) simp
  have "replicate 16 (5 :: byte) \<noteq> replicate 16 6" by simp
  then show ?thesis
    using shard_key_per_attach [OF plain_aead_laws _ _ e1 e2, of "[]"] e1 e2 by auto
qed

end
