(* ===== verification/ArrowSchema.thy ===== *)
theory ArrowSchema
  imports VgiPrelude GoText
begin

text \<open>
  Arrow schemas as the catalog code inspects them: a field has a name, a type, its nullability and metadata; only the
  types the code distinguishes have constructors of their own; \<open>NESTED\<close> is a list, map or union with its child fields,
  an extension type has its storage type and a dictionary its value type. The predicates are those of \<open>vgi/constraint_records.go\<close>
  and \<open>vgi/scalar_sql.go\<close> on single fields.
\<close>

datatype arrow_type =
    INT8 | INT16 | INT32 | INT64 | UINT32 | UINT64 | FLOAT32 | FLOAT64 | BOOL | STRING | BINARY
  | STRUCT "arrow_field list"
  | NESTED string "arrow_field list"
  | EXTENSION string arrow_type
  | DICTIONARY arrow_type
  | OTHER string
and arrow_field =
    Field (fieldName: string) (fieldType: arrow_type) (isNullable: bool) (fieldMeta: "(string \<times> string) list")

record arrow_schema =
  schemaFields :: "arrow_field list"
  schemaMeta :: "(string \<times> string) list"

definition hasMeta :: "arrow_field \<Rightarrow> string \<Rightarrow> bool" where
  "hasMeta f key \<longleftrightarrow> key \<in> fst ` set (fieldMeta f)"

definition isRowIDField :: "arrow_field \<Rightarrow> bool" where
  "isRowIDField f \<longleftrightarrow> hasMeta f ''is_row_id''"

definition logicalKey :: "string \<Rightarrow> bool" where
  "logicalKey key \<longleftrightarrow> key = ''ARROW:extension:name'' \<or> prefix ''vgi.logical_type.'' key"

definition ordinaryStructChildren :: "arrow_field \<Rightarrow> arrow_field list option" where
  "ordinaryStructChildren f =
     (case fieldType f of
        STRUCT children \<Rightarrow> if list_ex (logicalKey \<circ> fst) (fieldMeta f) then None else Some children
      | _ \<Rightarrow> None)"

text \<open>\<open>FieldIndices\<close>: the positions of the fields of that name; \<open>None\<close> stands for the index -1.\<close>

definition fieldIndices :: "arrow_field list \<Rightarrow> string \<Rightarrow> nat list" where
  "fieldIndices fs name = filter (\<lambda>i. fieldName (fs ! i) = name) [0..<length fs]"

definition topLevelIndex :: "arrow_field list \<Rightarrow> string \<Rightarrow> nat option" where
  "topLevelIndex fs name = (case fieldIndices fs name of [i] \<Rightarrow> Some i | _ \<Rightarrow> None)"

lemma topLevelIndex_SomeD: "topLevelIndex fs name = Some i \<Longrightarrow> i < length fs \<and> fieldName (fs ! i) = name"
proof -
  assume "topLevelIndex fs name = Some i"
  then have "i \<in> set (fieldIndices fs name)"
    by (auto simp: topLevelIndex_def split: list.splits)
  then show ?thesis by (simp add: fieldIndices_def)
qed

lemma size_children: "ordinaryStructChildren f = Some cs \<Longrightarrow> size_list size cs < size f"
  by (cases f) (auto simp: ordinaryStructChildren_def split: arrow_type.splits if_splits)

end
