(* ===== verification/CanonicalRow.thy ===== *)
theory CanonicalRow
  imports VgiPrelude GoText
begin

text \<open>
  The canonical single-row records of \<open>vgi/constraint_records.go\<close> (\<open>encodeCanonicalRow\<close>, \<open>appendCanonicalValue\<close>,
  \<open>readCanonicalRow\<close>, the row accessors, \<open>catalogObjectRef\<close> and \<open>readObjectRef\<close>) over the row schemas of
  \<open>vgi/generated/protocol_schemas.go\<close> that the constraint and capability code uses.

  The Arrow IPC writer and reader are not part of the repository: they are the argument \<open>ipc\<close>. What the code relies
  on is \<open>ipc_laws\<close>: a stream that was written reads back as the one batch it was written from, and it is at least as
  long as any binary value in it (the code writes without compression). Everything the code
  does around them (which fields are required, which Go value fits which column type, the size limit, the checks of the
  batch that was read) is defined here.
\<close>

section \<open>Schemas, Go values and cells\<close>

text \<open>Column types, as the builders the code distinguishes (\<open>TEnum\<close> and \<open>TDictBinary\<close> are dictionaries of strings and
  of binaries; the cell of a map is the list of its entries); a field has a name, a type and its nullability.\<close>

datatype ctype =
    TString
  | TBinary
  | TBool
  | TEnum
  | TInt32
  | TInt64
  | TUInt64
  | TDictBinary
  | TMap ctype ctype
  | TList ctype
  | TStruct "(string \<times> ctype \<times> bool) list"

type_synonym cschema = "(string \<times> ctype \<times> bool) list"

text \<open>The dynamic types a row value may have, \<open>GoNil\<close> for nil.\<close>

datatype go_value =
    GoNil
  | GoString string
  | GoBytes bytes
  | GoBool bool
  | GoStrings "string list"
  | GoPaths "string list list"
  | GoBlobs "bytes list"
  | GoStruct "(string \<times> go_value) list"

text \<open>What a column holds in its only row.\<close>

datatype cell =
    Null
  | Str string
  | Bin bytes
  | Bool bool
  | Int64 int64
  | Items "cell list"
  | Struct "(string \<times> cell) list"

datatype row_err =
    MissingRequired string
  | UnexpectedType ctype
  | InField string row_err
  | InvalidRecordSize
  | RecordMissing
  | NotCanonicalSchema
  | RequiredNull string
  | NotOneBatch
  | IpcError string
  | InRecord string row_err

text \<open>How a stream ended: at the end of its bytes, with unread bytes after it, or in a read error.\<close>

datatype stream_end = CleanEnd | Trailing | ReadFailed

record ipc =
  ipc_stream :: "cschema \<Rightarrow> cell list list list \<Rightarrow> row_err + bytes"
  ipc_read :: "bytes \<Rightarrow> row_err + (cschema \<times> cell list list list \<times> stream_end)"

text \<open>
  \<open>ipc_stream\<close> writes the batches of a stream, each a list of rows, and \<open>ipc_read\<close> gives the stream's schema, the rows
  of the batches it delivers and how it ended. A record is a stream
  of one batch with one row.
\<close>

definition ipc_write :: "ipc \<Rightarrow> cschema \<Rightarrow> cell list \<Rightarrow> row_err + bytes" where
  "ipc_write I sch cells = ipc_stream I sch [[cells]]"

definition ipc_laws :: "ipc \<Rightarrow> bool" where
  "ipc_laws I \<longleftrightarrow>
     (\<forall>sch batches b. ipc_stream I sch batches = Inr b \<longrightarrow>
        b \<noteq> [] \<and> ipc_read I b = Inr (sch, batches, CleanEnd) \<and>
        (\<forall>x. Bin x \<in> set (concat (concat batches)) \<longrightarrow> length x \<le> length b))"

lemma ipc_stream_ok:
  assumes "ipc_laws I" "ipc_stream I sch batches = Inr b"
  shows "b \<noteq> []" "ipc_read I b = Inr (sch, batches, CleanEnd)"
  using assms unfolding ipc_laws_def by blast+

lemma ipc_write_ok:
  assumes "ipc_laws I" "ipc_write I sch cells = Inr b"
  shows "b \<noteq> []" "ipc_read I b = Inr (sch, [[cells]], CleanEnd)" "Bin x \<in> set cells \<Longrightarrow> length x \<le> length b"
  using assms unfolding ipc_laws_def ipc_write_def by force+

section \<open>The row schemas\<close>

definition CatalogCapabilitiesSchema :: cschema where
  "CatalogCapabilitiesSchema =
     [(''read'', TList TString, False), (''ddl'', TList TString, False), (''write'', TList TString, False),
      (''transaction'', TList TString, False)]"

definition CatalogObjectRefSchema :: cschema where
  "CatalogObjectRefSchema =
     [(''kind'', TString, False), (''schema_path'', TList TString, False), (''name'', TString, False),
      (''owner_table'', TString, True)]"

definition SqlExpressionSchema :: cschema where
  "SqlExpressionSchema =
     [(''sql'', TString, False), (''profile'', TString, False), (''schema_path'', TList TString, False),
      (''evaluation_context'', TStruct
        [(''timezone'', TString, False), (''collation'', TString, False), (''default_order'', TString, False),
         (''default_null_order'', TString, False), (''preserve_insertion_order'', TBool, False)], False)]"

definition ForeignKeyDefinitionSchema :: cschema where
  "ForeignKeyDefinitionSchema =
     [(''referenced_table'', TBinary, False), (''referenced_column_paths'', TList (TList TString), False),
      (''match'', TEnum, False), (''on_update'', TEnum, False), (''on_delete'', TEnum, False)]"

definition ConstraintDefinitionSchema :: cschema where
  "ConstraintDefinitionSchema =
     [(''kind'', TEnum, False), (''column_paths'', TList (TList TString), False), (''declared_name'', TString, True),
      (''check_expression'', TBinary, True), (''foreign_key'', TBinary, True)]"

definition ConstraintInfoSchema :: cschema where
  "ConstraintInfoSchema =
     [(''ref'', TBinary, False), (''definition'', TBinary, False), (''enforcement'', TEnum, False),
      (''validation'', TEnum, False), (''referenced_constraint'', TBinary, True)]"

definition ClientCapabilitiesSchema :: cschema where
  "ClientCapabilitiesSchema =
     [(''engine'', TString, False), (''native_formats'', TList TString, False), (''catalogs'', TList TString, False),
      (''can_stream'', TBool, False), (''filter_encodings'', TList TString, False), (''catalog'', TBinary, True),
      (''query_pushdown'', TStruct
        [(''encodings'', TList TString, False), (''semantic_profiles'', TList TString, False),
         (''engine_version'', TString, False), (''max_query_bytes'', TInt64, False)], True)]"

lemmas schema_defs = CatalogCapabilitiesSchema_def ClientCapabilitiesSchema_def CatalogObjectRefSchema_def SqlExpressionSchema_def
  ForeignKeyDefinitionSchema_def ConstraintDefinitionSchema_def ConstraintInfoSchema_def

section \<open>Encoding\<close>

text \<open>A key a Go map lacks reads as nil.\<close>

definition goField :: "(string \<times> go_value) list \<Rightarrow> string \<Rightarrow> go_value" where
  "goField vs name = (case map_of vs name of None \<Rightarrow> GoNil | Some v \<Rightarrow> v)"

fun mapResult :: "('a \<Rightarrow> 'e + 'b) \<Rightarrow> 'a list \<Rightarrow> 'e + 'b list" where
  "mapResult f [] = Inr []"
| "mapResult f (x # xs) = rbind (f x) (\<lambda>y. rbind (mapResult f xs) (\<lambda>ys. Inr (y # ys)))"

lemma mapResult_cong [fundef_cong]:
  assumes "xs = ys" "\<And>x. x \<in> set ys \<Longrightarrow> f x = g x"
  shows "mapResult f xs = mapResult g ys"
  using assms(2) unfolding assms(1) by (induction ys) auto

fun appendCanonicalValue :: "ctype \<Rightarrow> go_value \<Rightarrow> row_err + cell" where
  "appendCanonicalValue t GoNil = Inr Null"
| "appendCanonicalValue TString (GoString s) = Inr (Str s)"
| "appendCanonicalValue TBinary (GoBytes b) = Inr (Bin b)"
| "appendCanonicalValue TBool (GoBool b) = Inr (Bool b)"
| "appendCanonicalValue TEnum (GoString s) = Inr (Str s)"
| "appendCanonicalValue (TList t) (GoStrings xs) =
     rbind (mapResult (\<lambda>x. appendCanonicalValue t (GoString x)) xs) (\<lambda>cs. Inr (Items cs))"
| "appendCanonicalValue (TList t) (GoPaths ps) =
     rbind (mapResult (\<lambda>p. appendCanonicalValue t (GoStrings p)) ps) (\<lambda>cs. Inr (Items cs))"
| "appendCanonicalValue (TList t) (GoBlobs bs) =
     rbind (mapResult (\<lambda>b. appendCanonicalValue t (GoBytes b)) bs) (\<lambda>cs. Inr (Items cs))"
| "appendCanonicalValue (TStruct fs) (GoStruct vs) =
     rbind (mapResult (\<lambda>(name, t, nullable).
         rmap_err (InField name) (rbind (appendCanonicalValue t (goField vs name)) (\<lambda>c. Inr (name, c)))) fs)
       (\<lambda>cs. Inr (Struct cs))"
| "appendCanonicalValue t v = Inl (UnexpectedType t)"

definition encodeCanonicalRow :: "ipc \<Rightarrow> cschema \<Rightarrow> (string \<times> go_value) list \<Rightarrow> row_err + bytes" where
  "encodeCanonicalRow I sch values =
     rbind (mapResult (\<lambda>(name, t, nullable).
         if map_of values name = None \<or> map_of values name = Some GoNil \<and> \<not> nullable then Inl (MissingRequired name)
         else rmap_err (InField name) (appendCanonicalValue t (goField values name))) sch)
       (\<lambda>cells. ipc_write I sch cells)"

section \<open>Decoding\<close>

type_synonym row = "(string \<times> cell) list"

definition maxRecordSize :: nat where "maxRecordSize = 8 * 1024 * 1024"

fun requiredNull :: "cschema \<Rightarrow> cell list \<Rightarrow> string option" where
  "requiredNull ((name, t, nullable) # fs) (c # cs) =
     (if \<not> nullable \<and> c = Null then Some name else requiredNull fs cs)"
| "requiredNull fs cs = None"

definition readCanonicalRow :: "ipc \<Rightarrow> bytes \<Rightarrow> cschema \<Rightarrow> row_err + row" where
  "readCanonicalRow I data sch =
     (if length data = 0 \<or> maxRecordSize < length data then Inl InvalidRecordSize
      else rbind (ipc_read I data) (\<lambda>(got, batches, ending).
        case batches of
          [] \<Rightarrow> Inl RecordMissing
        | b # rest \<Rightarrow>
            (case b of
               [cells] \<Rightarrow>
                 if got \<noteq> sch then Inl NotCanonicalSchema
                 else case requiredNull sch cells of
                   Some name \<Rightarrow> Inl (RequiredNull name)
                 | None \<Rightarrow> if rest \<noteq> [] \<or> ending \<noteq> CleanEnd then Inl NotOneBatch else Inr (zip (map fst sch) cells)
             | _ \<Rightarrow> Inl NotCanonicalSchema)))"

text \<open>
  The accessors. A row that was read has the columns and types of its schema; the remaining cases of the accessors
  are reached only by null values, which read as empty.
\<close>

definition rowColumn :: "row \<Rightarrow> string \<Rightarrow> cell" where
  "rowColumn row name = (case map_of row name of None \<Rightarrow> Null | Some c \<Rightarrow> c)"

fun cellString :: "cell \<Rightarrow> string" where
  "cellString (Str s) = s"
| "cellString c = []"

fun cellBinary :: "cell \<Rightarrow> bytes" where
  "cellBinary (Bin b) = b"
| "cellBinary c = []"

fun cellItems :: "cell \<Rightarrow> cell list" where
  "cellItems (Items cs) = cs"
| "cellItems c = []"

definition rowBinary :: "row \<Rightarrow> string \<Rightarrow> bytes" where
  "rowBinary row name = cellBinary (rowColumn row name)"

definition rowEnum :: "row \<Rightarrow> string \<Rightarrow> string" where
  "rowEnum row name = cellString (rowColumn row name)"

definition rowStrings :: "row \<Rightarrow> string \<Rightarrow> string list" where
  "rowStrings row name = map cellString (cellItems (rowColumn row name))"

definition rowPaths :: "row \<Rightarrow> string \<Rightarrow> string list list" where
  "rowPaths row name = map (\<lambda>c. map cellString (cellItems c)) (cellItems (rowColumn row name))"

section \<open>Object references\<close>

record object_ref =
  refKind :: string
  refSchemaPath :: "string list"
  refName :: string
  refOwner :: "string option"

definition goOptional :: "string option \<Rightarrow> go_value" where
  "goOptional s = (case s of None \<Rightarrow> GoNil | Some x \<Rightarrow> GoString x)"

definition catalogObjectRef :: "ipc \<Rightarrow> string \<Rightarrow> string list \<Rightarrow> string \<Rightarrow> string option \<Rightarrow> row_err + bytes" where
  "catalogObjectRef I kind path name owner =
     encodeCanonicalRow I CatalogObjectRefSchema
       [(''kind'', GoString kind), (''schema_path'', GoStrings path), (''name'', GoString name),
        (''owner_table'', goOptional owner)]"

definition readObjectRef :: "ipc \<Rightarrow> bytes \<Rightarrow> row_err + object_ref" where
  "readObjectRef I data =
     rbind (rmap_err (InRecord ''CatalogObjectRef'') (readCanonicalRow I data CatalogObjectRefSchema)) (\<lambda>row.
       Inr \<lparr>refKind = cellString (rowColumn row ''kind''), refSchemaPath = rowStrings row ''schema_path'',
            refName = cellString (rowColumn row ''name''),
            refOwner = (let owner = rowColumn row ''owner_table'' in if owner = Null then None else Some (cellString owner))\<rparr>)"

section \<open>A table of known streams\<close>

text \<open>
  An instance of the writer and reader for examples: a given list of streams, each written as its position followed by
  its binary values.
\<close>

fun rowAt :: "'a list \<Rightarrow> 'a \<Rightarrow> byte \<Rightarrow> byte option" where
  "rowAt [] x n = None"
| "rowAt (r # rs) x n = (if r = x then Some n else rowAt rs x (n + 1))"

definition stream_ipc :: "(cschema \<times> cell list list list) list \<Rightarrow> ipc" where
  "stream_ipc streams =
     \<lparr>ipc_stream = (\<lambda>sch batches. case rowAt streams (sch, batches) 0 of
          None \<Rightarrow> Inl (IpcError ''write'')
        | Some n \<Rightarrow> Inr (n # concat (map cellBinary (concat (concat batches))))),
      ipc_read = (\<lambda>b. case b of
          n # _ \<Rightarrow> if unat n < length streams then Inr (fst (streams ! unat n), snd (streams ! unat n), CleanEnd) else Inl (IpcError ''read'')
        | [] \<Rightarrow> Inl (IpcError ''read''))\<rparr>"

definition table_ipc :: "(cschema \<times> cell list) list \<Rightarrow> ipc" where
  "table_ipc rows = stream_ipc (map (\<lambda>(sch, cells). (sch, [[cells]])) rows)"

lemmas table_ipc_defs = table_ipc_def stream_ipc_def ipc_write_def

section \<open>Lemmas\<close>

lemma mapResult_Inr_iff [res_simps]:
  "mapResult f xs = Inr ys \<longleftrightarrow> list_all2 (\<lambda>x y. f x = Inr y) xs ys"
  by (induction xs arbitrary: ys) (auto simp: rbind_Inr_iff list_all2_Cons1)

lemma mapResult_total [simp]: "mapResult (\<lambda>x. Inr (f x)) xs = Inr (map f xs)"
  by (induction xs) simp_all

lemma requiredNull_None:
  "length cs = length fs \<Longrightarrow>
    requiredNull fs cs = None \<longleftrightarrow> list_all2 (\<lambda>(name, t, nullable) c. nullable \<or> c \<noteq> Null) fs cs"
  by (induction fs cs rule: requiredNull.induct) auto

lemma appendCanonicalValue_Null: "appendCanonicalValue t v = Inr Null \<Longrightarrow> v = GoNil"
  by (cases "(t, v)" rule: appendCanonicalValue.cases) (auto simp: res_simps)

text \<open>What was encoded is read back: the cells of the row, by name, unless the record is over the size limit.\<close>

lemma encode_read:
  assumes "ipc_laws I" "encodeCanonicalRow I sch values = Inr b" "length b \<le> maxRecordSize"
  shows "\<exists>cells. list_all2 (\<lambda>(name, t, nullable) c. appendCanonicalValue t (goField values name) = Inr c) sch cells \<and>
    readCanonicalRow I b sch = Inr (zip (map fst sch) cells)"
proof -
  from assms(2) obtain cells where conv: "list_all2 (\<lambda>x c. (case x of (name, t, nullable) \<Rightarrow>
        if map_of values name = None \<or> map_of values name = Some GoNil \<and> \<not> nullable then Inl (MissingRequired name)
        else rmap_err (InField name) (appendCanonicalValue t (goField values name))) = Inr c) sch cells"
    and wrote: "ipc_write I sch cells = Inr b"
    by (auto simp: encodeCanonicalRow_def rbind_Inr_iff mapResult_Inr_iff)
  have fields: "list_all2 (\<lambda>(name, t, nullable) c.
        map_of values name \<noteq> None \<and> (map_of values name = Some GoNil \<longrightarrow> nullable) \<and>
        appendCanonicalValue t (goField values name) = Inr c) sch cells"
    using conv by (rule list_all2_mono) (auto simp: rmap_err_Inr_iff split: if_splits)
  have "requiredNull sch cells = None"
    unfolding requiredNull_None [OF list_all2_lengthD [OF fields, symmetric]]
    using fields
    by (rule list_all2_mono) (auto dest!: appendCanonicalValue_Null simp: goField_def split: option.splits)
  moreover have "b \<noteq> []" "ipc_read I b = Inr (sch, [[cells]], CleanEnd)"
    using ipc_write_ok [OF assms(1) wrote] by simp_all
  ultimately have "readCanonicalRow I b sch = Inr (zip (map fst sch) cells)"
    using assms(3) by (simp add: readCanonicalRow_def)
  moreover have "list_all2 (\<lambda>(name, t, nullable) c. appendCanonicalValue t (goField values name) = Inr c) sch cells"
    using fields by (rule list_all2_mono) auto
  ultimately show ?thesis by blast
qed

lemma append_strings [simp]:
  "appendCanonicalValue (TList TString) (GoStrings xs) = Inr (Items (map Str xs))"
  "appendCanonicalValue (TList (TList TString)) (GoPaths ps) = Inr (Items (map (\<lambda>p. Items (map Str p)) ps))"
  by simp_all

lemma append_optional [simp]:
  "appendCanonicalValue TString (goOptional s) = Inr (case s of None \<Rightarrow> Null | Some x \<Rightarrow> Str x)"
  by (cases s) (simp_all add: goOptional_def)

lemma cells_simps [simp]:
  "map cellString (map Str xs) = xs"
  "map (cellString \<circ> Str) xs = xs"
  by (simp_all add: map_idI)

lemma object_ref_roundtrip:
  assumes "ipc_laws I" "catalogObjectRef I kind path name owner = Inr b" "length b \<le> maxRecordSize"
  shows "readObjectRef I b = Inr \<lparr>refKind = kind, refSchemaPath = path, refName = name, refOwner = owner\<rparr>"
  using encode_read [OF assms(1) assms(2) [unfolded catalogObjectRef_def] assms(3)]
  by (auto simp: readObjectRef_def schema_defs list_all2_Cons1 goField_def rowColumn_def rowStrings_def Let_def
      split: option.splits)

lemma rowAt_Some:
  assumes "rowAt rows x n = Some m" "unat n + length rows \<le> 255"
  shows "unat n \<le> unat m \<and> unat m - unat n < length rows \<and> rows ! (unat m - unat n) = x"
  using assms
proof (induction rows x n rule: rowAt.induct)
  case (2 r rs x n)
  show ?case
  proof (cases "r = x")
    case False
    have n1: "unat (n + 1) = unat n + 1"
      using 2(3) by (simp add: unat_plus_if')
    then have "unat n + 1 \<le> unat m \<and> unat m - (unat n + 1) < length rs \<and> rs ! (unat m - (unat n + 1)) = x"
      using 2 False by simp
    then show ?thesis
      by (metis Suc_diff_le add.commute add_leD1 diff_Suc_Suc length_Cons not_less_eq nth_Cons_Suc plus_1_eq_Suc)
  qed (use 2 in auto)
qed simp

lemma binary_length: "Bin x \<in> set cells \<Longrightarrow> length x \<le> length (concat (map cellBinary cells))"
  by (induction cells) auto

lemma stream_ipc_laws:
  assumes "length streams \<le> 255"
  shows "ipc_laws (stream_ipc streams)"
  unfolding ipc_laws_def
proof (intro allI impI)
  fix sch batches b
  assume "ipc_stream (stream_ipc streams) sch batches = Inr b"
  then obtain n where n: "rowAt streams (sch, batches) 0 = Some n"
    and b: "b = n # concat (map cellBinary (concat (concat batches)))"
    by (auto simp: stream_ipc_def split: option.splits)
  have "unat n < length streams" "streams ! unat n = (sch, batches)"
    using rowAt_Some [OF n] assms by simp_all
  then show "b \<noteq> [] \<and> ipc_read (stream_ipc streams) b = Inr (sch, batches, CleanEnd) \<and>
      (\<forall>x. Bin x \<in> set (concat (concat batches)) \<longrightarrow> length x \<le> length b)"
    using binary_length [of _ "concat (concat batches)"] by (simp add: b stream_ipc_def le_SucI)
qed

lemma table_ipc_laws: "length rows \<le> 255 \<Longrightarrow> ipc_laws (table_ipc rows)"
  by (simp add: table_ipc_def stream_ipc_laws)

text \<open>A binary value of a row is no longer than the row's stream.\<close>

lemma encode_binary_length:
  assumes "ipc_laws I" "encodeCanonicalRow I sch values = Inr b" "(name, TBinary, nullable) \<in> set sch"
    and "goField values name = GoBytes x"
  shows "length x \<le> length b"
proof -
  from assms(2) obtain cells where wrote: "ipc_write I sch cells = Inr b"
    and conv: "list_all2 (\<lambda>x c. (case x of (name, t, nullable) \<Rightarrow>
        if map_of values name = None \<or> map_of values name = Some GoNil \<and> \<not> nullable then Inl (MissingRequired name)
        else rmap_err (InField name) (appendCanonicalValue t (goField values name))) = Inr c) sch cells"
    by (auto simp: encodeCanonicalRow_def rbind_Inr_iff mapResult_Inr_iff)
  have "Bin x \<in> set cells"
    using conv assms(3,4) by (induction rule: list_all2_induct) (auto split: if_splits)
  then show ?thesis by (rule ipc_write_ok(3) [OF assms(1) wrote])
qed

end
