(* ===== verification/ScalarSql.thy ===== *)
theory ScalarSql
  imports ArrowSchema
begin

text \<open>
  The bounded parser for scalar SQL of \<open>vgi/scalar_sql.go\<close>: the tokenizer, the recursive-descent parser with its depth and
  node limits, and the two validators built on it (CHECK records and generated columns).

  Texts are byte strings. The Unicode tables beyond ASCII are the arguments \<open>U\<close> (case mapping) and \<open>R\<close> (rune classes).
  The parser's position is the list of tokens still to read. The recursion is on the depth that is left: depth
  \<open>65 - k\<close> of the source is the level \<open>k\<close>, and the depth check fails exactly at level 0. The loops of the parser carry the
  number of remaining tokens as fuel; running out of it is the error \<open>OutOfFuel\<close>, which no input reaches.
\<close>

section \<open>Tokens\<close>

datatype sql_token_kind = TokEOF | TokIdent | TokQuotedIdent | TokNumber | TokString | TokOp

datatype sql_token = Tok (tokKind: sql_token_kind) (tokText: string)

text \<open>Errors: a fixed text, or a text and the piece of input it quotes.\<close>

datatype sql_err = SqlError string | SqlErrorAt string string | OutOfFuel

definition newline :: char where "newline = CHR 0x0A"
definition dquote :: char where "dquote = CHR 0x22"
definition squote :: char where "squote = CHR 0x27"

text \<open>The text after the first \<open>*/\<close>.\<close>

fun afterComment :: "string \<Rightarrow> string option" where
  "afterComment (a # b # s) = (if a = CHR ''*'' \<and> b = CHR ''/'' then Some s else afterComment (b # s))"
| "afterComment s = None"

text \<open>Quoted text up to the closing quote, doubled quotes undone, and what follows.\<close>

fun quotedText :: "char \<Rightarrow> string \<Rightarrow> (string \<times> string) option" where
  "quotedText q [] = None"
| "quotedText q (c # s) =
     (if c = q then
        (case s of
           d # s' \<Rightarrow> if d = q then map_option (\<lambda>(t, rest). (q # t, rest)) (quotedText q s') else Some ([], s)
         | [] \<Rightarrow> Some ([], s))
      else map_option (\<lambda>(t, rest). (c # t, rest)) (quotedText q s))"

definition startsNumber :: "string \<Rightarrow> bool" where
  "startsNumber s =
     (case s of
        [] \<Rightarrow> False
      | c # s' \<Rightarrow> is_digit c \<or> c = CHR ''.'' \<and> (case s' of [] \<Rightarrow> False | d # _ \<Rightarrow> is_digit d))"

definition numberChar :: "char \<Rightarrow> bool" where
  "numberChar c \<longleftrightarrow> is_digit c \<or> c = CHR ''.'' \<or> c = CHR ''_''"

text \<open>The exponent that may follow a number: its text, empty when there is none.\<close>

definition exponentText :: "string \<Rightarrow> string" where
  "exponentText s =
     (case s of
        e # s1 \<Rightarrow>
          if e = CHR ''e'' \<or> e = CHR ''E'' then
            let sign = (case s1 of c # _ \<Rightarrow> if c = CHR ''+'' \<or> c = CHR ''-'' then [c] else [] | [] \<Rightarrow> []);
                digits = takeWhile is_digit (drop (length sign) s1)
            in if digits = [] then [] else e # sign @ digits
          else []
      | [] \<Rightarrow> [])"

definition numberText :: "string \<Rightarrow> string" where
  "numberText s = (let m = takeWhile numberChar s in m @ exponentText (drop (length m) s))"

definition identRune :: "rune_tables \<Rightarrow> int \<Rightarrow> bool" where
  "identRune R r \<longleftrightarrow> IsLetter R r \<or> IsDigit R r \<or> r = code (CHR ''_'') \<or> r = code (CHR ''$'')"

function identText :: "rune_tables \<Rightarrow> string \<Rightarrow> string" where
  "identText R s =
     (if s = [] then []
      else let (r, size) = DecodeRune s
           in if identRune R r then take size s @ identText R (drop size s) else [])"
  by pat_completeness auto
termination
proof (relation "measure (\<lambda>(R, s). length s)", goal_cases)
  case (2 R s x r size)
  then show ?case using DecodeRune_size [of s] by (cases "DecodeRune s") simp
qed simp

declare identText.simps [simp del]

definition sqlOperators :: "string list" where
  "sqlOperators = [''::'', ''<='', ''>='', ''<>'', ''!='', ''=='', ''||'', ''**'', ''//'', ''<<'', ''>>'', ''->'', '':='']"

definition operatorText :: "string \<Rightarrow> string" where
  "operatorText s =
     (case find (\<lambda>candidate. prefix candidate s) sqlOperators of
        Some candidate \<Rightarrow> candidate
      | None \<Rightarrow> take (snd (DecodeRune s)) s)"

text \<open>One token of a text that starts with neither space nor comment, and the bytes it takes.\<close>

definition nextToken :: "rune_tables \<Rightarrow> string \<Rightarrow> sql_err + (sql_token \<times> string)" where
  "nextToken R s =
     (let r = fst (DecodeRune s) in
      if hd s = dquote \<or> hd s = squote then
        (case quotedText (hd s) (tl s) of
           None \<Rightarrow> Inl (SqlError ''unterminated quoted text'')
         | Some (t, rest) \<Rightarrow>
             if hd s = dquote \<and> t = [] then Inl (SqlError ''empty quoted identifier'')
             else Inr (Tok (if hd s = dquote then TokQuotedIdent else TokString) t, rest))
      else if startsNumber s then Inr (Tok TokNumber (numberText s), drop (length (numberText s)) s)
      else if IsLetter R r \<or> r = code (CHR ''_'') then Inr (Tok TokIdent (identText R s), drop (length (identText R s)) s)
      else Inr (Tok TokOp (operatorText s), drop (length (operatorText s)) s))"

lemma afterComment_length: "afterComment s = Some rest \<Longrightarrow> length rest < length s"
  by (induction s rule: afterComment.induct) (auto split: if_splits)

lemma quotedText_length: "quotedText q s = Some (t, rest) \<Longrightarrow> length rest < length s"
  by (induction q s arbitrary: t rest rule: quotedText.induct) (fastforce split: if_splits list.splits)+

lemma numberText_not_Nil: "startsNumber s \<Longrightarrow> numberText s \<noteq> []"
  by (auto simp: startsNumber_def numberText_def numberChar_def Let_def split: list.splits)

lemma identText_not_Nil:
  assumes "s \<noteq> []" "IsLetter R (fst (DecodeRune s)) \<or> fst (DecodeRune s) = code (CHR ''_'')"
  shows "identText R s \<noteq> []"
  using assms DecodeRune_size [of s]
  by (subst identText.simps) (auto simp: identRune_def split: prod.splits)

lemma operatorText_not_Nil: "s \<noteq> [] \<Longrightarrow> operatorText s \<noteq> []"
  using DecodeRune_size [of s]
  by (auto simp: operatorText_def sqlOperators_def find_Some_iff split: option.splits if_splits)

lemma nextToken_length: "s \<noteq> [] \<Longrightarrow> nextToken R s = Inr (t, rest) \<Longrightarrow> length rest < length s"
  using quotedText_length [of "hd s" "tl s"] numberText_not_Nil [of s] identText_not_Nil [of s R] operatorText_not_Nil [of s]
  by (cases s) (auto simp: nextToken_def Let_def split: if_splits option.splits prod.splits)

function tokenizeSQL :: "rune_tables \<Rightarrow> string \<Rightarrow> sql_err + sql_token list" where
  "tokenizeSQL R s =
     (if s = [] then Inr [Tok TokEOF []]
      else if IsSpace R (fst (DecodeRune s)) then tokenizeSQL R (drop (snd (DecodeRune s)) s)
      else if prefix ''--'' s then tokenizeSQL R (drop 1 (dropWhile (\<lambda>c. c \<noteq> newline) s))
      else if prefix ''/*'' s then
        (case afterComment (drop 2 s) of
           None \<Rightarrow> Inl (SqlError ''unterminated comment'')
         | Some rest \<Rightarrow> tokenizeSQL R rest)
      else case nextToken R s of
        Inl e \<Rightarrow> Inl e
      | Inr (t, rest) \<Rightarrow> rbind (tokenizeSQL R rest) (\<lambda>ts. Inr (t # ts)))"
  by pat_completeness auto
termination
proof (relation "measure (\<lambda>(R, s). length s)", goal_cases)
  case (3 R s)
  then show ?case
    using length_dropWhile_le [of "\<lambda>c. c \<noteq> newline" s] by (cases s) auto
next
  case (4 R s rest)
  then show ?case using afterComment_length [of "drop 2 s" rest] by simp
next
  case (5 R s x t rest)
  then show ?case using nextToken_length [of s R t rest] by simp
next
  case (2 R s)
  then show ?case using DecodeRune_size [of s] by simp
qed simp

declare tokenizeSQL.simps [simp del]

section \<open>Parser\<close>

datatype sql_node =
  SqlNode (nodeKind: string) (nodeName: string) (nodeConst: string) (nodeArgs: "sql_node list")

text \<open>A parser reads tokens and counts the nodes it makes.\<close>

type_synonym 'a parser = "sql_token list \<Rightarrow> nat \<Rightarrow> sql_err + ('a \<times> sql_token list \<times> nat)"

definition pbind :: "'a parser \<Rightarrow> ('a \<Rightarrow> 'b parser) \<Rightarrow> 'b parser" where
  "pbind p f = (\<lambda>ts n. case p ts n of Inl e \<Rightarrow> Inl e | Inr (x, ts', n') \<Rightarrow> f x ts' n')"

definition preturn :: "'a \<Rightarrow> 'a parser" where
  "preturn x = (\<lambda>ts n. Inr (x, ts, n))"

definition pfail :: "sql_err \<Rightarrow> 'a parser" where
  "pfail e = (\<lambda>ts n. Inl e)"

definition sqlReservedWords :: "string list" where
  "sqlReservedWords =
     [''all'', ''and'', ''any'', ''array'', ''as'', ''asc'', ''between'', ''case'', ''cast'', ''collate'', ''desc'', ''distinct'',
      ''else'', ''end'', ''escape'', ''exists'', ''false'', ''filter'', ''from'', ''glob'', ''ilike'', ''in'', ''interval'', ''is'',
      ''isnull'', ''like'', ''not'', ''notnull'', ''null'', ''or'', ''order'', ''over'', ''select'', ''similar'', ''some'', ''then'',
      ''true'', ''try_cast'', ''when'', ''where'', ''with'']"

definition peek :: "sql_token list \<Rightarrow> sql_token" where
  "peek ts = (case ts of [] \<Rightarrow> Tok TokEOF [] | t # _ \<Rightarrow> t)"

definition advance :: "sql_token list \<Rightarrow> sql_token list" where
  "advance ts = (case ts of [] \<Rightarrow> [] | t # rest \<Rightarrow> if tokKind t = TokEOF then ts else rest)"

text \<open>\<open>next\<close>: the current token; the end of the input is never passed.\<close>

definition nextTok :: "sql_token parser" where
  "nextTok = (\<lambda>ts n. Inr (peek ts, advance ts, n))"

definition isWord :: "unicode \<Rightarrow> string \<Rightarrow> sql_token list \<Rightarrow> bool" where
  "isWord U word ts \<longleftrightarrow> tokKind (peek ts) = TokIdent \<and> EqualFold U (tokText (peek ts)) word"

definition isOp :: "string \<Rightarrow> sql_token list \<Rightarrow> bool" where
  "isOp op ts \<longleftrightarrow> tokKind (peek ts) = TokOp \<and> tokText (peek ts) = op"

definition expectOp :: "string \<Rightarrow> unit parser" where
  "expectOp op = (\<lambda>ts n. if isOp op ts then Inr ((), advance ts, n) else Inl (SqlErrorAt ''expected'' op))"

definition maxNodes :: nat where "maxNodes = 4096"

definition newNode :: "string \<Rightarrow> string \<Rightarrow> string \<Rightarrow> sql_node list \<Rightarrow> sql_node parser" where
  "newNode kind name const args = (\<lambda>ts n.
     if maxNodes < n + 1 then Inl (SqlError ''scalar expression is too complex'')
     else Inr (SqlNode kind name const args, ts, n + 1))"

text \<open>
  The loops over a level's binary operators: \<open>test\<close> gives the name of the operator the tokens start with, \<open>p\<close> reads its
  right operand.
\<close>

primrec operatorLoop ::
  "nat \<Rightarrow> (sql_token list \<Rightarrow> string option) \<Rightarrow> string \<Rightarrow> sql_node parser \<Rightarrow> sql_node \<Rightarrow> sql_node parser" where
  "operatorLoop 0 test kind p left = (\<lambda>ts n. if test ts = None then Inr (left, ts, n) else Inl OutOfFuel)"
| "operatorLoop (Suc fuel) test kind p left = (\<lambda>ts n.
     case test ts of
       None \<Rightarrow> Inr (left, ts, n)
     | Some name \<Rightarrow>
         pbind p (\<lambda>right. pbind (newNode kind name [] [left, right]) (operatorLoop fuel test kind p)) (advance ts) n)"

definition binaryLevel ::
  "(sql_token list \<Rightarrow> string option) \<Rightarrow> string \<Rightarrow> sql_node parser \<Rightarrow> sql_node parser" where
  "binaryLevel test kind p = pbind p (\<lambda>left ts n. operatorLoop (length ts) test kind p left ts n)"

definition wordTest :: "unicode \<Rightarrow> string \<Rightarrow> sql_token list \<Rightarrow> string option" where
  "wordTest U word ts = (if isWord U word ts then Some word else None)"

definition opTest :: "string list \<Rightarrow> sql_token list \<Rightarrow> string option" where
  "opTest ops ts = (if tokKind (peek ts) = TokOp \<and> tokText (peek ts) \<in> set ops then Some (tokText (peek ts)) else None)"

fun closeParams :: "sql_token list \<Rightarrow> sql_token list option" where
  "closeParams ts =
     (case ts of
        [] \<Rightarrow> None
      | t # rest \<Rightarrow> if isOp '')'' ts then Some rest else if tokKind t = TokEOF then None else closeParams rest)"

definition typeNames :: "(string \<times> string) list" where
  "typeNames =
     [(''boolean'', ''boolean''), (''bool'', ''boolean''), (''logical'', ''boolean''),
      (''tinyint'', ''tinyint''), (''int1'', ''tinyint''),
      (''smallint'', ''smallint''), (''int2'', ''smallint''), (''short'', ''smallint''),
      (''integer'', ''integer''), (''int'', ''integer''), (''int4'', ''integer''), (''signed'', ''integer''),
      (''bigint'', ''bigint''), (''int8'', ''bigint''), (''long'', ''bigint''),
      (''varchar'', ''varchar''), (''text'', ''varchar''), (''string'', ''varchar''), (''char'', ''varchar''),
      (''bpchar'', ''varchar''), (''nvarchar'', ''varchar''),
      (''float'', ''float''), (''float4'', ''float''), (''real'', ''float''),
      (''double'', ''double''), (''float8'', ''double''), (''decimal'', ''decimal''), (''numeric'', ''decimal'')]"

definition castTarget :: "string \<Rightarrow> string parser" where
  "castTarget name = (\<lambda>ts n.
     if isOp ''['' ts then Inl (SqlError ''unsupported scalar cast'')
     else Inr (case map_of typeNames name of None \<Rightarrow> [] | Some t \<Rightarrow> t, ts, n))"

definition parseTypeName :: "unicode \<Rightarrow> string parser" where
  "parseTypeName U = pbind nextTok (\<lambda>t ts n.
     if tokKind t \<noteq> TokIdent \<and> tokKind t \<noteq> TokQuotedIdent then Inl (SqlError ''expected a type name'')
     else if isOp ''.'' ts then Inl (SqlError ''qualified scalar cast types are unsupported'')
     else let name = ToLower U (tokText t) in
       if isOp ''('' ts then
         (case closeParams (advance ts) of
            None \<Rightarrow> Inl (SqlError ''unterminated type parameters'')
          | Some ts' \<Rightarrow>
              if name = ''decimal'' \<or> name = ''numeric'' then Inr (''decimal'', ts', n) else castTarget name ts' n)
       else castTarget name ts n)"

definition isNumericConstant :: "string \<Rightarrow> bool" where
  "isNumericConstant kind \<longleftrightarrow> kind \<in> {''integer'', ''bigint'', ''hugeint'', ''decimal'', ''double''}"

text \<open>
  \<open>strconv.ParseFloat\<close> on digits, dots and an exponent: at most one dot, and a value that does not round to infinity. The
  exponent stops growing at 10000, as in the library.
\<close>

definition floatOverflow :: int where
  "floatOverflow = 2 ^ 1024 - 2 ^ 970"

definition cappedExponent :: "string \<Rightarrow> int" where
  "cappedExponent ds = foldl (\<lambda>e c. if e < 10000 then 10 * e + digit_val c else e) 0 ds"

definition parseFloatOk :: "string \<Rightarrow> bool" where
  "parseFloatOk s =
     (let mant = takeWhile (\<lambda>c. is_digit c \<or> c = CHR ''.'') s;
          ex = drop (length mant + 1) s;
          neg = (ex \<noteq> [] \<and> hd ex = CHR ''-'');
          ds = (if ex \<noteq> [] \<and> (hd ex = CHR ''-'' \<or> hd ex = CHR ''+'') then tl ex else ex);
          digits = filter is_digit mant;
          frac = length (filter is_digit (dropWhile is_digit mant));
          e = (if neg then - cappedExponent ds else cappedExponent ds) - int frac;
          m = digits_val digits
      in count_list mant (CHR ''.'') \<le> 1 \<and> digits \<noteq> [] \<and> ds \<noteq> [] \<and> list_all is_digit ds \<and>
         (if 0 \<le> e then m * 10 ^ nat e < floatOverflow else m < floatOverflow * 10 ^ nat (- e)))"

definition numericConstantType :: "string \<Rightarrow> sql_err + string" where
  "numericConstantType s =
     (let clean = filter (\<lambda>c. c \<noteq> CHR ''_'') s in
      if CHR ''e'' \<in> set clean \<or> CHR ''E'' \<in> set clean then
        (if parseFloatOk clean then Inr ''double'' else Inl (SqlErrorAt ''invalid numeric literal'' s))
      else if CHR ''.'' \<in> set clean then
        (if 1 < count_list clean (CHR ''.'') then Inl (SqlErrorAt ''invalid numeric literal'' s) else Inr ''decimal'')
      else if digits_val clean \<le> 2 ^ 31 - 1 then Inr ''integer''
      else if digits_val clean \<le> 2 ^ 63 - 1 then Inr ''bigint''
      else Inr ''hugeint'')"

definition constNode :: "string \<Rightarrow> sql_node parser" where
  "constNode const = newNode ''const'' [] const []"

text \<open>The arguments of a call, \<open>p\<close> reading one.\<close>

definition namedArgument :: "sql_token list \<Rightarrow> bool" where
  "namedArgument ts \<longleftrightarrow>
     (tokKind (peek ts) = TokIdent \<or> tokKind (peek ts) = TokQuotedIdent) \<and> (isOp '':='' (drop 1 ts) \<or> isOp ''=>'' (drop 1 ts))"

primrec parseArgs :: "nat \<Rightarrow> unicode \<Rightarrow> sql_node parser \<Rightarrow> sql_node list \<Rightarrow> sql_node list parser" where
  "parseArgs 0 U p args = pfail OutOfFuel"
| "parseArgs (Suc fuel) U p args = (\<lambda>ts n.
     if namedArgument ts then Inl (SqlError ''named scalar arguments are unsupported'')
     else pbind p (\<lambda>arg ts n.
       if isWord U ''order'' ts then Inl (SqlError ''ORDER BY arguments are unsupported'')
       else if isOp '','' ts then parseArgs fuel U p (args @ [arg]) (advance ts) n
       else Inr (args @ [arg], ts, n)) ts n)"

definition parseCall :: "unicode \<Rightarrow> sql_node parser \<Rightarrow> string \<Rightarrow> sql_node parser" where
  "parseCall U p word = (\<lambda>ts n.
     if isWord U ''distinct'' ts \<or> isWord U ''all'' ts \<or> isOp ''*'' ts then Inl (SqlError ''aggregate syntax is unsupported'')
     else pbind (if isOp '')'' ts then preturn [] else parseArgs (Suc (length ts)) U p []) (\<lambda>args.
       pbind (expectOp '')'') (\<lambda>_ ts n.
         if isWord U ''filter'' ts \<or> isWord U ''over'' ts then Inl (SqlError ''FILTER/OVER clauses are unsupported'')
         else if word = ''coalesce'' then
           (if args = [] then Inl (SqlError ''COALESCE requires arguments'') else newNode ''coalesce'' ''coalesce'' [] args ts n)
         else newNode ''func'' word [] args ts n)) ts n)"

definition parseCast :: "unicode \<Rightarrow> sql_node parser \<Rightarrow> sql_node parser" where
  "parseCast U p =
     pbind (expectOp ''('') (\<lambda>_. pbind p (\<lambda>operand ts n.
       if \<not> isWord U ''as'' ts then Inl (SqlError ''expected AS in CAST'')
       else pbind (parseTypeName U) (\<lambda>target. pbind (expectOp '')'') (\<lambda>_. newNode ''cast'' target [] [operand])) (advance ts) n))"

definition parseWord :: "unicode \<Rightarrow> sql_node parser \<Rightarrow> string \<Rightarrow> sql_node parser" where
  "parseWord U p t = (\<lambda>ts n.
     let word = ToLower U t in
     if word \<in> {''null'', ''true'', ''false''} then constNode (if word = ''null'' then ''null'' else ''boolean'') ts n
     else if word = ''cast'' then parseCast U p ts n
     else if word = ''try_cast'' then Inl (SqlError ''TRY_CAST is unsupported'')
     else if isOp ''('' ts then parseCall U p word (advance ts) n
     else if word \<in> set sqlReservedWords then Inl (SqlErrorAt ''unsupported expression'' (ToUpper U word))
     else if isOp ''.'' ts then Inl (SqlError ''qualified column references are unsupported'')
     else newNode ''column'' t [] [] ts n)"

text \<open>\<open>p\<close> is \<open>parseOr\<close> one level deeper.\<close>

definition parsePrimary :: "unicode \<Rightarrow> sql_node parser \<Rightarrow> sql_node parser" where
  "parsePrimary U p = pbind nextTok (\<lambda>t ts n.
     case tokKind t of
       TokNumber \<Rightarrow> (case numericConstantType (tokText t) of Inl e \<Rightarrow> Inl e | Inr kind \<Rightarrow> constNode kind ts n)
     | TokString \<Rightarrow> constNode ''varchar'' ts n
     | TokQuotedIdent \<Rightarrow>
         if isOp ''('' ts then Inl (SqlError ''quoted function names are unsupported'')
         else if isOp ''.'' ts then Inl (SqlError ''qualified column references are unsupported'')
         else newNode ''column'' (tokText t) [] [] ts n
     | TokOp \<Rightarrow>
         if tokText t = ''('' then
           pbind p (\<lambda>inner ts n.
             if isOp '','' ts then Inl (SqlError ''row constructors are unsupported'')
             else pbind (expectOp '')'') (\<lambda>_. preturn inner) ts n) ts n
         else if tokText t = ''*'' then Inl (SqlError ''star expressions are unsupported'')
         else if tokText t = ''?'' \<or> tokText t = ''$'' then Inl (SqlError ''parameters are unsupported'')
         else Inl (SqlErrorAt ''unexpected'' (tokText t))
     | TokIdent \<Rightarrow> parseWord U p (tokText t) ts n
     | TokEOF \<Rightarrow> Inl (SqlError ''expected a scalar expression''))"

primrec castLoop :: "nat \<Rightarrow> unicode \<Rightarrow> sql_node \<Rightarrow> sql_node parser" where
  "castLoop 0 U expr = (\<lambda>ts n. if isOp ''::'' ts then Inl OutOfFuel else Inr (expr, ts, n))"
| "castLoop (Suc fuel) U expr = (\<lambda>ts n.
     if isOp ''::'' ts then
       pbind (parseTypeName U) (\<lambda>target. pbind (newNode ''cast'' target [] [expr]) (castLoop fuel U)) (advance ts) n
     else Inr (expr, ts, n))"

definition parsePostfix :: "unicode \<Rightarrow> sql_node parser \<Rightarrow> sql_node parser" where
  "parsePostfix U p =
     pbind (parsePrimary U p) (\<lambda>expr. pbind (\<lambda>ts n. castLoop (length ts) U expr ts n) (\<lambda>expr ts n.
       if isOp ''['' ts \<or> isOp ''.'' ts then Inl (SqlError ''subscripts and qualified names are unsupported'')
       else Inr (expr, ts, n)))"

text \<open>\<open>u\<close> is \<open>parseUnary\<close> one level deeper.\<close>

definition parseUnary :: "unicode \<Rightarrow> sql_node parser \<Rightarrow> sql_node parser \<Rightarrow> sql_node parser" where
  "parseUnary U p u = (\<lambda>ts n.
     if isOp ''-'' ts \<or> isOp ''+'' ts then
       pbind u (\<lambda>operand.
         if tokText (peek ts) = ''-'' \<and> nodeKind operand = ''const'' \<and> isNumericConstant (nodeConst operand) then preturn operand
         else newNode ''func'' (tokText (peek ts)) [] [operand]) (advance ts) n
     else parsePostfix U p ts n)"

definition parseMultiplicative :: "sql_node parser \<Rightarrow> sql_node parser" where
  "parseMultiplicative p = binaryLevel (opTest [''*'', ''/'', ''%'']) ''func'' p"

definition parseAdditive :: "sql_node parser \<Rightarrow> sql_node parser" where
  "parseAdditive p = binaryLevel (opTest [''+'', ''-'']) ''func'' p"

definition parseOther :: "sql_node parser \<Rightarrow> sql_node parser" where
  "parseOther p = pbind (binaryLevel (opTest [''||'']) ''func'' p) (\<lambda>left ts n.
     if tokKind (peek ts) = TokOp \<and>
       tokText (peek ts) \<in> set [''^'', ''**'', ''//'', ''&'', ''|'', ''<<'', ''>>'', ''~'', ''!'', ''@'', ''->'', ''['', '':='']
     then Inl (SqlErrorAt ''unsupported operator'' (tokText (peek ts)))
     else Inr (left, ts, n))"

definition sqlComparisons :: "(string \<times> string) list" where
  "sqlComparisons = [(''='', ''=''), (''=='', ''=''), (''!='', ''<>''), (''<>'', ''<>''), (''<'', ''<''), (''>'', ''>''),
     (''<='', ''<=''), (''>='', ''>='')]"

definition comparisonAt :: "sql_token list \<Rightarrow> string option" where
  "comparisonAt ts = (if tokKind (peek ts) = TokOp then map_of sqlComparisons (tokText (peek ts)) else None)"

definition parseCompare :: "unicode \<Rightarrow> sql_node parser \<Rightarrow> sql_node parser" where
  "parseCompare U p = pbind p (\<lambda>left ts n.
     case comparisonAt ts of
       Some op \<Rightarrow>
         pbind p (\<lambda>right ts n.
           if comparisonAt ts \<noteq> None then Inl (SqlError ''chained comparisons are not valid SQL'')
           else newNode ''compare'' op [] [left, right] ts n) (advance ts) n
     | None \<Rightarrow>
         let word = ToLower U (tokText (peek ts)) in
         if tokKind (peek ts) = TokIdent \<and> word \<in> set [''in'', ''like'', ''ilike'', ''glob'', ''similar'', ''between'']
         then Inl (SqlErrorAt ''unsupported expression'' (ToUpper U (tokText (peek ts))))
         else if tokKind (peek ts) = TokIdent \<and> word = ''not''
         then Inl (SqlError ''unsupported NOT IN/LIKE/BETWEEN expression'')
         else Inr (left, ts, n))"

definition parseIs :: "unicode \<Rightarrow> sql_node parser \<Rightarrow> sql_node parser" where
  "parseIs U p = pbind p (\<lambda>left ts n.
     if isWord U ''isnull'' ts then newNode ''isnull'' ''is null'' [] [left] (advance ts) n
     else if isWord U ''notnull'' ts then newNode ''isnull'' ''is not null'' [] [left] (advance ts) n
     else if isWord U ''is'' ts then
       (let negated = isWord U ''not'' (advance ts);
            ts' = (if negated then advance (advance ts) else advance ts)
        in if \<not> isWord U ''null'' ts' then Inl (SqlError ''only IS [NOT] NULL is supported'')
           else newNode ''isnull'' (if negated then ''is not null'' else ''is null'') [] [left] (advance ts') n)
     else Inr (left, ts, n))"

text \<open>\<open>q\<close> is \<open>parseNot\<close> one level deeper.\<close>

definition parseNot :: "unicode \<Rightarrow> sql_node parser \<Rightarrow> sql_node parser \<Rightarrow> sql_node parser" where
  "parseNot U p q = (\<lambda>ts n.
     if isWord U ''not'' ts then pbind q (\<lambda>operand. newNode ''not'' ''not'' [] [operand]) (advance ts) n else p ts n)"

definition parseAnd :: "unicode \<Rightarrow> sql_node parser \<Rightarrow> sql_node parser" where
  "parseAnd U p = binaryLevel (wordTest U ''and'') ''and'' p"

definition parseOr :: "unicode \<Rightarrow> sql_node parser \<Rightarrow> sql_node parser" where
  "parseOr U p = binaryLevel (wordTest U ''or'') ''or'' p"

text \<open>The three parsers that call themselves at the next depth: \<open>parseOr\<close>, \<open>parseNot\<close> and \<open>parseUnary\<close> at level \<open>k\<close>.\<close>

primrec parseLevel :: "unicode \<Rightarrow> nat \<Rightarrow> sql_node parser \<times> sql_node parser \<times> sql_node parser" where
  "parseLevel U 0 =
     (let tooDeep = pfail (SqlError ''scalar expression is too complex'') in (tooDeep, tooDeep, tooDeep))"
| "parseLevel U (Suc k) =
     (let (p, q, u) = parseLevel U k;
          unary = parseUnary U p u;
          compare = parseCompare U (parseOther (parseAdditive (parseMultiplicative unary)));
          neg = parseNot U (parseIs U compare) q
      in (parseOr U (parseAnd U neg), neg, unary))"

declare parseLevel.simps [simp del]

definition maxDepth :: nat where "maxDepth = 64"

definition parseScalarSQL :: "unicode \<Rightarrow> rune_tables \<Rightarrow> string \<Rightarrow> sql_err + sql_node" where
  "parseScalarSQL U R sql =
     (if sql = [] \<or> 1024 * 1024 < length sql \<or> CHR 0x00 \<in> set sql \<or> \<not> utf8_valid (str sql)
      then Inl (SqlError ''invalid SQL size or text'')
      else rbind (tokenizeSQL R sql) (\<lambda>tokens.
        case fst (parseLevel U (maxDepth + 1)) tokens 0 of
          Inl e \<Rightarrow> Inl e
        | Inr (expr, ts, _) \<Rightarrow>
            if tokKind (peek ts) = TokEOF then Inr expr
            else if tokKind (peek ts) = TokIdent \<and>
              (EqualFold U (tokText (peek ts)) ''as'' \<or> ToLower U (tokText (peek ts)) \<notin> set sqlReservedWords)
            then Inl (SqlError ''aliases are unsupported'')
            else Inl (SqlErrorAt ''expected exactly one scalar expression'' (tokText (peek ts)))))"

section \<open>Validators\<close>

text \<open>
  \<open>findColumnCI\<close>: the only field whose name matches up to case; \<open>None\<close> for -1.
\<close>

definition findColumnCI :: "unicode \<Rightarrow> arrow_schema option \<Rightarrow> string \<Rightarrow> sql_err + nat option" where
  "findColumnCI U columns name =
     (case columns of
        None \<Rightarrow> Inr None
      | Some sch \<Rightarrow>
          (case filter (\<lambda>i. EqualFold U (fieldName (schemaFields sch ! i)) name) [0..<length (schemaFields sch)] of
             [] \<Rightarrow> Inr None
           | [i] \<Rightarrow> Inr (Some i)
           | _ \<Rightarrow> Inl (SqlErrorAt ''ambiguous column reference'' name)))"

definition numericArrow :: "arrow_type \<Rightarrow> bool" where
  "numericArrow t \<longleftrightarrow> t \<in> {INT8, INT16, INT32, INT64, FLOAT32, FLOAT64}"

definition isExtension :: "arrow_field \<Rightarrow> bool" where
  "isExtension f \<longleftrightarrow> hasMeta f ''ARROW:extension:name'' \<or> (case fieldType f of EXTENSION _ _ \<Rightarrow> True | _ \<Rightarrow> False)"

definition checkOperand :: "unicode \<Rightarrow> arrow_schema option \<Rightarrow> sql_node \<Rightarrow> sql_err + unit" where
  "checkOperand U columns operand =
     (if nodeKind operand = ''const'' then
        (if isNumericConstant (nodeConst operand) then Inr () else Inl (SqlError ''CHECK requires numeric operands''))
      else if nodeKind operand = ''column'' then
        (case columns of
           None \<Rightarrow> Inr ()
         | Some sch \<Rightarrow>
             rbind (findColumnCI U columns (nodeName operand)) (\<lambda>index.
               case index of
                 None \<Rightarrow> Inl (SqlErrorAt ''CHECK references a missing or synthetic column'' (nodeName operand))
               | Some i \<Rightarrow>
                   let field = schemaFields sch ! i in
                   if isRowIDField field then Inl (SqlErrorAt ''CHECK references a missing or synthetic column'' (nodeName operand))
                   else if isExtension field then Inl (SqlError ''CHECK extension-typed operands are unsupported'')
                   else if \<not> numericArrow (fieldType field)
                   then Inl (SqlErrorAt ''CHECK requires primitive signed numeric columns'' (fieldName field))
                   else Inr ()))
      else Inl (SqlError ''only numeric column/constant comparisons are supported''))"

definition validateNumericCheckSQL ::
  "unicode \<Rightarrow> rune_tables \<Rightarrow> string \<Rightarrow> arrow_schema option \<Rightarrow> sql_err + unit" where
  "validateNumericCheckSQL U R sql columns =
     rbind (parseScalarSQL U R sql) (\<lambda>expr.
       if nodeKind expr \<noteq> ''compare'' then Inl (SqlError ''only a Boolean numeric comparison is supported'')
       else foldl (\<lambda>r operand. rbind r (\<lambda>_. checkOperand U columns operand)) (Inr ()) (nodeArgs expr))"

definition generatedPrimitiveArrow :: "arrow_field \<Rightarrow> bool" where
  "generatedPrimitiveArrow f \<longleftrightarrow>
     \<not> isExtension f \<and> fieldType f \<in> {BOOL, INT8, INT16, INT32, INT64, STRING}"

definition checkGeneratedNode :: "unicode \<Rightarrow> arrow_schema option \<Rightarrow> string \<Rightarrow> sql_node \<Rightarrow> sql_err + unit" where
  "checkGeneratedNode U columns self node =
     (let kind = nodeKind node in
      if kind = ''const'' then
        (if nodeConst node \<in> {''null'', ''boolean'', ''integer'', ''bigint'', ''varchar''} then Inr ()
         else Inl (SqlErrorAt ''unsupported scalar literal type'' (ToUpper U (nodeConst node))))
      else if kind = ''column'' then
        (case columns of
           None \<Rightarrow> Inr ()
         | Some sch \<Rightarrow>
             rbind (findColumnCI U columns (nodeName node)) (\<lambda>index.
               case index of
                 None \<Rightarrow> Inl (SqlErrorAt ''generated expression references unknown column'' (nodeName node))
               | Some i \<Rightarrow>
                   let field = schemaFields sch ! i in
                   if isRowIDField field then Inl (SqlErrorAt ''generated expression references unknown column'' (nodeName node))
                   else if EqualFold U (fieldName field) self then Inl (SqlErrorAt ''generated column cannot reference itself'' self)
                   else if \<not> generatedPrimitiveArrow field
                   then Inl (SqlErrorAt ''unsupported generated operand type for column'' (fieldName field))
                   else Inr ()))
      else if kind = ''cast'' then
        (if nodeName node \<in> {''boolean'', ''tinyint'', ''smallint'', ''integer'', ''bigint'', ''varchar''} then Inr ()
         else Inl (SqlError ''unsupported scalar cast''))
      else if kind \<in> {''compare'', ''and'', ''or'', ''not'', ''isnull'', ''coalesce''} then Inr ()
      else if kind = ''func'' then
        (if nodeName node \<in> {''+'', ''-'', ''*'', ''%'', ''abs'', ''lower'', ''upper'', ''||''} then Inr ()
         else Inl (SqlErrorAt ''unsupported scalar function'' (nodeName node)))
      else Inl (SqlError ''expression is outside the supported deterministic scalar grammar''))"

fun walkGenerated :: "unicode \<Rightarrow> arrow_schema option \<Rightarrow> string \<Rightarrow> sql_node \<Rightarrow> sql_err + unit"
  and walkArgs :: "unicode \<Rightarrow> arrow_schema option \<Rightarrow> string \<Rightarrow> sql_node list \<Rightarrow> sql_err + unit" where
  "walkGenerated U columns self (SqlNode kind name const args) =
     rbind (checkGeneratedNode U columns self (SqlNode kind name const args)) (\<lambda>_. walkArgs U columns self args)"
| "walkArgs U columns self [] = Inr ()"
| "walkArgs U columns self (a # as) = rbind (walkGenerated U columns self a) (\<lambda>_. walkArgs U columns self as)"

definition validateGeneratedSQL ::
  "unicode \<Rightarrow> rune_tables \<Rightarrow> string \<Rightarrow> arrow_schema option \<Rightarrow> string \<Rightarrow> sql_err + unit" where
  "validateGeneratedSQL U R sql columns self = rbind (parseScalarSQL U R sql) (walkGenerated U columns self)"

section \<open>The parser stays within its bounds\<close>

text \<open>Every node of a tree.\<close>

fun treeNodes :: "sql_node \<Rightarrow> nat" where
  "treeNodes (SqlNode kind name const args) = Suc (sum_list (map treeNodes args))"

text \<open>
  The outcome of a parser at the tokens \<open>ts\<close> and the count \<open>n\<close> is in order when it is not \<open>OutOfFuel\<close> and, if it is a
  result, there are no more tokens than before and the count has grown by the nodes of the result, of which \<open>c\<close> were
  counted before, up to the limit.
\<close>

definition ok_at ::
  "nat \<Rightarrow> ('a \<Rightarrow> nat) \<Rightarrow> sql_token list \<Rightarrow> nat \<Rightarrow> sql_err + ('a \<times> sql_token list \<times> nat) \<Rightarrow> bool" where
  "ok_at c w ts n r =
     (case r of
        Inl e \<Rightarrow> e \<noteq> OutOfFuel
      | Inr (x, ts', n') \<Rightarrow> length ts' \<le> length ts \<and> n + w x \<le> n' + c \<and> n' \<le> max n maxNodes)"

definition sound :: "sql_node parser \<Rightarrow> bool" where
  "sound p \<longleftrightarrow> (\<forall>ts n. ok_at 0 treeNodes ts n (p ts n))"

lemma ok_at_simps [simp]:
  "ok_at c w ts n (Inl e) \<longleftrightarrow> e \<noteq> OutOfFuel"
  "ok_at c w ts n (Inr (x, ts', n')) \<longleftrightarrow> length ts' \<le> length ts \<and> n + w x \<le> n' + c \<and> n' \<le> max n maxNodes"
  by (simp_all add: ok_at_def)

lemma length_advance [simp]: "length (advance ts) \<le> length ts"
  by (cases ts) (simp_all add: advance_def)

lemma advance_less: "tokKind (peek ts) \<noteq> TokEOF \<Longrightarrow> length (advance ts) < length ts"
  by (cases ts) (simp_all add: advance_def peek_def)

lemma ok_at_shorter: "ok_at c w ts' n r \<Longrightarrow> length ts' \<le> length ts \<Longrightarrow> ok_at c w ts n r"
  by (auto simp: ok_at_def split: sum.splits prod.splits)

lemma ok_at_advance: "ok_at c w (advance ts) n r \<Longrightarrow> ok_at c w ts n r"
  by (erule ok_at_shorter) (rule length_advance)

lemma ok_at_frame: "ok_at c w ts n r \<Longrightarrow> ok_at (c + d) (\<lambda>x. w x + d) ts n r"
  by (auto simp: ok_at_def split: sum.splits prod.splits)

lemma ok_at_pbind:
  assumes "ok_at c v ts n (p ts n)"
    and "\<And>x ts' n'. p ts n = Inr (x, ts', n') \<Longrightarrow> length ts' \<le> length ts \<Longrightarrow> ok_at (v x) w ts' n' (f x ts' n')"
  shows "ok_at c w ts n (pbind p f ts n)"
proof (cases "p ts n")
  case (Inr r)
  obtain x ts' n' where r: "r = (x, ts', n')" by (cases r)
  have le: "length ts' \<le> length ts" "n + v x \<le> n' + c" "n' \<le> max n maxNodes"
    using assms(1) Inr r by simp_all
  show ?thesis
    using assms(2) [OF Inr [unfolded r] le(1)] le
    by (auto simp: pbind_def Inr r ok_at_def split: sum.splits prod.splits)
qed (use assms(1) in \<open>simp add: pbind_def\<close>)

lemma ok_at_newNode:
  "sum_list (map treeNodes args) \<le> c \<Longrightarrow> ok_at c treeNodes ts n (newNode kind name const args ts n)"
  by (simp add: newNode_def)

lemma soundD: "sound p \<Longrightarrow> ok_at 0 treeNodes ts n (p ts n)"
  by (simp add: sound_def)

text \<open>Reading an operand while nodes worth \<open>d\<close> are held.\<close>

lemma sound_held: "sound p \<Longrightarrow> ok_at d (\<lambda>x. treeNodes x + d) ts n (p ts n)"
  using ok_at_frame [OF soundD [of p ts n], of d] by simp

lemma ok_at_expectOp [simp]: "ok_at c (\<lambda>_. c) ts n (expectOp op ts n)"
  by (simp add: expectOp_def)

lemma closeParams_length: "closeParams ts = Some ts' \<Longrightarrow> length ts' \<le> length ts"
proof (induction ts rule: closeParams.induct)
  case (1 ts)
  then show ?case by (cases ts) (auto split: if_splits)
qed

lemma ok_at_parseTypeName: "ok_at c (\<lambda>_. c) ts n (parseTypeName U ts n)"
proof -
  have "length ts' \<le> length ts" if "closeParams (advance (advance ts)) = Some ts'" for ts'
    using closeParams_length [OF that] length_advance [of "advance ts"] length_advance [of ts] by linarith
  then show ?thesis
    by (auto simp: parseTypeName_def castTarget_def pbind_def nextTok_def Let_def split: option.splits)
qed

lemma ok_at_operatorLoop:
  assumes "sound p" "\<And>ts. test ts \<noteq> None \<Longrightarrow> length (advance ts) < length ts" "length ts \<le> fuel"
  shows "ok_at (treeNodes left) treeNodes ts n (operatorLoop fuel test kind p left ts n)"
  using assms(3)
proof (induction fuel arbitrary: left ts n)
  case 0
  then show ?case using assms(2) [of ts] by (cases "test ts") auto
next
  case (Suc fuel)
  show ?case
  proof (cases "test ts")
    case (Some name)
    then have less: "length (advance ts) \<le> fuel" using assms(2) [of ts] Suc.prems by simp
    have "ok_at (treeNodes left) treeNodes (advance ts) n
        (pbind p (\<lambda>right. pbind (newNode kind name [] [left, right]) (operatorLoop fuel test kind p)) (advance ts) n)"
    proof (rule ok_at_pbind [OF sound_held [OF assms(1)]])
      fix right and ts' :: "sql_token list" and n'
      assume le: "length ts' \<le> length (advance ts)"
      show "ok_at (treeNodes right + treeNodes left) treeNodes ts' n'
          (pbind (newNode kind name [] [left, right]) (operatorLoop fuel test kind p) ts' n')"
        by (rule ok_at_pbind [OF ok_at_newNode], simp)
          (rule Suc.IH, use le less in \<open>auto simp: newNode_def split: if_splits\<close>)
    qed
    then show ?thesis by (simp add: Some ok_at_advance)
  qed simp
qed

lemma sound_binaryLevel:
  assumes "sound p" "\<And>ts. test ts \<noteq> None \<Longrightarrow> length (advance ts) < length ts"
  shows "sound (binaryLevel test kind p)"
  unfolding sound_def binaryLevel_def
  by (intro allI ok_at_pbind [OF soundD [OF assms(1)]] ok_at_operatorLoop [OF assms(1)] assms(2) order_refl)

lemma test_less:
  "wordTest U word ts \<noteq> None \<Longrightarrow> length (advance ts) < length ts"
  "opTest ops ts \<noteq> None \<Longrightarrow> length (advance ts) < length ts"
  "isOp op ts \<Longrightarrow> length (advance ts) < length ts"
  by (auto simp: wordTest_def isWord_def opTest_def isOp_def intro!: advance_less split: if_splits)

lemma sound_levels:
  "sound p \<Longrightarrow> sound (parseOr U p)" "sound p \<Longrightarrow> sound (parseAnd U p)"
  "sound p \<Longrightarrow> sound (parseAdditive p)" "sound p \<Longrightarrow> sound (parseMultiplicative p)"
  unfolding parseOr_def parseAnd_def parseAdditive_def parseMultiplicative_def
  by (erule sound_binaryLevel, erule test_less)+

lemma sound_parseOther: "sound p \<Longrightarrow> sound (parseOther p)"
  unfolding sound_def parseOther_def
  by (intro allI ok_at_pbind [OF soundD [OF sound_binaryLevel [OF _ test_less(2)]]]) (auto simp: sound_def)

lemma sound_parseCompare: "sound p \<Longrightarrow> sound (parseCompare U p)"
proof -
  assume p: "sound p"
  have "ok_at (treeNodes left) treeNodes ts n
      (case comparisonAt ts of
         Some op \<Rightarrow>
           pbind p (\<lambda>right ts n.
             if comparisonAt ts \<noteq> None then Inl (SqlError ''chained comparisons are not valid SQL'')
             else newNode ''compare'' op [] [left, right] ts n) (advance ts) n
       | None \<Rightarrow>
           let word = ToLower U (tokText (peek ts)) in
           if tokKind (peek ts) = TokIdent \<and> word \<in> set [''in'', ''like'', ''ilike'', ''glob'', ''similar'', ''between'']
           then Inl (SqlErrorAt ''unsupported expression'' (ToUpper U (tokText (peek ts))))
           else if tokKind (peek ts) = TokIdent \<and> word = ''not''
           then Inl (SqlError ''unsupported NOT IN/LIKE/BETWEEN expression'')
           else Inr (left, ts, n))" for left ts n
  proof (cases "comparisonAt ts")
    case (Some op)
    show ?thesis
      unfolding Some option.case
      by (rule ok_at_advance, rule ok_at_pbind [OF sound_held [OF p]]) (simp add: ok_at_newNode)
  qed (simp add: Let_def)
  then show ?thesis
    unfolding sound_def parseCompare_def by (intro allI ok_at_pbind [OF soundD [OF p]])
qed

lemma sound_parseIs: "sound p \<Longrightarrow> sound (parseIs U p)"
proof -
  assume p: "sound p"
  have short: "ok_at (treeNodes left) treeNodes ts n (newNode kind name [] [left] ts' n)" if "length ts' \<le> length ts"
    for left ts n kind name ts'
    by (rule ok_at_shorter [OF ok_at_newNode that]) simp
  have "length (advance (advance ts)) \<le> length ts" "length (advance (advance (advance ts))) \<le> length ts" for ts
    by (meson length_advance order_trans)+
  with p short show ?thesis
    unfolding sound_def parseIs_def by (intro allI ok_at_pbind [where v = treeNodes]) (simp_all add: Let_def)
qed

lemma sound_parseNot: "sound p \<Longrightarrow> sound q \<Longrightarrow> sound (parseNot U p q)"
  unfolding sound_def parseNot_def
  by (auto intro!: ok_at_advance [OF ok_at_pbind [where v = treeNodes]] ok_at_newNode)

lemma ok_at_castLoop:
  assumes "length ts \<le> fuel"
  shows "ok_at (treeNodes expr) treeNodes ts n (castLoop fuel U expr ts n)"
  using assms
proof (induction fuel arbitrary: expr ts n)
  case 0
  then show ?case using test_less(3) [of "''::''" ts] by auto
next
  case (Suc fuel)
  show ?case
  proof (cases "isOp ''::'' ts")
    case True
    then have less: "length (advance ts) \<le> fuel" using test_less(3) [of "''::''" ts] Suc.prems by simp
    have "ok_at (treeNodes expr) treeNodes (advance ts) n
        (pbind (parseTypeName U) (\<lambda>target. pbind (newNode ''cast'' target [] [expr]) (castLoop fuel U)) (advance ts) n)"
    proof (rule ok_at_pbind [OF ok_at_parseTypeName])
      fix target and ts' :: "sql_token list" and n'
      assume le: "length ts' \<le> length (advance ts)"
      show "ok_at (treeNodes expr) treeNodes ts' n' (pbind (newNode ''cast'' target [] [expr]) (castLoop fuel U) ts' n')"
        by (rule ok_at_pbind [OF ok_at_newNode], simp)
          (rule Suc.IH, use le less in \<open>auto simp: newNode_def split: if_splits\<close>)
    qed
    then show ?thesis by (simp add: True ok_at_advance)
  qed simp
qed

lemma ok_at_parseArgs:
  assumes "sound p" "length ts < fuel"
  shows "ok_at (sum_list (map treeNodes args)) (\<lambda>as. sum_list (map treeNodes as)) ts n (parseArgs fuel U p args ts n)"
  using assms(2)
proof (induction fuel arbitrary: args ts n)
  case (Suc fuel)
  let ?more = "\<lambda>arg ts n.
       if isWord U ''order'' ts then Inl (SqlError ''ORDER BY arguments are unsupported'')
       else if isOp '','' ts then parseArgs fuel U p (args @ [arg]) (advance ts) n
       else Inr (args @ [arg], ts, n)"
  have "ok_at (sum_list (map treeNodes args)) (\<lambda>as. sum_list (map treeNodes as)) ts n (pbind p ?more ts n)"
  proof (rule ok_at_pbind [OF sound_held [OF assms(1)]])
    fix arg and ts' :: "sql_token list" and n'
    assume le: "length ts' \<le> length ts"
    have "length (advance ts') < fuel" if "isOp '','' ts'"
      using test_less(3) [OF that] le Suc.prems by simp
    then show "ok_at (treeNodes arg + sum_list (map treeNodes args)) (\<lambda>as. sum_list (map treeNodes as)) ts' n' (?more arg ts' n')"
      using ok_at_advance [OF Suc.IH [of "advance ts'" "args @ [arg]" n']] by (auto simp: add.commute)
  qed
  then show ?case by simp
qed simp

lemma ok_at_parseCall:
  assumes "sound p"
  shows "ok_at 0 treeNodes ts n (parseCall U p word ts n)"
proof -
  have "ok_at 0 (\<lambda>as. sum_list (map treeNodes as)) ts n
      ((if isOp '')'' ts then preturn [] else parseArgs (Suc (length ts)) U p []) ts n)"
    using ok_at_parseArgs [OF assms lessI, where args = "[]"] by (simp add: preturn_def)
  then have "ok_at 0 treeNodes ts n
      (pbind (if isOp '')'' ts then preturn [] else parseArgs (Suc (length ts)) U p []) (\<lambda>args.
       pbind (expectOp '')'') (\<lambda>_ ts n.
         if isWord U ''filter'' ts \<or> isWord U ''over'' ts then Inl (SqlError ''FILTER/OVER clauses are unsupported'')
         else if word = ''coalesce'' then
           (if args = [] then Inl (SqlError ''COALESCE requires arguments'') else newNode ''coalesce'' ''coalesce'' [] args ts n)
         else newNode ''func'' word [] args ts n)) ts n)"
    by (rule ok_at_pbind) (intro ok_at_pbind [OF ok_at_expectOp], simp add: ok_at_newNode)
  then show ?thesis by (simp add: parseCall_def)
qed

lemma ok_at_parseCast:
  assumes "sound p"
  shows "ok_at 0 treeNodes ts n (parseCast U p ts n)"
proof -
  have "ok_at (treeNodes operand) treeNodes ts n
      (pbind (parseTypeName U) (\<lambda>target. pbind (expectOp '')'') (\<lambda>_. newNode ''cast'' target [] [operand])) ts n)" for operand ts n
    by (intro ok_at_pbind [OF ok_at_parseTypeName] ok_at_pbind [OF ok_at_expectOp] ok_at_newNode) simp
  then show ?thesis
    unfolding parseCast_def
    by (intro ok_at_pbind [OF ok_at_expectOp] ok_at_pbind [OF soundD [OF assms]]) (auto intro: ok_at_advance)
qed

lemma numericConstantType_fuel: "numericConstantType s = Inl e \<Longrightarrow> e \<noteq> OutOfFuel"
  by (auto simp: numericConstantType_def Let_def split: if_splits)

lemma sound_parsePrimary: "sound p \<Longrightarrow> sound (parsePrimary U p)"
proof -
  assume p: "sound p"
  have word: "ok_at 0 treeNodes ts n (parseWord U p t ts n)" for t ts n
    using ok_at_parseCast [OF p] ok_at_advance [OF ok_at_parseCall [OF p]]
    by (simp add: parseWord_def constNode_def ok_at_newNode Let_def)
  have paren: "ok_at 0 treeNodes ts n (pbind p (\<lambda>inner ts n.
             if isOp '','' ts then Inl (SqlError ''row constructors are unsupported'')
             else pbind (expectOp '')'') (\<lambda>_. preturn inner) ts n) ts n)" for ts n
  proof (rule ok_at_pbind [OF soundD [OF p]])
    fix inner ts' n'
    show "ok_at (treeNodes inner) treeNodes ts' n'
        (if isOp '','' ts' then Inl (SqlError ''row constructors are unsupported'')
         else pbind (expectOp '')'') (\<lambda>_. preturn inner) ts' n')"
      by (auto intro!: ok_at_pbind [OF ok_at_expectOp] simp: preturn_def)
  qed
  have "ok_at 0 (\<lambda>_. 0) ts n (nextTok ts n)" for ts n
    by (simp add: nextTok_def)
  moreover have "ok_at 0 treeNodes ts n
      (case tokKind t of
         TokNumber \<Rightarrow> (case numericConstantType (tokText t) of Inl e \<Rightarrow> Inl e | Inr kind \<Rightarrow> constNode kind ts n)
       | TokString \<Rightarrow> constNode ''varchar'' ts n
       | TokQuotedIdent \<Rightarrow>
           if isOp ''('' ts then Inl (SqlError ''quoted function names are unsupported'')
           else if isOp ''.'' ts then Inl (SqlError ''qualified column references are unsupported'')
           else newNode ''column'' (tokText t) [] [] ts n
       | TokOp \<Rightarrow>
           if tokText t = ''('' then
             pbind p (\<lambda>inner ts n.
               if isOp '','' ts then Inl (SqlError ''row constructors are unsupported'')
               else pbind (expectOp '')'') (\<lambda>_. preturn inner) ts n) ts n
           else if tokText t = ''*'' then Inl (SqlError ''star expressions are unsupported'')
           else if tokText t = ''?'' \<or> tokText t = ''$'' then Inl (SqlError ''parameters are unsupported'')
           else Inl (SqlErrorAt ''unexpected'' (tokText t))
       | TokIdent \<Rightarrow> parseWord U p (tokText t) ts n
       | TokEOF \<Rightarrow> Inl (SqlError ''expected a scalar expression''))" for t ts n
    by (cases "tokKind t") (auto simp: constNode_def ok_at_newNode word paren dest: numericConstantType_fuel split: sum.split)
  ultimately show ?thesis
    unfolding sound_def parsePrimary_def by (intro allI ok_at_pbind)
qed

lemma sound_parsePostfix: "sound p \<Longrightarrow> sound (parsePostfix U p)"
proof -
  assume p: "sound p"
  have "ok_at (treeNodes expr) treeNodes ts n
      (pbind (\<lambda>ts n. castLoop (length ts) U expr ts n) (\<lambda>expr ts n.
        if isOp ''['' ts \<or> isOp ''.'' ts then Inl (SqlError ''subscripts and qualified names are unsupported'')
        else Inr (expr, ts, n)) ts n)" for expr ts n
    by (rule ok_at_pbind [where v = treeNodes]) (simp_all add: ok_at_castLoop)
  then show ?thesis
    unfolding sound_def parsePostfix_def by (intro allI ok_at_pbind [OF soundD [OF sound_parsePrimary [OF p]]])
qed

lemma sound_parseUnary: "sound p \<Longrightarrow> sound u \<Longrightarrow> sound (parseUnary U p u)"
proof -
  assume p: "sound p" and u: "sound u"
  have "ok_at 0 treeNodes ts n
      (pbind u (\<lambda>operand.
         if s = ''-'' \<and> nodeKind operand = ''const'' \<and> isNumericConstant (nodeConst operand) then preturn operand
         else newNode ''func'' s [] [operand]) ts n)" for s ts n
    by (rule ok_at_pbind [OF soundD [OF u]]) (simp add: preturn_def ok_at_newNode)
  then show ?thesis
    using soundD [OF sound_parsePostfix [OF p]] by (auto simp: sound_def parseUnary_def intro: ok_at_advance)
qed

lemma sound_parseLevel:
  "sound (fst (parseLevel U k)) \<and> sound (fst (snd (parseLevel U k))) \<and> sound (snd (snd (parseLevel U k)))"
proof (induction k)
  case 0
  then show ?case by (simp add: parseLevel.simps Let_def sound_def pfail_def)
next
  case (Suc k)
  then show ?case
    by (auto simp: parseLevel.simps Let_def split: prod.split
        intro!: sound_levels sound_parseNot sound_parseIs sound_parseCompare sound_parseOther sound_parseUnary)
qed

lemma nextToken_fuel: "nextToken R s \<noteq> Inl OutOfFuel"
  by (auto simp: nextToken_def Let_def split: option.split prod.split)

lemma tokenizeSQL_fuel: "tokenizeSQL R s \<noteq> Inl OutOfFuel"
proof (induction R s rule: tokenizeSQL.induct)
  case (1 R s)
  show ?case
    by (subst tokenizeSQL.simps)
      (use 1 nextToken_fuel [of R s] in \<open>auto simp: rbind_Inl_iff split: option.split sum.split prod.split\<close>)
qed

abbreviation grammatical :: "sql_err + 'a \<Rightarrow> bool" where
  "grammatical \<equiv> errs_in (\<lambda>e. e \<noteq> OutOfFuel)"

lemma findColumnCI_grammatical: "grammatical (findColumnCI U columns name)"
  by (simp add: findColumnCI_def split: option.split list.split)

lemma checkOperand_grammatical: "grammatical (checkOperand U columns operand)"
  unfolding checkOperand_def Let_def
  by (intro errs_in_if errs_in_option errs_in_rbind findColumnCI_grammatical; simp only: errs_in_basic sql_err.distinct not_False_eq_True)

lemma checkOperands_grammatical:
  "grammatical (foldl (\<lambda>r operand. rbind r (\<lambda>_. checkOperand U columns operand)) (Inr ()) operands)"
  by (induction operands rule: rev_induct) (auto intro: errs_in_rbind checkOperand_grammatical)

lemma checkGeneratedNode_grammatical: "grammatical (checkGeneratedNode U columns self node)"
  unfolding checkGeneratedNode_def Let_def
  by (intro errs_in_if errs_in_option errs_in_rbind findColumnCI_grammatical; simp only: errs_in_basic sql_err.distinct not_False_eq_True)

lemma walkGenerated_grammatical:
  "grammatical (walkGenerated U columns self node)" "grammatical (walkArgs U columns self nodes)"
  by (induction U columns self node and U columns self nodes rule: walkGenerated_walkArgs.induct)
    (auto intro: errs_in_rbind checkGeneratedNode_grammatical)

lemma parseScalarSQL_bounds:
  "case parseScalarSQL U R sql of Inl e \<Rightarrow> e \<noteq> OutOfFuel | Inr expr \<Rightarrow> treeNodes expr \<le> maxNodes"
proof (cases "tokenizeSQL R sql")
  case (Inl e)
  then show ?thesis using tokenizeSQL_fuel [of R sql] by (auto simp: parseScalarSQL_def)
next
  case (Inr tokens)
  have ok: "ok_at 0 treeNodes tokens 0 (fst (parseLevel U (maxDepth + 1)) tokens 0)"
    using sound_parseLevel [of U "maxDepth + 1"] soundD by blast
  show ?thesis
  proof (cases "fst (parseLevel U (maxDepth + 1)) tokens 0")
    case (Inl e)
    then show ?thesis using ok Inr by (simp add: parseScalarSQL_def)
  next
    case (Inr r)
    then show ?thesis using ok \<open>tokenizeSQL R sql = Inr tokens\<close>
      by (cases r) (auto simp: parseScalarSQL_def)
  qed
qed

section \<open>Quoted columns\<close>

text \<open>An identifier in double quotes, quotes doubled.\<close>

definition quoteIdent :: "string \<Rightarrow> string" where
  "quoteIdent name = dquote # doubled dquote name @ [dquote]"

lemma quotedText_doubled:
  "rest = [] \<or> hd rest \<noteq> q \<Longrightarrow> quotedText q (doubled q name @ q # rest) = Some (name, rest)"
  by (induction name) (auto split: list.splits)

lemma str_doubled: "str (doubled q name) = doubled (byte_of_char q) (str name)"
  by (induction name) (auto simp: str_Cons)

lemma utf8_quoteIdent: "utf8_valid (str name) \<Longrightarrow> utf8_valid (str (quoteIdent name))"
  by (simp add: quoteIdent_def str_Cons str_doubled dquote_def byte_of_char_def utf8_valid_doubled utf8_valid_append)

lemma tokenize_space: "tokenizeSQL R (CHR '' '' # s) = tokenizeSQL R s"
  by (subst tokenizeSQL.simps) (simp add: code_def IsSpace_def)

lemma tokenize_quoted:
  assumes "name \<noteq> []" "hd rest \<noteq> dquote" "rest \<noteq> []"
  shows "tokenizeSQL R (quoteIdent name @ rest) = rbind (tokenizeSQL R rest) (\<lambda>ts. Inr (Tok TokQuotedIdent name # ts))"
proof -
  have "nextToken R (quoteIdent name @ rest) = Inr (Tok TokQuotedIdent name, rest)"
    using assms quotedText_doubled [of rest dquote name] by (simp add: nextToken_def quoteIdent_def)
  then show ?thesis
    by (subst tokenizeSQL.simps) (simp add: quoteIdent_def dquote_def code_def IsSpace_def)
qed

lemma tokenize_decimal: "tokenizeSQL R (decimal n) = Inr [Tok TokNumber (decimal n), Tok TokEOF []]"
proof -
  obtain c s where n: "decimal n = c # s" using decimal_not_Nil by (metis neq_Nil_conv)
  have digits: "list_all is_digit (c # s)" using decimal_digits [of n] n by simp
  then have "takeWhile numberChar (c # s) = c # s"
    by (auto simp: takeWhile_eq_all_conv list_all_iff numberChar_def)
  then have "numberText (c # s) = c # s"
    by (simp add: numberText_def exponentText_def Let_def)
  moreover have "48 \<le> code c" "code c \<le> 57"
    using digits by (simp_all add: is_digit_code)
  moreover from this have "c \<noteq> CHR ''-''" "c \<noteq> CHR ''/''" "c \<noteq> dquote" "c \<noteq> squote"
    by (auto simp: code_def dquote_def squote_def)
  ultimately show ?thesis
    using digits unfolding n
    by (subst tokenizeSQL.simps)
      (simp add: nextToken_def startsNumber_def IsSpace_def tokenizeSQL.simps [of R "[]"])
qed

lemma numericConstantType_decimal:
  "numericConstantType (decimal n) =
     Inr (if int n \<le> 2 ^ 31 - 1 then ''integer'' else if int n \<le> 2 ^ 63 - 1 then ''bigint'' else ''hugeint'')"
proof -
  have *: "c \<noteq> CHR ''_'' \<and> c \<noteq> CHR ''e'' \<and> c \<noteq> CHR ''E'' \<and> c \<noteq> CHR ''.''" if "c \<in> set (decimal n)" for c
    using that decimal_digits [of n] by (auto simp: list_all_iff is_digit_code code_def)
  then have "filter (\<lambda>c. c \<noteq> CHR ''_'') (decimal n) = decimal n" by simp
  with * show ?thesis by (auto simp: numericConstantType_def Let_def)
qed

lemma operatorLoop_none: "test ts = None \<Longrightarrow> operatorLoop fuel test kind p left ts n = Inr (left, ts, n)"
  by (cases fuel) simp_all

lemma binaryLevel_none: "p ts n = Inr (x, ts', n') \<Longrightarrow> test ts' = None \<Longrightarrow> binaryLevel test kind p ts n = Inr (x, ts', n')"
  by (simp add: binaryLevel_def pbind_def operatorLoop_none)

text \<open>The parser on a comparison of a quoted column with a number.\<close>

lemma parse_comparison:
  assumes "map_of sqlComparisons op = Some op'" "numericConstantType num = Inr kind"
  shows "fst (parseLevel U (Suc k)) [Tok TokQuotedIdent name, Tok TokOp op, Tok TokNumber num, Tok TokEOF []] 0 =
    Inr (SqlNode ''compare'' op' [] [SqlNode ''column'' name [] [], SqlNode ''const'' [] kind []], [Tok TokEOF []], 3)"
proof -
  have op: "op \<in> {''='', ''=='', ''!='', ''<>'', ''<'', ''>'', ''<='', ''>=''}"
    using assms(1) by (auto simp: sqlComparisons_def split: if_splits)
  then have ops: "\<not> isOp o' (Tok TokOp op # ts)" if "o' \<in> {''('', ''.'', ''['', ''::'', ''-'', ''+''}" for o' ts
    using that by (auto simp: isOp_def peek_def)
  have tests: "opTest [''*'', ''/'', ''%''] (Tok TokOp op # ts) = None" "opTest [''+'', ''-''] (Tok TokOp op # ts) = None"
    "opTest [''||''] (Tok TokOp op # ts) = None" for ts
    using op by (auto simp: opTest_def peek_def)
  have operand: "snd (snd (parseLevel U (Suc k))) (Tok TokQuotedIdent name # Tok TokOp op # ts) n =
      Inr (SqlNode ''column'' name [] [], Tok TokOp op # ts, n + 1)" if "n < maxNodes" for ts n
    using that ops
    by (simp add: parseLevel.simps Let_def parseUnary_def parsePostfix_def parsePrimary_def pbind_def nextTok_def peek_def
        isOp_def advance_def newNode_def split: prod.split)
  let ?u = "snd (snd (parseLevel U (Suc k)))"
  have number: "?u [Tok TokNumber num, Tok TokEOF []] n = Inr (SqlNode ''const'' [] kind [], [Tok TokEOF []], n + 1)"
    if "n < maxNodes" for n
    using that assms(2)
    by (simp add: parseLevel.simps Let_def parseUnary_def parsePostfix_def parsePrimary_def pbind_def nextTok_def peek_def
        isOp_def advance_def constNode_def newNode_def split: prod.split)
  let ?o = "parseOther (parseAdditive (parseMultiplicative ?u))"
  have eof: "opTest ops [Tok TokEOF []] = None" "wordTest U w [Tok TokEOF []] = None" for ops w
    by (simp_all add: opTest_def wordTest_def isWord_def peek_def)
  have arith: "binaryLevel (opTest [''||'']) ''func'' (parseAdditive (parseMultiplicative ?u)) ts n = Inr (x, ts', n')"
    if "?u ts n = Inr (x, ts', n')" "opTest [''*'', ''/'', ''%''] ts' = None" "opTest [''+'', ''-''] ts' = None"
      "opTest [''||''] ts' = None" for ts n x ts' n'
    using that by (simp add: parseAdditive_def parseMultiplicative_def binaryLevel_none)
  have left: "?o (Tok TokQuotedIdent name # Tok TokOp op # ts) 0 = Inr (SqlNode ''column'' name [] [], Tok TokOp op # ts, 1)" for ts
    using arith [OF operand [of 0 ts] tests] op by (auto simp: parseOther_def pbind_def maxNodes_def peek_def)
  have right: "?o [Tok TokNumber num, Tok TokEOF []] 1 = Inr (SqlNode ''const'' [] kind [], [Tok TokEOF []], 2)"
    using arith [OF number [of 1] eof(1) eof(1) eof(1)] by (simp add: parseOther_def pbind_def maxNodes_def peek_def)
  have "parseCompare U ?o [Tok TokQuotedIdent name, Tok TokOp op, Tok TokNumber num, Tok TokEOF []] 0 =
      Inr (SqlNode ''compare'' op' [] [SqlNode ''column'' name [] [], SqlNode ''const'' [] kind []], [Tok TokEOF []], 3)"
    using left right assms(1)
    by (simp add: parseCompare_def pbind_def comparisonAt_def peek_def advance_def newNode_def maxNodes_def)
  moreover have "fst (parseLevel U (Suc k)) =
      parseOr U (parseAnd U (parseNot U (parseIs U (parseCompare U ?o)) (fst (snd (parseLevel U k)))))"
    by (simp add: parseLevel.simps Let_def split: prod.split)
  ultimately show ?thesis
    by (simp add: parseOr_def parseAnd_def parseNot_def parseIs_def pbind_def isWord_def peek_def binaryLevel_none eof)
qed

definition comparisonSQL :: "string \<Rightarrow> string \<Rightarrow> nat \<Rightarrow> string" where
  "comparisonSQL name op n = quoteIdent name @ '' '' @ op @ '' '' @ decimal n"

lemma tokenize_comparison:
  assumes "name \<noteq> []" "map_of sqlComparisons op = Some op'"
  shows "tokenizeSQL R (comparisonSQL name op n) =
    Inr [Tok TokQuotedIdent name, Tok TokOp op, Tok TokNumber (decimal n), Tok TokEOF []]"
proof -
  have op: "op \<in> {''='', ''=='', ''!='', ''<>'', ''<'', ''>'', ''<='', ''>=''}"
    using assms(2) by (auto simp: sqlComparisons_def split: if_splits)
  have tok: "nextToken R (op @ CHR '' '' # s) = Inr (Tok TokOp op, CHR '' '' # s)" for s
    using op
    by (elim insertE emptyE)
      (simp_all add: nextToken_def startsNumber_def operatorText_def sqlOperators_def dquote_def squote_def IsLetter_def
        is_digit_code code_def Let_def)
  have "tokenizeSQL R (op @ CHR '' '' # decimal n) = Inr [Tok TokOp op, Tok TokNumber (decimal n), Tok TokEOF []]"
    using op
    by (elim insertE emptyE; subst tokenizeSQL.simps, use tok [of "decimal n"] in
        \<open>simp add: IsSpace_def code_def tokenize_space tokenize_decimal\<close>)
  then show ?thesis
    unfolding comparisonSQL_def
    by (subst tokenize_quoted) (simp_all add: assms(1) dquote_def tokenize_space)
qed

lemma comparison_text:
  assumes "map_of sqlComparisons op = Some op'" "CHR 0x00 \<notin> set name" "utf8_valid (str name)"
  shows "CHR 0x00 \<notin> set (comparisonSQL name op n)" "utf8_valid (str (comparisonSQL name op n))"
proof -
  have op: "op \<in> {''='', ''=='', ''!='', ''<>'', ''<'', ''>'', ''<='', ''>=''}"
    using assms(1) by (auto simp: sqlComparisons_def split: if_splits)
  have digits: "48 \<le> code c \<and> code c \<le> 57" if "c \<in> set (decimal n)" for c
    using that decimal_digits [of n] by (auto simp: list_all_iff is_digit_code)
  have "set (doubled dquote name) = set name" by (induction name) auto
  moreover have "CHR 0x00 \<notin> set (decimal n)" using digits [of "CHR 0x00"] by (auto simp: code_def)
  ultimately show "CHR 0x00 \<notin> set (comparisonSQL name op n)"
    using op assms(2)
    by (elim insertE emptyE) (simp_all add: comparisonSQL_def quoteIdent_def dquote_def code_def)
  have ascii: "utf8_valid (str s)" if "\<And>c. c \<in> set s \<Longrightarrow> code c < 128" for s
    using that
    by (induction s) (auto simp: str_Cons byte_of_char_def code_nat word_less_nat_alt unat_of_nat)
  have "utf8_valid (str ('' '' @ op @ '' '' @ decimal n))"
  proof (rule ascii)
    fix c assume "c \<in> set ('' '' @ op @ '' '' @ decimal n)"
    then consider "c = CHR '' ''" | "c \<in> set op" | "c \<in> set (decimal n)" by auto
    then show "code c < 128"
    proof cases
      case 2
      with op have "c \<in> {CHR ''='', CHR ''!'', CHR ''<'', CHR ''>''}" by (elim insertE emptyE) auto
      then show ?thesis by (elim insertE emptyE) (simp_all add: code_def)
    qed (use digits [of c] in \<open>simp_all add: code_def\<close>)
  qed
  then show "utf8_valid (str (comparisonSQL name op n))"
    using utf8_quoteIdent [OF assms(3)] unfolding comparisonSQL_def str_append [of "quoteIdent name"] by (intro utf8_valid_append)
qed

section \<open>Properties\<close>

text \<open>
  C13. The scalar SQL parser ends on every input within its limits: it never runs out of the fuel of its loops, an
  expression it accepts has at most 4096 nodes, and neither validator built on it fails for any other reason than
  an error of the grammar.
\<close>
theorem scalar_parser_total:
  "(case parseScalarSQL U R sql of Inl e \<Rightarrow> e \<noteq> OutOfFuel | Inr expr \<Rightarrow> treeNodes expr \<le> 4096) \<and>
    validateNumericCheckSQL U R sql columns \<noteq> Inl OutOfFuel \<and>
    validateGeneratedSQL U R sql columns self \<noteq> Inl OutOfFuel"
proof (intro conjI)
  have parse: "grammatical (parseScalarSQL U R sql)"
    using parseScalarSQL_bounds [of U R sql] by (simp add: errs_in_def split: sum.splits)
  then have "grammatical (validateGeneratedSQL U R sql columns self)"
    unfolding validateGeneratedSQL_def by (rule errs_in_rbind) (rule walkGenerated_grammatical)
  then show "validateGeneratedSQL U R sql columns self \<noteq> Inl OutOfFuel"
    by (auto simp: errs_in_def)
  have "grammatical (validateNumericCheckSQL U R sql columns)"
    unfolding validateNumericCheckSQL_def
    by (intro errs_in_rbind [OF parse] errs_in_if checkOperands_grammatical) simp
  then show "validateNumericCheckSQL U R sql columns \<noteq> Inl OutOfFuel"
    by (auto simp: errs_in_def)
  show "case parseScalarSQL U R sql of Inl e \<Rightarrow> e \<noteq> OutOfFuel | Inr expr \<Rightarrow> treeNodes expr \<le> 4096"
    by (rule parseScalarSQL_bounds [unfolded maxNodes_def])
qed

text \<open>
  C35. Every column can be named in a CHECK: for any column name without NUL in well-formed UTF-8, any comparison operator
  and any number, the text of the comparison, the name in double quotes with its quotes doubled, parses to
  exactly that comparison and is accepted, as long as it is at most one MiB long.
\<close>
theorem quoted_comparison_parses:
  assumes "name \<noteq> []" "CHR 0x00 \<notin> set name" "utf8_valid (str name)" "map_of sqlComparisons op = Some op'"
    and "length (comparisonSQL name op n) \<le> 1024 * 1024"
  shows "\<exists>kind. parseScalarSQL U R (comparisonSQL name op n) =
      Inr (SqlNode ''compare'' op' [] [SqlNode ''column'' name [] [], SqlNode ''const'' [] kind []]) \<and>
    isNumericConstant kind \<and> validateNumericCheckSQL U R (comparisonSQL name op n) None = Inr ()"
proof -
  obtain kind where kind: "numericConstantType (decimal n) = Inr kind" "isNumericConstant kind"
    by (auto simp: numericConstantType_decimal isNumericConstant_def)
  have "comparisonSQL name op n \<noteq> []" by (simp add: comparisonSQL_def quoteIdent_def)
  then have "parseScalarSQL U R (comparisonSQL name op n) =
      Inr (SqlNode ''compare'' op' [] [SqlNode ''column'' name [] [], SqlNode ''const'' [] kind []])"
    using comparison_text [OF assms(4,2,3)] tokenize_comparison [OF assms(1,4)] parse_comparison [OF assms(4) kind(1)] assms(5)
    by (simp add: parseScalarSQL_def peek_def)
  then show ?thesis
    using kind(2) by (simp add: validateNumericCheckSQL_def checkOperand_def)
qed

theorem quoted_comparison_parses_witness:
  "\<exists>kind. parseScalarSQL plain_unicode plain_runes (comparisonSQL [CHR ''a'', dquote] ''!='' 7) =
      Inr (SqlNode ''compare'' ''<>'' [] [SqlNode ''column'' [CHR ''a'', dquote] [] [], SqlNode ''const'' [] kind []]) \<and>
    isNumericConstant kind \<and>
    validateNumericCheckSQL plain_unicode plain_runes (comparisonSQL [CHR ''a'', dquote] ''!='' 7) None = Inr ()"
  by (rule quoted_comparison_parses)
    (simp_all add: dquote_def sqlComparisons_def str_Cons byte_of_char_def comparisonSQL_def quoteIdent_def decimal.simps)

end
