(* ===== verification/ConstraintRecords.thy ===== *)
theory ConstraintRecords
  imports CanonicalRow ScalarSql
begin

text \<open>
  Canonical constraint records (\<open>vgi/constraint_records.go\<close>): the record a provider attests, its checks and encoding
  (\<open>ConstraintRecord\<close>), its decoding, the checks every table's records pass before they are served
  (\<open>checkTableConstraints\<close>), and the nullability a table is served with (\<open>servedNullability\<close>).

  A constraint kind, an enforcement and a validation state are strings, as in the code: a decoded record may hold any text
  there. Error texts that only format their arguments are constructors. \<open>I\<close> is the Arrow IPC codec, \<open>U\<close> and \<open>R\<close> the
  Unicode tables.
\<close>

section \<open>Records\<close>

definition ConstraintNotNull :: string where "ConstraintNotNull = ''NOT_NULL''"
definition ConstraintPrimaryKey :: string where "ConstraintPrimaryKey = ''PRIMARY_KEY''"
definition ConstraintUnique :: string where "ConstraintUnique = ''UNIQUE''"
definition ConstraintCheck :: string where "ConstraintCheck = ''CHECK''"
definition ConstraintForeignKey :: string where "ConstraintForeignKey = ''FOREIGN_KEY''"

definition ConstraintEnforced :: string where "ConstraintEnforced = ''ENFORCED''"
definition ConstraintMetadataOnly :: string where "ConstraintMetadataOnly = ''METADATA_ONLY''"

definition ConstraintAllRows :: string where "ConstraintAllRows = ''ALL_ROWS''"
definition ConstraintFutureWrites :: string where "ConstraintFutureWrites = ''FUTURE_WRITES''"
definition ConstraintUnvalidated :: string where "ConstraintUnvalidated = ''UNVALIDATED''"

definition ConstraintRecordsReadProfile :: string where "ConstraintRecordsReadProfile = ''vgi.constraint.records.read.v1''"
definition ScalarExpressionReadProfile :: string where "ScalarExpressionReadProfile = ''vgi.expression.duckdb.scalar.v1''"
definition GeneratedExpressionKey :: string where "GeneratedExpressionKey = ''vgi.column.generated.v1''"

lemmas kind_defs = ConstraintNotNull_def ConstraintPrimaryKey_def ConstraintUnique_def ConstraintCheck_def ConstraintForeignKey_def

record constraint_reference =
  refTableSchema :: "string list"
  refTable :: string
  refColumns :: "string list list"
  refConstraintID :: string

record constraint_spec =
  specSchemaPath :: "string list"
  specTable :: string
  specID :: string
  specKind :: string
  specColumns :: "string list list"
  specEnforcement :: string
  specValidation :: string
  specDeclaredName :: string
  specCheckSQL :: string
  specReferences :: "constraint_reference option"

datatype con_err =
    BadConstraintID
  | ConErr string string
  | ConErrCheck string sql_err
  | ConErrRow row_err
  | TableErr string con_err
  | TableLimit string string
  | CreateErr con_err
  | GeneratedRequired string
  | UnknownColumn string
  | NotImplemented string

definition validIdentifier :: "string \<Rightarrow> bool" where
  "validIdentifier s \<longleftrightarrow> s \<noteq> [] \<and> length s \<le> 4096 \<and> CHR 0x00 \<notin> set s"

text \<open>An unambiguous key for a path: each component after its length.\<close>

definition pathKey :: "string list \<Rightarrow> string" where
  "pathKey path = concat (map (\<lambda>part. decimal (length part) @ '':'' @ part) path)"

fun checkPaths :: "string \<Rightarrow> bool \<Rightarrow> string list \<Rightarrow> string list list \<Rightarrow> con_err + unit" where
  "checkPaths cid nested seen [] = Inr ()"
| "checkPaths cid nested seen (path # paths) =
     (if path = [] \<or> 64 < length path then Inl (ConErr cid ''empty or oversized column path'')
      else if \<not> nested \<and> length path \<noteq> 1 then Inl (ConErr cid ''nested constraint paths only for NOT_NULL'')
      else if \<not> list_all validIdentifier path then Inl (ConErr cid ''invalid column path component'')
      else if pathKey path \<in> set seen then Inl (ConErr cid ''duplicate column path'')
      else checkPaths cid nested (pathKey path # seen) paths)"

definition checkColumnPaths :: "string \<Rightarrow> string list list \<Rightarrow> bool \<Rightarrow> con_err + unit" where
  "checkColumnPaths cid paths nested =
     (if 1024 < length paths then Inl (ConErr cid ''too many column paths'') else checkPaths cid nested [] paths)"

section \<open>Encoding\<close>

definition evaluationContext :: go_value where
  "evaluationContext = GoStruct
     [(''timezone'', GoString ''UTC''), (''collation'', GoString ''binary''), (''default_order'', GoString ''asc''),
      (''default_null_order'', GoString ''nulls_last''), (''preserve_insertion_order'', GoBool True)]"

definition encodeCheck :: "ipc \<Rightarrow> constraint_spec \<Rightarrow> row_err + go_value" where
  "encodeCheck I spec =
     (if specKind spec = ConstraintCheck then
        rbind (encodeCanonicalRow I SqlExpressionSchema
            [(''sql'', GoString (specCheckSQL spec)), (''profile'', GoString ScalarExpressionReadProfile),
             (''schema_path'', GoStrings (specSchemaPath spec)), (''evaluation_context'', evaluationContext)])
          (\<lambda>encoded. Inr (GoBytes encoded))
      else Inr GoNil)"

definition referencedSchema :: "constraint_spec \<Rightarrow> constraint_reference \<Rightarrow> string list" where
  "referencedSchema spec ref = (if refTableSchema ref = [] then specSchemaPath spec else refTableSchema ref)"

text \<open>The foreign key definition and the reference to the referenced key.\<close>

definition encodeForeign :: "ipc \<Rightarrow> constraint_spec \<Rightarrow> row_err + (go_value \<times> go_value)" where
  "encodeForeign I spec =
     (case specReferences spec of
        None \<Rightarrow> Inr (GoNil, GoNil)
      | Some ref \<Rightarrow>
          rbind (catalogObjectRef I ''table'' (referencedSchema spec ref) (refTable ref) None) (\<lambda>table.
          rbind (encodeCanonicalRow I ForeignKeyDefinitionSchema
              [(''referenced_table'', GoBytes table), (''referenced_column_paths'', GoPaths (refColumns ref)),
               (''match'', GoString ''SIMPLE''), (''on_update'', GoString ''NO_ACTION''), (''on_delete'', GoString ''NO_ACTION'')])
            (\<lambda>foreign.
          rbind (catalogObjectRef I ''constraint'' (referencedSchema spec ref) (refConstraintID ref) (Some (refTable ref)))
            (\<lambda>key. Inr (GoBytes foreign, GoBytes key)))))"

definition encodeConstraintRecord :: "ipc \<Rightarrow> constraint_spec \<Rightarrow> row_err + bytes" where
  "encodeConstraintRecord I spec =
     rbind (encodeCheck I spec) (\<lambda>check.
     rbind (encodeForeign I spec) (\<lambda>(foreign, referenced).
     rbind (encodeCanonicalRow I ConstraintDefinitionSchema
         [(''kind'', GoString (specKind spec)), (''column_paths'', GoPaths (specColumns spec)),
          (''declared_name'', if specDeclaredName spec = [] then GoNil else GoString (specDeclaredName spec)),
          (''check_expression'', check), (''foreign_key'', foreign)]) (\<lambda>def.
     rbind (catalogObjectRef I ''constraint'' (specSchemaPath spec) (specID spec) (Some (specTable spec))) (\<lambda>ref.
       encodeCanonicalRow I ConstraintInfoSchema
         [(''ref'', GoBytes ref), (''definition'', GoBytes def), (''enforcement'', GoString (specEnforcement spec)),
          (''validation'', GoString (specValidation spec)), (''referenced_constraint'', referenced)]))))"

definition checkReference :: "constraint_spec \<Rightarrow> con_err + unit" where
  "checkReference spec =
     (let cid = specID spec in
      if (specKind spec = ConstraintForeignKey) \<noteq> (specReferences spec \<noteq> None)
      then Inl (ConErr cid ''References is required for FOREIGN_KEY and only FOREIGN_KEY'')
      else case specReferences spec of
        None \<Rightarrow> Inr ()
      | Some ref \<Rightarrow>
          if refTableSchema ref \<noteq> [] \<and> refTableSchema ref \<noteq> specSchemaPath spec
          then Inl (ConErr cid ''foreign key must reference a table in its own schema'')
          else if length (refColumns ref) \<noteq> length (specColumns spec)
          then Inl (ConErr cid ''foreign key local and referenced arity must match'')
          else rbind (checkColumnPaths cid (refColumns ref) False) (\<lambda>_.
            if \<not> validIdentifier (refTable ref) \<or> \<not> validIdentifier (refConstraintID ref)
            then Inl (ConErr cid ''foreign key needs the referenced table and its constraint id'')
            else Inr ()))"

definition checkSpec :: "unicode \<Rightarrow> rune_tables \<Rightarrow> constraint_spec \<Rightarrow> con_err + unit" where
  "checkSpec U R spec =
     (let cid = specID spec; isCheck = (specKind spec = ConstraintCheck) in
      if \<not> validIdentifier cid then Inl BadConstraintID
      else if \<not> validIdentifier (specTable spec) then Inl (ConErr cid ''owning table is required'')
      else if length (specSchemaPath spec) \<noteq> 1 \<or> \<not> validIdentifier (hd (specSchemaPath spec))
      then Inl (ConErr cid ''SchemaPath must be a one-component schema path'')
      else if specKind spec \<notin> {ConstraintNotNull, ConstraintPrimaryKey, ConstraintUnique, ConstraintCheck, ConstraintForeignKey}
      then Inl (ConErr cid ''unknown kind'')
      else if specEnforcement spec \<notin> {ConstraintEnforced, ConstraintMetadataOnly}
      then Inl (ConErr cid ''enforcement must be ENFORCED or METADATA_ONLY'')
      else if specValidation spec \<notin> {ConstraintAllRows, ConstraintFutureWrites, ConstraintUnvalidated}
      then Inl (ConErr cid ''validation must be ALL_ROWS, FUTURE_WRITES or UNVALIDATED'')
      else if specEnforcement spec \<noteq> ConstraintEnforced \<or> specValidation spec \<noteq> ConstraintAllRows
      then Inl (ConErr cid ''only ENFORCED + ALL_ROWS records'')
      else if specDeclaredName spec \<noteq> [] \<and> \<not> validIdentifier (specDeclaredName spec) then Inl (ConErr cid ''declared name'')
      else if isCheck \<noteq> (specCheckSQL spec \<noteq> []) then Inl (ConErr cid ''CheckSQL is required for CHECK and only CHECK'')
      else if isCheck \<and> specColumns spec \<noteq> [] then Inl (ConErr cid ''CHECK takes no column paths'')
      else if \<not> isCheck \<and> specColumns spec = [] then Inl (ConErr cid ''requires column paths'')
      else if specKind spec = ConstraintNotNull \<and> length (specColumns spec) \<noteq> 1
      then Inl (ConErr cid ''NOT_NULL requires exactly one column path'')
      else rbind (checkColumnPaths cid (specColumns spec) (specKind spec = ConstraintNotNull)) (\<lambda>_.
        rbind (if isCheck then rmap_err (ConErrCheck cid) (validateNumericCheckSQL U R (specCheckSQL spec) None) else Inr ()) (\<lambda>_.
          checkReference spec)))"

definition ConstraintRecord :: "ipc \<Rightarrow> unicode \<Rightarrow> rune_tables \<Rightarrow> constraint_spec \<Rightarrow> con_err + bytes" where
  "ConstraintRecord I U R spec = rbind (checkSpec U R spec) (\<lambda>_. rmap_err ConErrRow (encodeConstraintRecord I spec))"

section \<open>Decoding\<close>

record decoded_constraint =
  decodedSpec :: constraint_spec
  checkProfile :: string
  checkSchemaPath :: "string list"
  checkDefaultContext :: bool
  fkMatch :: string
  fkOnUpdate :: string
  fkOnDelete :: string
  targetSchemaPath :: "string list"
  targetOwner :: string
  hasForeignKey :: bool
  hasTarget :: bool

definition defaultEvaluationContext :: "cell \<Rightarrow> bool" where
  "defaultEvaluationContext c =
     (case c of
        Struct fs \<Rightarrow>
          list_all (\<lambda>f. snd f \<noteq> Null) fs \<and> map_of fs ''timezone'' = Some (Str ''UTC'') \<and>
          map_of fs ''collation'' = Some (Str ''binary'') \<and> map_of fs ''default_order'' = Some (Str ''asc'') \<and>
          map_of fs ''default_null_order'' = Some (Str ''nulls_last'') \<and>
          map_of fs ''preserve_insertion_order'' = Some (Bool True)
      | _ \<Rightarrow> False)"

text \<open>The SQL, profile, schema path and context of a CHECK expression.\<close>

definition decodeCheck :: "ipc \<Rightarrow> row \<Rightarrow> row_err + (string \<times> string \<times> string list \<times> bool)" where
  "decodeCheck I def =
     (case rowColumn def ''check_expression'' of
        Null \<Rightarrow> Inr ([], [], [], False)
      | expr \<Rightarrow>
          rbind (rmap_err (InRecord ''SqlExpression'') (readCanonicalRow I (cellBinary expr) SqlExpressionSchema)) (\<lambda>row.
            Inr (cellString (rowColumn row ''sql''), cellString (rowColumn row ''profile''), rowStrings row ''schema_path'',
                 defaultEvaluationContext (rowColumn row ''evaluation_context''))))"

definition decodeForeign ::
  "ipc \<Rightarrow> row \<Rightarrow> row_err + (string \<times> string \<times> string \<times> constraint_reference) option" where
  "decodeForeign I def =
     (case rowColumn def ''foreign_key'' of
        Null \<Rightarrow> Inr None
      | fk \<Rightarrow>
          rbind (rmap_err (InRecord ''ForeignKeyDefinition'') (readCanonicalRow I (cellBinary fk) ForeignKeyDefinitionSchema)) (\<lambda>row.
          rbind (readObjectRef I (rowBinary row ''referenced_table'')) (\<lambda>table.
            if refKind table \<noteq> ''table'' \<or> refOwner table \<noteq> None
            then Inl (InRecord ''ForeignKeyDefinition.referenced_table'' NotCanonicalSchema)
            else Inr (Some (rowEnum row ''match'', rowEnum row ''on_update'', rowEnum row ''on_delete'',
              \<lparr>refTableSchema = refSchemaPath table, refTable = refName table, refColumns = rowPaths row ''referenced_column_paths'',
               refConstraintID = []\<rparr>)))))"

definition decodeTarget :: "ipc \<Rightarrow> row \<Rightarrow> row_err + object_ref option" where
  "decodeTarget I info =
     (case rowColumn info ''referenced_constraint'' of
        Null \<Rightarrow> Inr None
      | target \<Rightarrow>
          rbind (readObjectRef I (cellBinary target)) (\<lambda>key.
            if refKind key \<noteq> ''constraint'' \<or> refOwner key = None
            then Inl (InRecord ''ConstraintInfo.referenced_constraint'' NotCanonicalSchema)
            else Inr (Some key)))"

definition decodeConstraintRecord :: "ipc \<Rightarrow> bytes \<Rightarrow> row_err + decoded_constraint" where
  "decodeConstraintRecord I data =
     rbind (rmap_err (InRecord ''ConstraintInfo'') (readCanonicalRow I data ConstraintInfoSchema)) (\<lambda>info.
     rbind (readObjectRef I (rowBinary info ''ref'')) (\<lambda>ref.
     if refKind ref \<noteq> ''constraint'' then Inl (InRecord ''ConstraintInfo.ref'' NotCanonicalSchema)
     else rbind (rmap_err (InRecord ''ConstraintDefinition'')
                   (readCanonicalRow I (rowBinary info ''definition'') ConstraintDefinitionSchema)) (\<lambda>def.
     rbind (decodeCheck I def) (\<lambda>(sql, profile, checkPath, context).
     rbind (decodeForeign I def) (\<lambda>foreign.
     rbind (decodeTarget I info) (\<lambda>target.
       Inr \<lparr>decodedSpec =
              \<lparr>specSchemaPath = refSchemaPath ref,
               specTable = (case refOwner ref of None \<Rightarrow> [] | Some owner \<Rightarrow> owner),
               specID = refName ref,
               specKind = rowEnum def ''kind'',
               specColumns = rowPaths def ''column_paths'',
               specEnforcement = rowEnum info ''enforcement'',
               specValidation = rowEnum info ''validation'',
               specDeclaredName = cellString (rowColumn def ''declared_name''),
               specCheckSQL = sql,
               specReferences = map_option (\<lambda>(match, onUpdate, onDelete, r).
                  case target of None \<Rightarrow> r | Some key \<Rightarrow> r\<lparr>refConstraintID := refName key\<rparr>) foreign\<rparr>,
            checkProfile = profile, checkSchemaPath = checkPath, checkDefaultContext = context,
            fkMatch = (case foreign of None \<Rightarrow> [] | Some (match, _, _, _) \<Rightarrow> match),
            fkOnUpdate = (case foreign of None \<Rightarrow> [] | Some (_, onUpdate, _, _) \<Rightarrow> onUpdate),
            fkOnDelete = (case foreign of None \<Rightarrow> [] | Some (_, _, onDelete, _) \<Rightarrow> onDelete),
            targetSchemaPath = (case target of None \<Rightarrow> [] | Some key \<Rightarrow> refSchemaPath key),
            targetOwner = (case target of None \<Rightarrow> [] | Some key \<Rightarrow> (case refOwner key of None \<Rightarrow> [] | Some owner \<Rightarrow> owner)),
            hasForeignKey = (foreign \<noteq> None),
            hasTarget = (target \<noteq> None)\<rparr>))))))"

definition ReadConstraintRecord :: "ipc \<Rightarrow> bytes \<Rightarrow> row_err + constraint_spec" where
  "ReadConstraintRecord I data = rbind (decodeConstraintRecord I data) (\<lambda>d. Inr (decodedSpec d))"

section \<open>Serving a table\<close>

definition rowIDIndex :: "arrow_field list \<Rightarrow> nat option" where
  "rowIDIndex fs = (case rev (filter (\<lambda>i. isRowIDField (fs ! i)) [0..<length fs]) of [] \<Rightarrow> None | i # _ \<Rightarrow> Some i)"

fun resolveNested :: "arrow_field \<Rightarrow> string list \<Rightarrow> bool" where
  "resolveNested field [] = True"
| "resolveNested field (part # parts) =
     (case ordinaryStructChildren field of
        None \<Rightarrow> False
      | Some children \<Rightarrow>
          (case filter (\<lambda>child. fieldName child = part) children of
             [child] \<Rightarrow> resolveNested child parts
           | _ \<Rightarrow> False))"

text \<open>\<open>resolveNotNullPath\<close>: whether the path names a column, as one field at every step.\<close>

definition resolveNotNullPath :: "arrow_field list \<Rightarrow> nat option \<Rightarrow> string list \<Rightarrow> bool" where
  "resolveNotNullPath fs rowID path =
     (case topLevelIndex fs (hd path) of
        None \<Rightarrow> False
      | Some i \<Rightarrow> rowID \<noteq> Some i \<and> resolveNested (fs ! i) (tl path))"

record table_check =
  tcTotal :: nat
  tcIDs :: "string list"
  tcLabels :: "string list"
  tcPrimary :: string
  tcRequired :: "string list"

definition emptyCheck :: table_check where
  "emptyCheck = \<lparr>tcTotal = 0, tcIDs = [], tcLabels = [], tcPrimary = [], tcRequired = []\<rparr>"

text \<open>Identity, owner, attestation and label of a record.\<close>

definition checkIdentity ::
  "unicode \<Rightarrow> string list option \<Rightarrow> string \<Rightarrow> constraint_spec \<Rightarrow> table_check \<Rightarrow> con_err + table_check" where
  "checkIdentity U schemaPath table r st =
     (let fail = (\<lambda>m. Inl (TableErr table (ConErr (specID r) m)));
          label = ToLower U (specDeclaredName r)
      in if \<not> validIdentifier (specID r) \<or> length (specSchemaPath r) \<noteq> 1 \<or> \<not> validIdentifier (hd (specSchemaPath r))
         then fail ''identity must be a nonempty id with a one-component schema path''
         else if specTable r \<noteq> table \<or> (case schemaPath of None \<Rightarrow> False | Some path \<Rightarrow> specSchemaPath r \<noteq> path)
         then fail ''belongs to another table''
         else if specID r \<in> set (tcIDs st) then fail ''duplicate constraint id''
         else if specEnforcement r \<noteq> ConstraintEnforced \<or> specValidation r \<noteq> ConstraintAllRows
         then fail ''only ENFORCED + ALL_ROWS records''
         else if specDeclaredName r = [] then Inr (st\<lparr>tcIDs := specID r # tcIDs st\<rparr>)
         else if \<not> validIdentifier (specDeclaredName r) then fail ''invalid declared name''
         else if label \<in> set (tcLabels st) then fail ''duplicate declared name''
         else Inr (st\<lparr>tcIDs := specID r # tcIDs st, tcLabels := label # tcLabels st\<rparr>))"

definition checkShape :: "string \<Rightarrow> decoded_constraint \<Rightarrow> con_err + unit" where
  "checkShape table d =
     (let r = decodedSpec d;
          fail = (\<lambda>m. Inl (TableErr table (ConErr (specID r) m)));
          isCheck = (specKind r = ConstraintCheck);
          isFK = (specKind r = ConstraintForeignKey)
      in rbind (rmap_err (TableErr table) (checkColumnPaths (specID r) (specColumns r) True)) (\<lambda>_.
         if isCheck \<noteq> (specCheckSQL r \<noteq> []) \<or> isCheck = (specColumns r \<noteq> [])
         then fail ''inconsistent CHECK payload or column paths''
         else if isFK \<noteq> hasForeignKey d \<or> isFK \<noteq> hasTarget d then fail ''inconsistent FOREIGN KEY payload''
         else Inr ()))"

definition checkForeign :: "string \<Rightarrow> decoded_constraint \<Rightarrow> con_err + unit" where
  "checkForeign table d =
     (let r = decodedSpec d; fail = (\<lambda>m. Inl (TableErr table (ConErr (specID r) m))) in
      case specReferences r of
        None \<Rightarrow> Inr ()
      | Some ref \<Rightarrow>
          if refTableSchema ref \<noteq> specSchemaPath r \<or> targetSchemaPath d \<noteq> specSchemaPath r \<or> targetOwner d \<noteq> refTable ref
          then fail ''FOREIGN KEY must reference an identified key of a table in the same schema''
          else if length (refColumns ref) \<noteq> length (specColumns r) then fail ''FOREIGN KEY arity mismatch''
          else if \<not> list_all (\<lambda>p. length p = 1) (refColumns ref) then fail ''only top-level FOREIGN KEY columns''
          else if fkMatch d \<noteq> ''SIMPLE'' then fail ''only MATCH SIMPLE foreign keys''
          else if \<not> list_all (\<lambda>a. a = ''NO_ACTION'' \<or> a = ''RESTRICT'') [fkOnUpdate d, fkOnDelete d]
          then fail ''only NO ACTION/RESTRICT referential actions''
          else Inr ())"

definition keyColumnOk :: "arrow_schema option \<Rightarrow> string list \<Rightarrow> bool" where
  "keyColumnOk columns path =
     (case columns of
        None \<Rightarrow> True
      | Some sch \<Rightarrow>
          (case topLevelIndex (schemaFields sch) (hd path) of
             None \<Rightarrow> False
           | Some i \<Rightarrow> rowIDIndex (schemaFields sch) \<noteq> Some i))"

fun checkKeyColumns :: "string \<Rightarrow> string \<Rightarrow> arrow_schema option \<Rightarrow> string list list \<Rightarrow> con_err + unit" where
  "checkKeyColumns table cid columns [] = Inr ()"
| "checkKeyColumns table cid columns (path # paths) =
     (if length path \<noteq> 1 then Inl (TableErr table (ConErr cid ''nested constraint paths only for NOT_NULL''))
      else if \<not> keyColumnOk columns path then Inl (TableErr table (ConErr cid ''missing, ambiguous or the row-id column''))
      else checkKeyColumns table cid columns paths)"

definition checkKind ::
  "unicode \<Rightarrow> rune_tables \<Rightarrow> string \<Rightarrow> arrow_schema option \<Rightarrow> decoded_constraint \<Rightarrow> table_check \<Rightarrow> con_err + table_check" where
  "checkKind U R table columns d st =
     (let r = decodedSpec d; fail = (\<lambda>m. Inl (TableErr table (ConErr (specID r) m))); kind = specKind r in
      if kind = ConstraintCheck then
        (if checkProfile d \<noteq> ScalarExpressionReadProfile then fail ''unsupported CHECK expression profile''
         else if checkSchemaPath d \<noteq> specSchemaPath r then fail ''CHECK expression belongs to another schema''
         else if \<not> checkDefaultContext d then fail ''unsupported CHECK evaluation context''
         else rbind (rmap_err (\<lambda>e. TableErr table (ConErrCheck (specID r) e)) (validateNumericCheckSQL U R (specCheckSQL r) columns))
                (\<lambda>_. Inr st))
      else if kind = ConstraintNotNull then
        (if length (specColumns r) \<noteq> 1 then fail ''NOT_NULL requires exactly one column path''
         else if (case columns of
                    None \<Rightarrow> False
                  | Some sch \<Rightarrow> \<not> resolveNotNullPath (schemaFields sch) (rowIDIndex (schemaFields sch)) (hd (specColumns r)))
         then fail ''column path does not resolve''
         else Inr (st\<lparr>tcRequired := pathKey (hd (specColumns r)) # tcRequired st\<rparr>))
      else if kind \<notin> {ConstraintPrimaryKey, ConstraintUnique, ConstraintForeignKey} then fail ''unknown constraint kind''
      else rbind (checkKeyColumns table (specID r) columns (specColumns r)) (\<lambda>_.
        if kind = ConstraintPrimaryKey then
          (if tcPrimary st \<noteq> [] then fail ''at most one PRIMARY KEY''
           else Inr (st\<lparr>tcPrimary := specID r, tcRequired := rev (map pathKey (specColumns r)) @ tcRequired st\<rparr>))
        else if kind = ConstraintForeignKey then rbind (checkForeign table d) (\<lambda>_. Inr st)
        else Inr st))"

definition checkRecord ::
  "ipc \<Rightarrow> unicode \<Rightarrow> rune_tables \<Rightarrow> string list option \<Rightarrow> string \<Rightarrow> arrow_schema option \<Rightarrow> bytes \<Rightarrow> table_check
    \<Rightarrow> con_err + table_check" where
  "checkRecord I U R schemaPath table columns data st =
     (let total = tcTotal st + length data in
      if data = [] \<or> maxRecordSize < length data \<or> maxRecordSize < total
      then Inl (TableLimit table ''constraint records exceed the 8 MiB limit'')
      else rbind (rmap_err (\<lambda>e. TableErr table (ConErrRow e)) (decodeConstraintRecord I data)) (\<lambda>d.
        rbind (checkIdentity U schemaPath table (decodedSpec d) (st\<lparr>tcTotal := total\<rparr>)) (\<lambda>st.
        rbind (checkShape table d) (\<lambda>_. checkKind U R table columns d st))))"

fun checkRecords ::
  "ipc \<Rightarrow> unicode \<Rightarrow> rune_tables \<Rightarrow> string list option \<Rightarrow> string \<Rightarrow> arrow_schema option \<Rightarrow> bytes list \<Rightarrow> table_check
    \<Rightarrow> con_err + table_check" where
  "checkRecords I U R schemaPath table columns [] st = Inr st"
| "checkRecords I U R schemaPath table columns (data # rest) st =
     rbind (checkRecord I U R schemaPath table columns data st) (checkRecords I U R schemaPath table columns rest)"

text \<open>\<open>schemaPath\<close> is \<open>None\<close> when the owner schema is not checked; the result is the keys of the required paths.\<close>

definition checkTableConstraints ::
  "ipc \<Rightarrow> unicode \<Rightarrow> rune_tables \<Rightarrow> string list option \<Rightarrow> string \<Rightarrow> arrow_schema option \<Rightarrow> bytes list \<Rightarrow> con_err + string list" where
  "checkTableConstraints I U R schemaPath table columns constraints =
     (if 1024 < length constraints then Inl (TableLimit table ''too many constraints'')
      else rbind (checkRecords I U R schemaPath table columns constraints emptyCheck) (\<lambda>st. Inr (tcRequired st)))"

function rewriteFields ::
  "string list \<Rightarrow> string \<Rightarrow> arrow_field list \<Rightarrow> string list \<Rightarrow> bool \<Rightarrow> con_err + arrow_field list" where
  "rewriteFields required table [] path atTop = Inr []"
| "rewriteFields required table (f # fs) path atTop =
     (let here = path @ [fieldName f]; needed = pathKey here \<in> set required in
      rbind (if atTop \<and> isRowIDField f then Inr f
        else if needed \<and> atTop \<and> hasMeta f GeneratedExpressionKey
        then Inl (TableErr table (GeneratedRequired (fieldName f)))
        else case ordinaryStructChildren f of
          None \<Rightarrow> Inr (Field (fieldName f) (fieldType f) (\<not> needed) (fieldMeta f))
        | Some children \<Rightarrow>
            rbind (rewriteFields required table children here False) (\<lambda>served.
              Inr (Field (fieldName f) (STRUCT served) (\<not> needed) (fieldMeta f))))
        (\<lambda>f'. rbind (rewriteFields required table fs path atTop) (\<lambda>fs'. Inr (f' # fs'))))"
  by pat_completeness auto
termination
  by (relation "measure (\<lambda>(required, table, fs, path, atTop). size_list size fs)") (auto dest: size_children)

definition servedNullability :: "string \<Rightarrow> arrow_schema \<Rightarrow> string list \<Rightarrow> con_err + arrow_schema" where
  "servedNullability table columns required =
     rbind (rewriteFields required table (schemaFields columns) [] True) (\<lambda>fs. Inr (columns\<lparr>schemaFields := fs\<rparr>))"

definition ServedTableColumns ::
  "ipc \<Rightarrow> unicode \<Rightarrow> rune_tables \<Rightarrow> string list \<Rightarrow> string \<Rightarrow> arrow_schema option \<Rightarrow> bytes list
    \<Rightarrow> con_err + arrow_schema option" where
  "ServedTableColumns I U R schemaPath table columns constraints =
     (if length schemaPath \<noteq> 1 \<and> constraints \<noteq> []
      then Inl (TableLimit table ''constraint records need a one-component schema path'')
      else rbind (checkTableConstraints I U R (Some schemaPath) table columns constraints) (\<lambda>required.
        case columns of
          None \<Rightarrow> Inr None
        | Some sch \<Rightarrow> rbind (servedNullability table sch required) (\<lambda>served. Inr (Some served))))"

definition ValidateConstraintRecords ::
  "ipc \<Rightarrow> unicode \<Rightarrow> rune_tables \<Rightarrow> string \<Rightarrow> arrow_schema option \<Rightarrow> bytes list \<Rightarrow> con_err + unit" where
  "ValidateConstraintRecords I U R table columns constraints =
     rbind (checkTableConstraints I U R None table columns constraints) (\<lambda>required.
       case columns of
         None \<Rightarrow> Inr ()
       | Some sch \<Rightarrow> rbind (servedNullability table sch required) (\<lambda>_. Inr ()))"

section \<open>Paths\<close>

lemma pathKey_simps [simp]:
  "pathKey [] = []" "pathKey (p # ps) = decimal (length p) @ CHR '':'' # p @ pathKey ps"
  by (simp_all add: pathKey_def)

lemma colon_decimal [simp]: "CHR '':'' \<notin> set (decimal n)"
  using decimal_digits [of n] by (auto simp: list_all_iff is_digit_code code_def)

lemma pathKey_inject [simp]: "pathKey p = pathKey q \<longleftrightarrow> p = q"
proof
  show "pathKey p = pathKey q \<Longrightarrow> p = q"
  proof (induction p arbitrary: q)
    case Nil
    then show ?case by (cases q) auto
  next
    case (Cons a p)
    then obtain b q' where q: "q = b # q'" by (cases q) auto
    have "length a = length b \<and> a @ pathKey p = b @ pathKey q'"
      using Cons.prems unfolding q by simp
    then have "a = b" "pathKey p = pathKey q'" by (metis append_eq_append_conv)+
    then show ?case using Cons.IH q by simp
  qed
qed simp

lemma checkPaths_ok:
  "checkPaths cid nested seen paths = Inr () \<longleftrightarrow>
    list_all (\<lambda>p. p \<noteq> [] \<and> length p \<le> 64 \<and> (nested \<or> length p = 1) \<and> list_all validIdentifier p) paths \<and>
    distinct (map pathKey paths) \<and> (\<forall>p \<in> set paths. pathKey p \<notin> set seen)"
  by (induction cid nested seen paths rule: checkPaths.induct) auto

lemma checkColumnPaths_ok:
  "checkColumnPaths cid paths nested = Inr () \<longleftrightarrow>
    length paths \<le> 1024 \<and> distinct paths \<and>
    list_all (\<lambda>p. p \<noteq> [] \<and> length p \<le> 64 \<and> (nested \<or> length p = 1) \<and> list_all validIdentifier p) paths"
  by (auto simp: checkColumnPaths_def checkPaths_ok distinct_map inj_on_def)

lemma checkColumnPaths_nested: "checkColumnPaths cid paths nested = Inr () \<Longrightarrow> checkColumnPaths cid' paths True = Inr ()"
  by (auto simp: checkColumnPaths_ok list_all_iff)

section \<open>Decoding what was encoded\<close>

fun binCell :: "go_value \<Rightarrow> cell" where
  "binCell (GoBytes b) = Bin b"
| "binCell v = Null"

definition optionalBytes :: "go_value \<Rightarrow> bool" where
  "optionalBytes v \<longleftrightarrow> v = GoNil \<or> (\<exists>b. v = GoBytes b)"

lemma append_optionalBytes: "optionalBytes v \<Longrightarrow> appendCanonicalValue TBinary v = Inr (binCell v)"
  by (auto simp: optionalBytes_def)

text \<open>What is decoded of the record of \<open>spec\<close>: the reference's schema path is spelled out.\<close>

definition normalSpec :: "constraint_spec \<Rightarrow> constraint_spec" where
  "normalSpec spec = spec\<lparr>specReferences := map_option (\<lambda>ref. ref\<lparr>refTableSchema := referencedSchema spec ref\<rparr>) (specReferences spec)\<rparr>"

definition decodedOf :: "constraint_spec \<Rightarrow> decoded_constraint" where
  "decodedOf spec =
     (let isCheck = (specKind spec = ConstraintCheck); ref = specReferences spec in
      \<lparr>decodedSpec = normalSpec spec,
       checkProfile = (if isCheck then ScalarExpressionReadProfile else []),
       checkSchemaPath = (if isCheck then specSchemaPath spec else []),
       checkDefaultContext = isCheck,
       fkMatch = (if ref = None then [] else ''SIMPLE''),
       fkOnUpdate = (if ref = None then [] else ''NO_ACTION''),
       fkOnDelete = (if ref = None then [] else ''NO_ACTION''),
       targetSchemaPath = (case ref of None \<Rightarrow> [] | Some r \<Rightarrow> referencedSchema spec r),
       targetOwner = (case ref of None \<Rightarrow> [] | Some r \<Rightarrow> refTable r),
       hasForeignKey = (ref \<noteq> None),
       hasTarget = (ref \<noteq> None)\<rparr>)"

lemma decodeCheck_encode:
  assumes "ipc_laws I" "encodeCheck I spec = Inr check" "rowColumn def ''check_expression'' = binCell check"
    and "\<And>x. check = GoBytes x \<Longrightarrow> length x \<le> maxRecordSize" "(specKind spec = ConstraintCheck) = (specCheckSQL spec \<noteq> [])"
  shows "decodeCheck I def = Inr (specCheckSQL spec, checkProfile (decodedOf spec), checkSchemaPath (decodedOf spec),
    checkDefaultContext (decodedOf spec))"
proof (cases "specKind spec = ConstraintCheck")
  case True
  then obtain b where b: "check = GoBytes b" "length b \<le> maxRecordSize"
    and enc: "encodeCanonicalRow I SqlExpressionSchema
            [(''sql'', GoString (specCheckSQL spec)), (''profile'', GoString ScalarExpressionReadProfile),
             (''schema_path'', GoStrings (specSchemaPath spec)), (''evaluation_context'', evaluationContext)] = Inr b"
    using assms(2,4) by (auto simp: encodeCheck_def rbind_Inr_iff)
  from encode_read [OF assms(1) enc b(2)] True assms(3) b(1) show ?thesis
    by (auto simp: decodeCheck_def decodedOf_def Let_def schema_defs list_all2_Cons1 goField_def rowColumn_def rowStrings_def
        evaluationContext_def defaultEvaluationContext_def)
next
  case False
  then have "check = GoNil" using assms(2) by (simp add: encodeCheck_def)
  then show ?thesis using False assms(3,5) by (simp add: decodeCheck_def decodedOf_def Let_def)
qed

lemma decodeForeign_encode:
  assumes "ipc_laws I" "encodeForeign I spec = Inr (foreign, key)"
    and "rowColumn def ''foreign_key'' = binCell foreign" "rowColumn info ''referenced_constraint'' = binCell key"
    and "\<And>x. foreign = GoBytes x \<Longrightarrow> length x \<le> maxRecordSize" "\<And>x. key = GoBytes x \<Longrightarrow> length x \<le> maxRecordSize"
  shows "decodeForeign I def = Inr (map_option (\<lambda>ref. (''SIMPLE'', ''NO_ACTION'', ''NO_ACTION'',
      ref\<lparr>refTableSchema := referencedSchema spec ref, refConstraintID := []\<rparr>)) (specReferences spec))"
    and "decodeTarget I info = Inr (map_option (\<lambda>ref. \<lparr>refKind = ''constraint'', refSchemaPath = referencedSchema spec ref,
      refName = refConstraintID ref, refOwner = Some (refTable ref)\<rparr>) (specReferences spec))"
proof -
  have "decodeForeign I def = Inr (map_option (\<lambda>ref. (''SIMPLE'', ''NO_ACTION'', ''NO_ACTION'',
        ref\<lparr>refTableSchema := referencedSchema spec ref, refConstraintID := []\<rparr>)) (specReferences spec)) \<and>
      decodeTarget I info = Inr (map_option (\<lambda>ref. \<lparr>refKind = ''constraint'', refSchemaPath = referencedSchema spec ref,
        refName = refConstraintID ref, refOwner = Some (refTable ref)\<rparr>) (specReferences spec))"
  proof (cases "specReferences spec")
    case None
    then show ?thesis using assms(2-4) by (auto simp: encodeForeign_def decodeForeign_def decodeTarget_def)
  next
    case (Some ref)
    then obtain table fb kb
      where table: "catalogObjectRef I ''table'' (referencedSchema spec ref) (refTable ref) None = Inr table"
      and fb: "encodeCanonicalRow I ForeignKeyDefinitionSchema
              [(''referenced_table'', GoBytes table), (''referenced_column_paths'', GoPaths (refColumns ref)),
               (''match'', GoString ''SIMPLE''), (''on_update'', GoString ''NO_ACTION''), (''on_delete'', GoString ''NO_ACTION'')]
            = Inr fb"
      and kb: "catalogObjectRef I ''constraint'' (referencedSchema spec ref) (refConstraintID ref) (Some (refTable ref)) = Inr kb"
      and eq: "foreign = GoBytes fb" "key = GoBytes kb"
      using assms(2) by (auto simp: encodeForeign_def rbind_Inr_iff)
    have fits: "length fb \<le> maxRecordSize" "length kb \<le> maxRecordSize" using assms(5,6) eq by auto
    have "length table \<le> length fb"
      by (rule encode_binary_length [OF assms(1) fb, of "''referenced_table''" False])
        (simp_all add: schema_defs goField_def)
    then have "readObjectRef I table = Inr \<lparr>refKind = ''table'', refSchemaPath = referencedSchema spec ref, refName = refTable ref, refOwner = None\<rparr>"
      using object_ref_roundtrip [OF assms(1) table] fits(1) by simp
    moreover have "readCanonicalRow I fb ForeignKeyDefinitionSchema = Inr
        [(''referenced_table'', Bin table), (''referenced_column_paths'', Items (map (\<lambda>p. Items (map Str p)) (refColumns ref))),
         (''match'', Str ''SIMPLE''), (''on_update'', Str ''NO_ACTION''), (''on_delete'', Str ''NO_ACTION'')]"
      using encode_read [OF assms(1) fb fits(1)] by (auto simp: schema_defs list_all2_Cons1 goField_def)
    moreover note object_ref_roundtrip [OF assms(1) kb fits(2)]
    ultimately show ?thesis
      using assms(3,4) eq Some
      by (simp add: decodeForeign_def decodeTarget_def rowColumn_def rowBinary_def rowEnum_def rowPaths_def comp_def)
  qed
  then show "decodeForeign I def = Inr (map_option (\<lambda>ref. (''SIMPLE'', ''NO_ACTION'', ''NO_ACTION'',
      ref\<lparr>refTableSchema := referencedSchema spec ref, refConstraintID := []\<rparr>)) (specReferences spec))"
    and "decodeTarget I info = Inr (map_option (\<lambda>ref. \<lparr>refKind = ''constraint'', refSchemaPath = referencedSchema spec ref,
      refName = refConstraintID ref, refOwner = Some (refTable ref)\<rparr>) (specReferences spec))"
    by simp_all
qed

lemma record_decode_encode:
  assumes "ipc_laws I" "encodeConstraintRecord I spec = Inr b" "length b \<le> maxRecordSize"
    and "(specKind spec = ConstraintCheck) = (specCheckSQL spec \<noteq> [])"
  shows "decodeConstraintRecord I b = Inr (decodedOf spec)"
proof -
  from assms(2) obtain check foreign key def ref
    where check: "encodeCheck I spec = Inr check" and foreign: "encodeForeign I spec = Inr (foreign, key)"
    and def: "encodeCanonicalRow I ConstraintDefinitionSchema
         [(''kind'', GoString (specKind spec)), (''column_paths'', GoPaths (specColumns spec)),
          (''declared_name'', if specDeclaredName spec = [] then GoNil else GoString (specDeclaredName spec)),
          (''check_expression'', check), (''foreign_key'', foreign)] = Inr def"
    and ref: "catalogObjectRef I ''constraint'' (specSchemaPath spec) (specID spec) (Some (specTable spec)) = Inr ref"
    and info: "encodeCanonicalRow I ConstraintInfoSchema
         [(''ref'', GoBytes ref), (''definition'', GoBytes def), (''enforcement'', GoString (specEnforcement spec)),
          (''validation'', GoString (specValidation spec)), (''referenced_constraint'', key)] = Inr b"
    by (auto simp: encodeConstraintRecord_def rbind_Inr_iff)
  have opt: "optionalBytes check" "optionalBytes foreign" "optionalBytes key"
    using check foreign
    by (auto simp: encodeCheck_def encodeForeign_def rbind_Inr_iff optionalBytes_def split: if_splits option.splits)
  have le: "length ref \<le> length b" "length def \<le> length b" "\<And>x. key = GoBytes x \<Longrightarrow> length x \<le> length b"
    using encode_binary_length [OF assms(1) info, of "''ref''" False]
      encode_binary_length [OF assms(1) info, of "''definition''" False]
      encode_binary_length [OF assms(1) info, of "''referenced_constraint''" True]
    by (auto simp: schema_defs goField_def)
  have le': "\<And>x. check = GoBytes x \<Longrightarrow> length x \<le> length def" "\<And>x. foreign = GoBytes x \<Longrightarrow> length x \<le> length def"
    using encode_binary_length [OF assms(1) def, of "''check_expression''" True]
      encode_binary_length [OF assms(1) def, of "''foreign_key''" True]
    by (auto simp: schema_defs goField_def)
  let ?def = "[(''kind'', Str (specKind spec)), (''column_paths'', Items (map (\<lambda>p. Items (map Str p)) (specColumns spec))),
      (''declared_name'', if specDeclaredName spec = [] then Null else Str (specDeclaredName spec)),
      (''check_expression'', binCell check), (''foreign_key'', binCell foreign)]"
  let ?info = "[(''ref'', Bin ref), (''definition'', Bin def), (''enforcement'', Str (specEnforcement spec)),
      (''validation'', Str (specValidation spec)), (''referenced_constraint'', binCell key)]"
  have readDef: "readCanonicalRow I def ConstraintDefinitionSchema = Inr ?def"
    using encode_read [OF assms(1) def] le(2) assms(3) append_optionalBytes [OF opt(1)] append_optionalBytes [OF opt(2)]
    by (auto simp: schema_defs list_all2_Cons1 goField_def split: if_splits)
  have readInfo: "readCanonicalRow I b ConstraintInfoSchema = Inr ?info"
    using encode_read [OF assms(1) info assms(3)] append_optionalBytes [OF opt(3)]
    by (auto simp: schema_defs list_all2_Cons1 goField_def)
  have readRef: "readObjectRef I ref = Inr \<lparr>refKind = ''constraint'', refSchemaPath = specSchemaPath spec, refName = specID spec,
      refOwner = Some (specTable spec)\<rparr>"
    using object_ref_roundtrip [OF assms(1) ref] le(1) assms(3) by simp
  have cols: "rowColumn ?def ''check_expression'' = binCell check" "rowColumn ?def ''foreign_key'' = binCell foreign"
    "rowColumn ?info ''referenced_constraint'' = binCell key"
    by (simp_all add: rowColumn_def)
  note def_fits = order_trans [OF le(2) assms(3)]
  note fits = order_trans [OF le'(1) def_fits] order_trans [OF le'(2) def_fits] order_trans [OF le(3) assms(3)]
  note parts = decodeCheck_encode [OF assms(1) check cols(1) fits(1) assms(4)]
    decodeForeign_encode [OF assms(1) foreign cols(2,3) fits(2,3)]
  have "rowBinary ?info ''ref'' = ref" "rowBinary ?info ''definition'' = def"
    by (simp_all add: rowBinary_def rowColumn_def)
  then show ?thesis
    by (simp add: decodeConstraintRecord_def readInfo readRef readDef parts)
      (cases "specReferences spec"; simp add: rowEnum_def rowPaths_def rowColumn_def decodedOf_def normalSpec_def comp_def Let_def)
qed

text \<open>The checks of a record, and what they give.\<close>

lemma checkSpec_ok:
  assumes "checkSpec U R spec = Inr ()"
  shows "validIdentifier (specID spec)" "validIdentifier (specTable spec)"
    "length (specSchemaPath spec) = 1" "validIdentifier (hd (specSchemaPath spec))"
    "specKind spec \<in> {ConstraintNotNull, ConstraintPrimaryKey, ConstraintUnique, ConstraintCheck, ConstraintForeignKey}"
    "specEnforcement spec = ConstraintEnforced" "specValidation spec = ConstraintAllRows"
    "specDeclaredName spec = [] \<or> validIdentifier (specDeclaredName spec)"
    "(specKind spec = ConstraintCheck) = (specCheckSQL spec \<noteq> [])"
    "(specKind spec = ConstraintCheck) = (specColumns spec = [])"
    "specKind spec = ConstraintNotNull \<Longrightarrow> length (specColumns spec) = 1"
    "checkColumnPaths (specID spec) (specColumns spec) (specKind spec = ConstraintNotNull) = Inr ()"
    "specKind spec = ConstraintCheck \<Longrightarrow> validateNumericCheckSQL U R (specCheckSQL spec) None = Inr ()"
    "checkReference spec = Inr ()"
proof -
  note c = assms [unfolded checkSpec_def Let_def if_Inl_Inr_iff rbind_unit_iff]
  show "validIdentifier (specID spec)" "validIdentifier (specTable spec)"
    "length (specSchemaPath spec) = 1" "validIdentifier (hd (specSchemaPath spec))"
    "specKind spec \<in> {ConstraintNotNull, ConstraintPrimaryKey, ConstraintUnique, ConstraintCheck, ConstraintForeignKey}"
    "specEnforcement spec = ConstraintEnforced" "specValidation spec = ConstraintAllRows"
    "specDeclaredName spec = [] \<or> validIdentifier (specDeclaredName spec)"
    "(specKind spec = ConstraintCheck) = (specCheckSQL spec \<noteq> [])"
    "(specKind spec = ConstraintCheck) = (specColumns spec = [])"
    "specKind spec = ConstraintNotNull \<Longrightarrow> length (specColumns spec) = 1"
    "checkReference spec = Inr ()"
    "checkColumnPaths (specID spec) (specColumns spec) (specKind spec = ConstraintNotNull) = Inr ()"
    using c by blast+
  show "specKind spec = ConstraintCheck \<Longrightarrow> validateNumericCheckSQL U R (specCheckSQL spec) None = Inr ()"
    using c by (simp only: if_True simp_thms rmap_err_Inr_iff)
qed

section \<open>Served nullability\<close>

text \<open>The fields a path names, descending through ordinary structs.\<close>

fun fieldsAt :: "arrow_field list \<Rightarrow> string list \<Rightarrow> arrow_field list" where
  "fieldsAt fs [] = []"
| "fieldsAt fs [n] = filter (\<lambda>f. fieldName f = n) fs"
| "fieldsAt fs (n # m # path) =
     concat (map (\<lambda>f. case ordinaryStructChildren f of None \<Rightarrow> [] | Some children \<Rightarrow> fieldsAt children (m # path))
       (filter (\<lambda>f. fieldName f = n) fs))"

text \<open>A field with every nullability the code may rewrite forgotten.\<close>

function relaxed :: "arrow_field \<Rightarrow> arrow_field" where
  "relaxed f =
     (case ordinaryStructChildren f of
        None \<Rightarrow> Field (fieldName f) (fieldType f) True (fieldMeta f)
      | Some children \<Rightarrow> Field (fieldName f) (STRUCT (map relaxed children)) True (fieldMeta f))"
  by pat_completeness auto
termination
proof (relation "measure size", goal_cases)
  case (2 f children child)
  then have "size child \<le> size_list size children"
    by (simp add: size_list_estimation')
  then show ?case using size_children [OF 2(1)] by simp
qed simp

declare relaxed.simps [simp del]

lemma ordinary_Field:
  "ordinaryStructChildren (Field n t nullable meta) =
    (case t of STRUCT children \<Rightarrow> if list_ex (logicalKey \<circ> fst) meta then None else Some children | _ \<Rightarrow> None)"
  by (simp add: ordinaryStructChildren_def split: arrow_type.split)

lemma ordinary_SomeD:
  "ordinaryStructChildren f = Some children \<Longrightarrow> fieldType f = STRUCT children \<and> \<not> list_ex (logicalKey \<circ> fst) (fieldMeta f)"
  by (auto simp: ordinaryStructChildren_def split: arrow_type.splits if_splits)

lemma ordinary_nullable:
  "ordinaryStructChildren (Field (fieldName f) (fieldType f) nullable (fieldMeta f)) = ordinaryStructChildren f"
  by (simp add: ordinaryStructChildren_def split: arrow_type.split)

lemma isRowID_Field: "isRowIDField (Field n t nullable (fieldMeta f)) = isRowIDField f"
  by (simp add: isRowIDField_def hasMeta_def)

text \<open>One field of a rewritten list.\<close>

lemma rewriteFields_Cons:
  "rewriteFields required table (f # fs) path atTop = Inr out \<longleftrightarrow>
    (\<exists>f' fs'. out = f' # fs' \<and> rewriteFields required table fs path atTop = Inr fs' \<and>
      (if atTop \<and> isRowIDField f then f' = f
       else \<not> (pathKey (path @ [fieldName f]) \<in> set required \<and> atTop \<and> hasMeta f GeneratedExpressionKey) \<and>
         (case ordinaryStructChildren f of
            None \<Rightarrow> f' = Field (fieldName f) (fieldType f) (pathKey (path @ [fieldName f]) \<notin> set required) (fieldMeta f)
          | Some children \<Rightarrow>
              (\<exists>served. rewriteFields required table children (path @ [fieldName f]) False = Inr served \<and>
                f' = Field (fieldName f) (STRUCT served) (pathKey (path @ [fieldName f]) \<notin> set required) (fieldMeta f)))))"
  by (auto simp: Let_def rbind_Inr_iff if_Inl_Inr_iff split: option.splits)

text \<open>Induction over fields and the fields of ordinary structs below them.\<close>

lemma fields_induct [case_names Nil Cons]:
  assumes "P []"
    and "\<And>f fs. P fs \<Longrightarrow> (\<And>children. ordinaryStructChildren f = Some children \<Longrightarrow> P children) \<Longrightarrow> P (f # fs)"
  shows "P fs"
proof (induction "size_list size fs" arbitrary: fs rule: less_induct)
  case less
  show ?case
  proof (cases fs)
    case (Cons f rest)
    show ?thesis
      unfolding Cons
    proof (rule assms(2))
      show "P rest" by (rule less) (simp add: Cons)
      show "P children" if "ordinaryStructChildren f = Some children" for children
        by (rule less) (use size_children [OF that] in \<open>simp add: Cons\<close>)
    qed
  qed (simp add: assms(1))
qed

lemma rewriteFields_relaxed:
  "rewriteFields required table fs path atTop = Inr fs' \<Longrightarrow> map relaxed fs' = map relaxed fs"
proof (induction fs arbitrary: path atTop fs' rule: fields_induct)
  case (Cons f fs)
  from Cons.prems obtain f' rest where fs': "fs' = f' # rest" and rest: "rewriteFields required table fs path atTop = Inr rest"
    and f': "if atTop \<and> isRowIDField f then f' = f
       else \<not> (pathKey (path @ [fieldName f]) \<in> set required \<and> atTop \<and> hasMeta f GeneratedExpressionKey) \<and>
         (case ordinaryStructChildren f of
            None \<Rightarrow> f' = Field (fieldName f) (fieldType f) (pathKey (path @ [fieldName f]) \<notin> set required) (fieldMeta f)
          | Some children \<Rightarrow>
              (\<exists>served. rewriteFields required table children (path @ [fieldName f]) False = Inr served \<and>
                f' = Field (fieldName f) (STRUCT served) (pathKey (path @ [fieldName f]) \<notin> set required) (fieldMeta f)))"
    unfolding rewriteFields_Cons by blast
  have "relaxed f' = relaxed f"
  proof (cases "ordinaryStructChildren f")
    case None
    then show ?thesis
      using f' by (auto simp: relaxed.simps [of f] relaxed.simps [of "Field _ _ _ _"] ordinary_nullable split: if_splits)
  next
    case (Some children)
    then show ?thesis
      using f' Cons.IH(2) [OF Some] ordinary_SomeD [OF Some]
      by (auto simp: relaxed.simps [of f] relaxed.simps [of "Field _ (STRUCT _) _ _"] ordinary_Field split: if_splits)
  qed
  then show ?case using Cons.IH(1) [OF rest] fs' by simp
qed simp

lemma fieldsAt_Nil [simp]: "fieldsAt [] sub = []"
  by (cases sub rule: remdups_adj.cases) simp_all

lemma fieldsAt_Cons: "fieldsAt (g # fs) sub = fieldsAt [g] sub @ fieldsAt fs sub"
  by (cases sub rule: remdups_adj.cases) simp_all

text \<open>The fields the code rewrites: at the top level, all but the row id.\<close>

definition rewritten :: "bool \<Rightarrow> arrow_field list \<Rightarrow> arrow_field list" where
  "rewritten atTop fs = filter (\<lambda>f. \<not> (atTop \<and> isRowIDField f)) fs"

lemma rewritten_simps [simp]:
  "rewritten atTop [] = []"
  "rewritten atTop (f # fs) = (if atTop \<and> isRowIDField f then rewritten atTop fs else f # rewritten atTop fs)"
  "rewritten False fs = fs"
  by (simp_all add: rewritten_def)

lemma rewriteFields_nullable:
  assumes "rewriteFields required table fs path atTop = Inr fs'" "f \<in> set (fieldsAt (rewritten atTop fs') sub)"
  shows "isNullable f \<longleftrightarrow> pathKey (path @ sub) \<notin> set required"
  using assms
proof (induction fs arbitrary: path atTop fs' sub rule: fields_induct)
  case (Cons g fs)
  from Cons.prems(1) obtain g' rest where fs': "fs' = g' # rest" and rest: "rewriteFields required table fs path atTop = Inr rest"
    and g': "if atTop \<and> isRowIDField g then g' = g
       else \<not> (pathKey (path @ [fieldName g]) \<in> set required \<and> atTop \<and> hasMeta g GeneratedExpressionKey) \<and>
         (case ordinaryStructChildren g of
            None \<Rightarrow> g' = Field (fieldName g) (fieldType g) (pathKey (path @ [fieldName g]) \<notin> set required) (fieldMeta g)
          | Some children \<Rightarrow>
              (\<exists>served. rewriteFields required table children (path @ [fieldName g]) False = Inr served \<and>
                g' = Field (fieldName g) (STRUCT served) (pathKey (path @ [fieldName g]) \<notin> set required) (fieldMeta g)))"
    unfolding rewriteFields_Cons by blast
  from Cons.prems(2) consider "f \<in> set (fieldsAt (rewritten atTop rest) sub)"
    | "\<not> (atTop \<and> isRowIDField g')" "f \<in> set (fieldsAt [g'] sub)"
    unfolding fs' by (auto simp: fieldsAt_Cons [of g' "rewritten atTop rest"] split: if_splits)
  then show ?case
  proof cases
    case 2
    then have top: "\<not> (atTop \<and> isRowIDField g)" using g' by (auto simp: isRowID_Field split: if_splits)
    show ?thesis
    proof (cases sub rule: remdups_adj.cases)
      case (2 n)
      with \<open>f \<in> set (fieldsAt [g'] sub)\<close> g' top show ?thesis by (auto split: option.splits if_splits)
    next
      case (3 n m sub')
      with \<open>f \<in> set (fieldsAt [g'] sub)\<close> have name: "fieldName g' = n"
        and f: "f \<in> set (case ordinaryStructChildren g' of None \<Rightarrow> [] | Some children \<Rightarrow> fieldsAt children (m # sub'))"
        by (auto split: if_splits)
      show ?thesis
      proof (cases "ordinaryStructChildren g")
        case None
        then show ?thesis using f g' top by (auto simp: ordinary_nullable split: if_splits)
      next
        case (Some children)
        then obtain served where served: "rewriteFields required table children (path @ [n]) False = Inr served"
          and children: "ordinaryStructChildren g' = Some served"
          using g' top name ordinary_SomeD [OF Some] by (auto simp: ordinary_Field split: if_splits)
        show ?thesis
          using Cons.IH(2) [OF Some served, of "m # sub'"] f children 3 by simp
      qed
    qed (use \<open>f \<in> set (fieldsAt [g'] sub)\<close> in simp)
  qed (rule Cons.IH(1) [OF rest])
qed simp

lemma rewriteFields_error:
  "rewriteFields required table fs path atTop = Inl e \<Longrightarrow>
    atTop \<and> (\<exists>f \<in> set fs. hasMeta f GeneratedExpressionKey \<and> pathKey (path @ [fieldName f]) \<in> set required \<and>
      e = TableErr table (GeneratedRequired (fieldName f)))"
proof (induction fs arbitrary: path atTop e rule: fields_induct)
  case (Cons f fs)
  let ?generated = "hasMeta f GeneratedExpressionKey \<and> pathKey (path @ [fieldName f]) \<in> set required \<and>
      e = TableErr table (GeneratedRequired (fieldName f))"
  have no_child: "rewriteFields required table children sub False \<noteq> Inl e" if "ordinaryStructChildren f = Some children" for children sub
    using Cons.IH(2) [OF that, of sub False e] by blast
  from Cons.prems consider "atTop \<and> ?generated" | "rewriteFields required table fs path atTop = Inl e"
    using no_child [of _ "path @ [fieldName f]"]
    by (cases "ordinaryStructChildren f") (auto simp: Let_def rbind_Inl_iff split: if_splits)
  then show ?case
    using Cons.IH(1) [of path atTop e] by cases auto
qed simp

section \<open>A table's records\<close>

text \<open>The column paths a record requires to be non-null, and all that a list of records requires.\<close>

definition requiredPaths :: "constraint_spec \<Rightarrow> string list list" where
  "requiredPaths spec =
     (if specKind spec = ConstraintNotNull \<or> specKind spec = ConstraintPrimaryKey then specColumns spec else [])"

text \<open>The columns of the table fit a record.\<close>

definition columnsFit :: "unicode \<Rightarrow> rune_tables \<Rightarrow> arrow_schema option \<Rightarrow> constraint_spec \<Rightarrow> bool" where
  "columnsFit U R columns spec =
     (if specKind spec = ConstraintCheck then validateNumericCheckSQL U R (specCheckSQL spec) columns = Inr ()
      else if specKind spec = ConstraintNotNull then
        (case columns of
           None \<Rightarrow> True
         | Some sch \<Rightarrow> resolveNotNullPath (schemaFields sch) (rowIDIndex (schemaFields sch)) (hd (specColumns spec)))
      else list_all (keyColumnOk columns) (specColumns spec))"

definition labelsOf :: "unicode \<Rightarrow> constraint_spec list \<Rightarrow> string list" where
  "labelsOf U specs = map (ToLower U) (filter (\<lambda>name. name \<noteq> []) (map specDeclaredName specs))"

text \<open>The records of one table: its own, with distinct ids and labels and at most one primary key.\<close>

definition tableSpecs :: "unicode \<Rightarrow> string list \<Rightarrow> string \<Rightarrow> constraint_spec list \<Rightarrow> bool" where
  "tableSpecs U schemaPath table specs \<longleftrightarrow>
     list_all (\<lambda>spec. specSchemaPath spec = schemaPath \<and> specTable spec = table) specs \<and>
     distinct (map specID specs) \<and> distinct (labelsOf U specs) \<and>
     length (filter (\<lambda>spec. specKind spec = ConstraintPrimaryKey) specs) \<le> 1"

definition noteSpec :: "unicode \<Rightarrow> bytes \<Rightarrow> constraint_spec \<Rightarrow> table_check \<Rightarrow> table_check" where
  "noteSpec U data spec st =
     st\<lparr>tcTotal := tcTotal st + length data, tcIDs := specID spec # tcIDs st,
        tcLabels := labelsOf U [spec] @ tcLabels st,
        tcPrimary := (if specKind spec = ConstraintPrimaryKey then specID spec else tcPrimary st),
        tcRequired := rev (map pathKey (requiredPaths spec)) @ tcRequired st\<rparr>"

lemma normalSpec_simps [simp]:
  "specSchemaPath (normalSpec spec) = specSchemaPath spec" "specTable (normalSpec spec) = specTable spec"
  "specID (normalSpec spec) = specID spec" "specKind (normalSpec spec) = specKind spec"
  "specColumns (normalSpec spec) = specColumns spec" "specEnforcement (normalSpec spec) = specEnforcement spec"
  "specValidation (normalSpec spec) = specValidation spec" "specDeclaredName (normalSpec spec) = specDeclaredName spec"
  "specCheckSQL (normalSpec spec) = specCheckSQL spec"
  by (simp_all add: normalSpec_def)

lemma decodedOf_simps [simp]:
  "decodedSpec (decodedOf spec) = normalSpec spec"
  "hasForeignKey (decodedOf spec) = (specReferences spec \<noteq> None)"
  "hasTarget (decodedOf spec) = (specReferences spec \<noteq> None)"
  by (simp_all add: decodedOf_def Let_def)

lemma checkReference_kind: "checkReference spec = Inr () \<Longrightarrow> (specKind spec = ConstraintForeignKey) = (specReferences spec \<noteq> None)"
  by (simp add: checkReference_def Let_def split: if_splits)

lemma checkForeign_decodedOf:
  assumes "checkReference spec = Inr ()"
  shows "checkForeign table (decodedOf spec) = Inr ()"
proof (cases "specReferences spec")
  case None
  then show ?thesis by (simp add: checkForeign_def normalSpec_def Let_def)
next
  case (Some ref)
  then have "referencedSchema spec ref = specSchemaPath spec" "length (refColumns ref) = length (specColumns spec)"
    "checkColumnPaths (specID spec) (refColumns ref) False = Inr ()"
    using assms by (auto simp: checkReference_def referencedSchema_def rbind_unit_iff Let_def split: if_splits)
  then show ?thesis
    using Some by (auto simp: checkForeign_def decodedOf_def normalSpec_def checkColumnPaths_ok list_all_iff Let_def)
qed

lemma checkKeyColumns_ok:
  "checkKeyColumns table cid columns paths = Inr () \<longleftrightarrow> list_all (\<lambda>p. length p = 1 \<and> keyColumnOk columns p) paths"
  by (induction paths) auto

lemma checkShape_decodedOf: "checkSpec U R spec = Inr () \<Longrightarrow> checkShape table (decodedOf spec) = Inr ()"
  using checkSpec_ok [of U R spec] checkReference_kind [of spec]
    checkColumnPaths_nested [of "specID spec" "specColumns spec" "specKind spec = ConstraintNotNull" "specID spec"]
  by (auto simp: checkShape_def Let_def)

lemma checkKind_decodedOf:
  assumes "checkSpec U R spec = Inr ()" "columnsFit U R columns spec"
    and "specKind spec = ConstraintPrimaryKey \<Longrightarrow> tcPrimary st = []"
  shows "checkKind U R table columns (decodedOf spec) st = Inr
    (st\<lparr>tcPrimary := (if specKind spec = ConstraintPrimaryKey then specID spec else tcPrimary st),
        tcRequired := rev (map pathKey (requiredPaths spec)) @ tcRequired st\<rparr>)"
proof -
  note ok = checkSpec_ok [OF assms(1)]
  have paths: "list_all (\<lambda>p. length p = 1) (specColumns spec)" if "specKind spec \<noteq> ConstraintNotNull"
    using ok(12) that by (auto simp: checkColumnPaths_ok list_all_iff)
  consider "specKind spec = ConstraintCheck" | "specKind spec = ConstraintNotNull" | "specKind spec = ConstraintPrimaryKey"
    | "specKind spec = ConstraintUnique" | "specKind spec = ConstraintForeignKey"
    using ok(5) by auto
  then show ?thesis
  proof cases
    case 1
    then show ?thesis
      using assms(2) by (simp add: checkKind_def columnsFit_def requiredPaths_def decodedOf_def kind_defs Let_def)
  next
    case 2
    moreover from this obtain p where "specColumns spec = [p]" using ok(11) by (auto simp: length_Suc_conv)
    ultimately show ?thesis
      using assms(2) by (cases columns) (auto simp: checkKind_def columnsFit_def requiredPaths_def kind_defs Let_def)
  next
    case 3
    then show ?thesis
      using assms(2,3) paths
      by (auto simp: checkKind_def columnsFit_def requiredPaths_def checkKeyColumns_ok list_all_iff rbind_unit_iff kind_defs Let_def)
  next
    case 4
    then show ?thesis
      using assms(2) paths
      by (auto simp: checkKind_def columnsFit_def requiredPaths_def checkKeyColumns_ok list_all_iff rbind_unit_iff kind_defs Let_def)
  next
    case 5
    then show ?thesis
      using assms(2) paths checkForeign_decodedOf [OF ok(14)]
      by (auto simp: checkKind_def columnsFit_def requiredPaths_def checkKeyColumns_ok list_all_iff rbind_unit_iff kind_defs Let_def)
  qed
qed

lemma checkIdentity_decodedOf:
  assumes "checkSpec U R spec = Inr ()" "specSchemaPath spec = schemaPath" "specTable spec = table"
    and "specID spec \<notin> set (tcIDs st)" "set (labelsOf U [spec]) \<inter> set (tcLabels st) = {}"
  shows "checkIdentity U (Some schemaPath) table (normalSpec spec) st =
    Inr (st\<lparr>tcIDs := specID spec # tcIDs st, tcLabels := labelsOf U [spec] @ tcLabels st\<rparr>)"
  using checkSpec_ok [OF assms(1)] assms(2-5) by (auto simp: checkIdentity_def labelsOf_def Let_def)

lemma checkRecord_spec:
  assumes "ipc_laws I" "ConstraintRecord I U R spec = Inr data" "specSchemaPath spec = schemaPath" "specTable spec = table"
    and "specID spec \<notin> set (tcIDs st)" "set (labelsOf U [spec]) \<inter> set (tcLabels st) = {}"
    and "specKind spec = ConstraintPrimaryKey \<Longrightarrow> tcPrimary st = []"
    and "tcTotal st + length data \<le> maxRecordSize" "columnsFit U R columns spec"
  shows "checkRecord I U R (Some schemaPath) table columns data st = Inr (noteSpec U data spec st)"
proof -
  have check: "checkSpec U R spec = Inr ()" and enc: "encodeConstraintRecord I spec = Inr data"
    using assms(2) by (simp_all add: ConstraintRecord_def rbind_unit_iff rmap_err_Inr_iff)
  have "data \<noteq> []"
    using enc assms(1)
    by (auto simp: encodeConstraintRecord_def rbind_Inr_iff encodeCanonicalRow_def dest: ipc_write_ok(1) [OF assms(1)])
  moreover have "decodeConstraintRecord I data = Inr (decodedOf spec)"
    using record_decode_encode [OF assms(1) enc _ checkSpec_ok(9) [OF check]] assms(8) by simp
  moreover have "checkIdentity U (Some schemaPath) table (normalSpec spec) (st\<lparr>tcTotal := tcTotal st + length data\<rparr>) =
      Inr (st\<lparr>tcTotal := tcTotal st + length data, tcIDs := specID spec # tcIDs st, tcLabels := labelsOf U [spec] @ tcLabels st\<rparr>)"
    using checkIdentity_decodedOf [OF check assms(3,4), of "st\<lparr>tcTotal := tcTotal st + length data\<rparr>"] assms(5,6) by simp
  ultimately show ?thesis
    using assms(7,8) checkShape_decodedOf [OF check] checkKind_decodedOf [OF check assms(9)]
    by (simp add: checkRecord_def noteSpec_def Let_def)
qed

text \<open>What the checks of the first records leave for those that follow.\<close>

definition roomFor :: "unicode \<Rightarrow> constraint_spec list \<Rightarrow> bytes list \<Rightarrow> table_check \<Rightarrow> bool" where
  "roomFor U specs bs st \<longleftrightarrow>
     set (map specID specs) \<inter> set (tcIDs st) = {} \<and> set (labelsOf U specs) \<inter> set (tcLabels st) = {} \<and>
     (tcPrimary st = [] \<or> list_all (\<lambda>spec. specKind spec \<noteq> ConstraintPrimaryKey) specs) \<and>
     tcTotal st + sum_list (map length bs) \<le> maxRecordSize"

lemma checkRecords_specs:
  assumes "ipc_laws I" "list_all2 (\<lambda>spec data. ConstraintRecord I U R spec = Inr data) specs bs"
    and "tableSpecs U schemaPath table specs" "list_all (columnsFit U R columns) specs" "roomFor U specs bs st"
  shows "\<exists>st'. checkRecords I U R (Some schemaPath) table columns bs st = Inr st' \<and>
    set (tcRequired st') = pathKey ` set (concat (map requiredPaths specs)) \<union> set (tcRequired st)"
  using assms(2-5)
proof (induction arbitrary: st rule: list_all2_induct)
  case (Cons spec specs data bs)
  have "checkRecord I U R (Some schemaPath) table columns data st = Inr (noteSpec U data spec st)"
    by (rule checkRecord_spec [OF assms(1) Cons.hyps(1)])
      (use Cons.prems in \<open>auto simp: tableSpecs_def roomFor_def labelsOf_def\<close>)
  moreover have "specID spec \<noteq> []"
    using Cons.hyps(1) checkSpec_ok(1) [of U R spec] by (simp add: ConstraintRecord_def rbind_unit_iff validIdentifier_def)
  then have "roomFor U specs bs (noteSpec U data spec st)"
    using Cons.prems
    by (auto simp: roomFor_def noteSpec_def tableSpecs_def labelsOf_def filter_empty_conv list_all_iff split: if_splits)
  moreover have "tableSpecs U schemaPath table specs"
    using Cons.prems(1) by (auto simp: tableSpecs_def labelsOf_def split: if_splits)
  ultimately show ?case
    using Cons.IH [of "noteSpec U data spec st"] Cons.prems(2) by (fastforce simp: noteSpec_def)
qed simp

lemma checkTableConstraints_specs:
  assumes "ipc_laws I" "list_all2 (\<lambda>spec data. ConstraintRecord I U R spec = Inr data) specs bs"
    and "tableSpecs U schemaPath table specs" "list_all (columnsFit U R columns) specs"
    and "length specs \<le> 1024" "sum_list (map length bs) \<le> maxRecordSize"
  shows "\<exists>required. checkTableConstraints I U R (Some schemaPath) table columns bs = Inr required \<and>
    set required = pathKey ` set (concat (map requiredPaths specs))"
  using checkRecords_specs [OF assms(1-4), of emptyCheck] assms(5,6) list_all2_lengthD [OF assms(2)]
  by (auto simp: checkTableConstraints_def roomFor_def emptyCheck_def)

definition sample_spec :: constraint_spec where
  "sample_spec = \<lparr>specSchemaPath = [''main''], specTable = ''t'', specID = ''nn'', specKind = ConstraintNotNull, specColumns = [[''c'']],
     specEnforcement = ConstraintEnforced, specValidation = ConstraintAllRows, specDeclaredName = [], specCheckSQL = [],
     specReferences = None\<rparr>"

definition sample_ipc :: ipc where
  "sample_ipc = table_ipc
     [(CatalogObjectRefSchema, [Str ''constraint'', Items [Str ''main''], Str ''nn'', Str ''t'']),
      (ConstraintDefinitionSchema, [Str ''NOT_NULL'', Items [Items [Str ''c'']], Null, Null, Null]),
      (ConstraintInfoSchema, [Bin [0], Bin [1], Str ''ENFORCED'', Str ''ALL_ROWS'', Null])]"

lemma sample_ipc_laws: "ipc_laws sample_ipc"
  unfolding sample_ipc_def by (rule table_ipc_laws) simp

lemma sample_record: "ConstraintRecord sample_ipc plain_unicode plain_runes sample_spec = Inr [2, 0, 1]"
proof -
  have "checkSpec plain_unicode plain_runes sample_spec = Inr ()"
    by (simp add: checkSpec_def sample_spec_def checkColumnPaths_def checkReference_def validIdentifier_def kind_defs
        ConstraintEnforced_def ConstraintAllRows_def Let_def)
  moreover have "encodeConstraintRecord sample_ipc sample_spec = Inr [2, 0, 1]"
    by (simp add: encodeConstraintRecord_def sample_spec_def encodeCheck_def encodeForeign_def catalogObjectRef_def
        encodeCanonicalRow_def sample_ipc_def table_ipc_defs schema_defs goField_def goOptional_def kind_defs
        ConstraintEnforced_def ConstraintAllRows_def)
  ultimately show ?thesis by (simp add: ConstraintRecord_def)
qed

lemma read_record:
  assumes "ipc_laws I" "ConstraintRecord I U R spec = Inr data" "length data \<le> maxRecordSize"
  shows "ReadConstraintRecord I data = Inr (normalSpec spec)"
proof -
  have "checkSpec U R spec = Inr ()" "encodeConstraintRecord I spec = Inr data"
    using assms(2) by (simp_all add: ConstraintRecord_def rbind_unit_iff rmap_err_Inr_iff)
  then show ?thesis
    using record_decode_encode [OF assms(1) _ assms(3)] checkSpec_ok(9) by (simp add: ReadConstraintRecord_def)
qed

section \<open>Properties\<close>

text \<open>
  C22. A constraint record that \<open>ConstraintRecord\<close> accepts reads back as it was given, the schema of a
  foreign key's target spelled out, as long as it is within the size limit of a record.
\<close>
theorem constraint_record_roundtrip:
  assumes "ipc_laws I" "ConstraintRecord I U R spec = Inr data" "length data \<le> maxRecordSize"
  shows "ReadConstraintRecord I data = Inr (normalSpec spec)"
  using read_record [OF assms] .

theorem constraint_record_roundtrip_witness:
  "ReadConstraintRecord sample_ipc [2, 0, 1] = Inr (normalSpec sample_spec)"
  by (rule constraint_record_roundtrip [OF sample_ipc_laws sample_record]) (simp add: maxRecordSize_def)

text \<open>
  C8. The records that \<open>ConstraintRecord\<close> accepts for a table are accepted when the table is served: with distinct ids
  and labels, at most one primary key and columns that fit them, no check fails, and the table is then served
  with its columns unchanged but for nullability, a field being non-null exactly when a NOT NULL or
  primary key record names its path; the one refusal left is a generated column that a record requires.
\<close>
theorem served_columns_follow_records:
  assumes "ipc_laws I" "list_all2 (\<lambda>spec data. ConstraintRecord I U R spec = Inr data) specs bs"
    and "tableSpecs U [schema] table specs" "list_all (columnsFit U R (Some sch)) specs"
    and "length specs \<le> 1024" "sum_list (map length bs) \<le> maxRecordSize"
  shows "case ServedTableColumns I U R [schema] table (Some sch) bs of
      Inl e \<Rightarrow> (\<exists>f \<in> set (schemaFields sch). hasMeta f GeneratedExpressionKey \<and> e = TableErr table (GeneratedRequired (fieldName f)) \<and>
        [fieldName f] \<in> set (concat (map requiredPaths specs)))
    | Inr served \<Rightarrow> (\<exists>sch'. served = Some sch' \<and> map relaxed (schemaFields sch') = map relaxed (schemaFields sch) \<and>
        (\<forall>path. \<forall>f \<in> set (fieldsAt (rewritten True (schemaFields sch')) path).
          isNullable f \<longleftrightarrow> path \<notin> set (concat (map requiredPaths specs))))"
proof -
  obtain required where ok: "checkTableConstraints I U R (Some [schema]) table (Some sch) bs = Inr required"
    and req: "set required = pathKey ` set (concat (map requiredPaths specs))"
    using checkTableConstraints_specs [OF assms(1-6)] by blast
  have key: "pathKey path \<in> set required \<longleftrightarrow> path \<in> set (concat (map requiredPaths specs))" for path
    unfolding req by (rule inj_image_mem_iff) (simp add: inj_def)
  show ?thesis
  proof (cases "rewriteFields required table (schemaFields sch) [] True")
    case (Inl e)
    then obtain f where "f \<in> set (schemaFields sch)" "hasMeta f GeneratedExpressionKey" "pathKey [fieldName f] \<in> set required"
      "e = TableErr table (GeneratedRequired (fieldName f))"
      using rewriteFields_error [OF Inl] by auto
    then show ?thesis using key Inl ok by (auto simp: ServedTableColumns_def servedNullability_def simp del: pathKey_simps)
  next
    case (Inr fs)
    then show ?thesis
      using rewriteFields_relaxed [OF Inr] rewriteFields_nullable [OF Inr] key ok
      by (simp add: ServedTableColumns_def servedNullability_def)
  qed
qed

theorem served_columns_follow_records_witness:
  "\<exists>sch'. ServedTableColumns sample_ipc plain_unicode plain_runes [''main''] ''t''
      (Some \<lparr>schemaFields = [Field ''c'' INT64 True [], Field ''d'' STRING False []], schemaMeta = []\<rparr>) [[2, 0, 1]] = Inr (Some sch') \<and>
    (\<forall>f \<in> set (fieldsAt (rewritten True (schemaFields sch')) [''c'']). \<not> isNullable f) \<and>
    (\<forall>f \<in> set (fieldsAt (rewritten True (schemaFields sch')) [''d'']). isNullable f)"
proof -
  let ?sch = "\<lparr>schemaFields = [Field ''c'' INT64 True [], Field ''d'' STRING False []], schemaMeta = []\<rparr>"
  have "tableSpecs plain_unicode [''main''] ''t'' [sample_spec]" "requiredPaths sample_spec = [[''c'']]"
    by (simp_all add: tableSpecs_def sample_spec_def labelsOf_def requiredPaths_def)
  moreover have "columnsFit plain_unicode plain_runes (Some ?sch) sample_spec"
    by (simp add: columnsFit_def sample_spec_def kind_defs resolveNotNullPath_def topLevelIndex_def fieldIndices_def
        rowIDIndex_def isRowIDField_def hasMeta_def upt_rec)
  ultimately have served: "case ServedTableColumns sample_ipc plain_unicode plain_runes [''main''] ''t'' (Some ?sch) [[2, 0, 1]] of
      Inl e \<Rightarrow> False
    | Inr served \<Rightarrow> (\<exists>sch'. served = Some sch' \<and>
        (\<forall>path. \<forall>f \<in> set (fieldsAt (rewritten True (schemaFields sch')) path). isNullable f \<longleftrightarrow> path \<noteq> [''c'']))"
    using served_columns_follow_records [OF sample_ipc_laws, of plain_unicode plain_runes "[sample_spec]" "[[2, 0, 1]]" "''main''" "''t''" ?sch]
      sample_record
    by (simp add: hasMeta_def maxRecordSize_def split: sum.splits) metis
  then obtain sch' where "ServedTableColumns sample_ipc plain_unicode plain_runes [''main''] ''t'' (Some ?sch) [[2, 0, 1]] = Inr (Some sch')"
    and null: "\<And>path f. f \<in> set (fieldsAt (rewritten True (schemaFields sch')) path) \<Longrightarrow> isNullable f \<longleftrightarrow> path \<noteq> [''c'']"
    by (auto split: sum.splits simp del: fieldsAt.simps)
  with null [where path = "[''c'']"] null [where path = "[''d'']"] show ?thesis by (intro exI [of _ sch']) simp
qed

end
