(* ===== verification/Capabilities.thy ===== *)
theory Capabilities
  imports ConstraintRecords
begin

text \<open>
  Catalog capability negotiation at ATTACH (\<open>vgi/attach_profiles.go\<close>, with \<open>SelectReadProfiles\<close> and
  \<open>finishReadSelection\<close> of \<open>vgi/constraint_records.go\<close> and \<open>writableCapabilities\<close> of
  \<open>vgi/writable_constraints.go\<close>). A profile is a string; a nil slice is an empty list and a nil
  \<open>*[]byte\<close> is \<open>None\<close>. \<open>I\<close> is the Arrow IPC codec of the capability records.
\<close>

section \<open>Profiles and records\<close>

definition ConstraintCreateProfile :: string where "ConstraintCreateProfile = ''vgi.constraint.create.v1''"
definition ConstraintEnforceProfile :: string where "ConstraintEnforceProfile = ''vgi.constraint.enforce.v1''"

record capabilities =
  capRead :: "string list"
  capDdl :: "string list"
  capWrite :: "string list"
  capTransaction :: "string list"

definition noCapabilities :: capabilities where
  "noCapabilities = \<lparr>capRead = [], capDdl = [], capWrite = [], capTransaction = []\<rparr>"

definition readCapabilities :: "string list \<Rightarrow> capabilities" where
  "readCapabilities profiles = noCapabilities\<lparr>capRead := profiles\<rparr>"

definition writableCapabilities :: capabilities where
  "writableCapabilities =
     \<lparr>capRead = [ConstraintRecordsReadProfile], capDdl = [ConstraintCreateProfile],
      capWrite = [ConstraintEnforceProfile], capTransaction = []\<rparr>"

text \<open>\<open>slices.Sort\<close> orders strings by bytes; \<open>slices.Compact\<close> keeps one of equal neighbours.\<close>

definition sortedUnique :: "string list \<Rightarrow> string list" where
  "sortedUnique values = remdups_adj (sort values)"

definition EncodeCatalogCapabilities :: "ipc \<Rightarrow> capabilities \<Rightarrow> row_err + bytes" where
  "EncodeCatalogCapabilities I c =
     encodeCanonicalRow I CatalogCapabilitiesSchema
       [(''read'', GoStrings (sortedUnique (capRead c))), (''ddl'', GoStrings (sortedUnique (capDdl c))),
        (''write'', GoStrings (sortedUnique (capWrite c))), (''transaction'', GoStrings (sortedUnique (capTransaction c)))]"

definition decodeCapabilities :: "ipc \<Rightarrow> bytes option \<Rightarrow> row_err + capabilities" where
  "decodeCapabilities I data =
     (case data of
        None \<Rightarrow> Inr noCapabilities
      | Some b \<Rightarrow>
          if length b = 0 then Inr noCapabilities
          else rbind (readCanonicalRow I b CatalogCapabilitiesSchema) (\<lambda>row.
            Inr \<lparr>capRead = rowStrings row ''read'', capDdl = rowStrings row ''ddl'', capWrite = rowStrings row ''write'',
                 capTransaction = rowStrings row ''transaction''\<rparr>))"

definition DecodeCatalogCapabilities :: "ipc \<Rightarrow> bytes \<Rightarrow> row_err + capabilities" where
  "DecodeCatalogCapabilities I data = decodeCapabilities I (Some data)"

section \<open>Selection\<close>

text \<open>The catalog offer in a ClientCapabilities record; \<open>None\<close> when the client sent none.\<close>

definition clientCatalogOffer :: "ipc \<Rightarrow> bytes \<Rightarrow> row_err + capabilities option" where
  "clientCatalogOffer I clientCapabilities =
     rbind (rmap_err (InRecord ''ClientCapabilities'') (readCanonicalRow I clientCapabilities ClientCapabilitiesSchema)) (\<lambda>client.
       if rowColumn client ''catalog'' = Null then Inr None
       else rbind (rmap_err (InRecord ''CatalogCapabilities'') (decodeCapabilities I (Some (rowBinary client ''catalog''))))
         (\<lambda>offer. Inr (Some offer)))"

definition pick :: "string list \<Rightarrow> string list \<Rightarrow> string list" where
  "pick available offered = sortedUnique (filter (\<lambda>profile. profile \<in> set offered) available)"

definition finishReadSelection :: "string list \<Rightarrow> string list" where
  "finishReadSelection selected =
     sortedUnique (if ConstraintRecordsReadProfile \<in> set selected then selected
                   else filter (\<lambda>p. p \<noteq> ScalarExpressionReadProfile) selected)"

definition needsRecords :: "string \<Rightarrow> bool" where
  "needsRecords p \<longleftrightarrow> p = ConstraintCreateProfile \<or> p = ConstraintEnforceProfile \<or> p = ''vgi.constraint.mutate.v1''"

definition selectOffered :: "capabilities \<Rightarrow> capabilities \<Rightarrow> capabilities" where
  "selectOffered available offer =
     (let read = finishReadSelection (pick (capRead available) (capRead offer));
          ddl = pick (capDdl available) (capDdl offer);
          wr = pick (capWrite available) (capWrite offer);
          attested = (ConstraintRecordsReadProfile \<in> set read)
      in \<lparr>capRead = read,
          capDdl = (if attested then ddl else filter (\<lambda>p. \<not> needsRecords p) ddl),
          capWrite = (if attested then wr else filter (\<lambda>p. \<not> needsRecords p) wr),
          capTransaction = pick (capTransaction available) (capTransaction offer)\<rparr>)"

definition SelectCatalogCapabilities :: "ipc \<Rightarrow> capabilities \<Rightarrow> bytes \<Rightarrow> row_err + capabilities" where
  "SelectCatalogCapabilities I available clientCapabilities =
     (if length clientCapabilities = 0 then Inr noCapabilities
      else rbind (clientCatalogOffer I clientCapabilities) (\<lambda>offer.
        Inr (case offer of None \<Rightarrow> noCapabilities | Some o' \<Rightarrow> selectOffered available o')))"

definition SelectReadProfiles :: "ipc \<Rightarrow> string list \<Rightarrow> bytes \<Rightarrow> row_err + string list" where
  "SelectReadProfiles I available clientCapabilities =
     rbind (SelectCatalogCapabilities I (readCapabilities available) clientCapabilities) (\<lambda>selected. Inr (capRead selected))"

definition ReadProfilesDecision :: "ipc \<Rightarrow> bytes \<Rightarrow> string list \<Rightarrow> row_err + (bytes \<times> bytes)" where
  "ReadProfilesDecision I clientCapabilities profiles =
     rbind (SelectCatalogCapabilities I (readCapabilities profiles) clientCapabilities) (\<lambda>chosen.
     rbind (EncodeCatalogCapabilities I (readCapabilities profiles)) (\<lambda>available.
     rbind (EncodeCatalogCapabilities I chosen) (\<lambda>selected. Inr (available, selected))))"

section \<open>Merging with an attach validator's decision\<close>

text \<open>What the worker's read profiles depend on: \<open>tableConstraints\<close> has, per schema, the records of each of its tables.\<close>

record declared_catalog =
  constraintReadProfile :: bool
  aliasInfos :: "string list"
  tableConstraints :: "(string \<times> bytes list list) list"

definition constraintReadProfiles :: "string list" where
  "constraintReadProfiles = [ConstraintRecordsReadProfile, ScalarExpressionReadProfile]"

definition declarativeReadProfiles :: "declared_catalog \<Rightarrow> string \<Rightarrow> string list" where
  "declarativeReadProfiles w name =
     (if constraintReadProfile w then constraintReadProfiles
      else if list_ex (\<lambda>(schema, tabs). \<not> (name \<in> set (aliasInfos w) \<and> schema \<noteq> ''main'') \<and> list_ex (\<lambda>t. length t > 0) tabs)
                (tableConstraints w)
      then constraintReadProfiles
      else [])"

definition union :: "string list \<Rightarrow> string list \<Rightarrow> string list" where
  "union a b = sortedUnique (a @ b)"

definition mergeCapabilities ::
  "ipc \<Rightarrow> capabilities \<Rightarrow> bytes option \<Rightarrow> bytes option \<Rightarrow> bytes option \<Rightarrow> row_err + (bytes option \<times> bytes option)" where
  "mergeCapabilities I sdk available selected clientCapabilities =
     (if length (capRead sdk) + length (capDdl sdk) + length (capWrite sdk) + length (capTransaction sdk) = 0
      then Inr (available, selected)
      else rbind (rmap_err (InRecord ''attach validator catalog_capabilities'') (decodeCapabilities I available)) (\<lambda>advertised.
        rbind (rmap_err (InRecord ''attach validator selected_capabilities'') (decodeCapabilities I selected)) (\<lambda>chosen.
        rbind (SelectCatalogCapabilities I sdk (case clientCapabilities of None \<Rightarrow> [] | Some c \<Rightarrow> c)) (\<lambda>picked.
        rbind (EncodeCatalogCapabilities I
            \<lparr>capRead = union (capRead advertised) (capRead sdk), capDdl = union (capDdl advertised) (capDdl sdk),
             capWrite = union (capWrite advertised) (capWrite sdk),
             capTransaction = union (capTransaction advertised) (capTransaction sdk)\<rparr>) (\<lambda>a.
        rbind (EncodeCatalogCapabilities I
            \<lparr>capRead = finishReadSelection (union (capRead chosen) (capRead picked)), capDdl = union (capDdl chosen) (capDdl picked),
             capWrite = union (capWrite chosen) (capWrite picked),
             capTransaction = union (capTransaction chosen) (capTransaction picked)\<rparr>) (\<lambda>s.
          Inr (Some a, Some s)))))))"

definition mergeReadProfiles ::
  "ipc \<Rightarrow> string list \<Rightarrow> bytes option \<Rightarrow> bytes option \<Rightarrow> bytes option \<Rightarrow> row_err + (bytes option \<times> bytes option)" where
  "mergeReadProfiles I sdk available selected clientCapabilities =
     mergeCapabilities I (readCapabilities sdk) available selected clientCapabilities"

section \<open>Lemmas\<close>

text \<open>
  A selection the client can act on: scalar expressions and constraint DDL or writes come only with the
  records-read profile.
\<close>

definition consistent :: "capabilities \<Rightarrow> bool" where
  "consistent c \<longleftrightarrow>
     ConstraintRecordsReadProfile \<in> set (capRead c) \<or>
     (ScalarExpressionReadProfile \<notin> set (capRead c) \<and> (\<forall>p. p \<in> set (capDdl c) \<or> p \<in> set (capWrite c) \<longrightarrow> \<not> needsRecords p))"

lemma set_sortedUnique [simp]: "set (sortedUnique xs) = set xs"
  by (simp add: sortedUnique_def)

lemma strict_remdups_adj: "sorted xs \<Longrightarrow> sorted_wrt (<) (remdups_adj xs)"
  by (induction xs rule: remdups_adj.induct) (auto simp: less_le)

lemma strict_sortedUnique [simp]: "sorted_wrt (<) (sortedUnique xs)"
  by (simp add: sortedUnique_def strict_remdups_adj)

lemma set_pick [simp]: "set (pick a b) = set a \<inter> set b"
  by (auto simp: pick_def)

lemma set_union [simp]: "set (union a b) = set a \<union> set b"
  by (simp add: union_def)

lemma records_finish [simp]:
  "ConstraintRecordsReadProfile \<in> set (finishReadSelection xs) \<longleftrightarrow> ConstraintRecordsReadProfile \<in> set xs"
  by (auto simp: finishReadSelection_def ConstraintRecordsReadProfile_def ScalarExpressionReadProfile_def)

lemma set_finish:
  "set (finishReadSelection xs) =
     (if ConstraintRecordsReadProfile \<in> set xs then set xs else set xs - {ScalarExpressionReadProfile})"
  by (auto simp: finishReadSelection_def)

lemma consistent_none [simp]: "consistent noCapabilities"
  by (simp add: consistent_def noCapabilities_def)

lemma consistent_selectOffered: "consistent (selectOffered a b)"
  by (auto simp: consistent_def selectOffered_def Let_def set_finish)

lemma consistent_select: "SelectCatalogCapabilities I a c = Inr s \<Longrightarrow> consistent s"
  by (auto simp: SelectCatalogCapabilities_def res_simps consistent_selectOffered split: if_splits option.splits)

lemma decode_encode_capabilities:
  assumes "ipc_laws I" "EncodeCatalogCapabilities I c = Inr b" "length b \<le> maxRecordSize"
  shows "decodeCapabilities I (Some b) =
    Inr \<lparr>capRead = sortedUnique (capRead c), capDdl = sortedUnique (capDdl c), capWrite = sortedUnique (capWrite c),
         capTransaction = sortedUnique (capTransaction c)\<rparr>"
proof -
  have "b \<noteq> []"
    using assms(1,2) by (auto simp: EncodeCatalogCapabilities_def encodeCanonicalRow_def res_simps dest: ipc_write_ok(1) [OF assms(1)])
  then show ?thesis
    using encode_read [OF assms(1) assms(2) [unfolded EncodeCatalogCapabilities_def] assms(3)]
    by (auto simp: decodeCapabilities_def schema_defs list_all2_Cons1 goField_def rowColumn_def rowStrings_def)
qed

text \<open>Category by category, the profiles of one record are among those of the other.\<close>

definition within :: "capabilities \<Rightarrow> capabilities \<Rightarrow> bool" where
  "within c d \<longleftrightarrow>
     set (capRead c) \<subseteq> set (capRead d) \<and> set (capDdl c) \<subseteq> set (capDdl d) \<and> set (capWrite c) \<subseteq> set (capWrite d) \<and>
     set (capTransaction c) \<subseteq> set (capTransaction d)"

lemma within_select: "SelectCatalogCapabilities I a c = Inr s \<Longrightarrow> within s a"
  by (auto simp: SelectCatalogCapabilities_def res_simps within_def noCapabilities_def selectOffered_def Let_def set_finish
      split: if_splits option.splits)

lemma scalar_kept:
  "consistent c \<Longrightarrow> consistent d \<Longrightarrow>
    set (finishReadSelection (union (capRead c) (capRead d))) = set (capRead c) \<union> set (capRead d)"
  by (auto simp: consistent_def set_finish)

section \<open>An example codec\<close>

definition writable_row :: "cschema \<times> cell list" where
  "writable_row = (CatalogCapabilitiesSchema,
     [Items [Str ConstraintRecordsReadProfile], Items [Str ConstraintCreateProfile], Items [Str ConstraintEnforceProfile], Items []])"

definition client_row :: "cschema \<times> cell list" where
  "client_row = (ClientCapabilitiesSchema,
     [Str ''duckdb'', Items [], Items [], Bool True, Items [], Bin [0], Null])"

definition caps_ipc :: ipc where
  "caps_ipc = table_ipc [writable_row, client_row]"

lemma caps_ipc_laws: "ipc_laws caps_ipc"
  by (simp add: caps_ipc_def table_ipc_laws)

lemma caps_offer: "clientCatalogOffer caps_ipc [1, 0] = Inr (Some writableCapabilities)"
  by (simp add: clientCatalogOffer_def caps_ipc_def table_ipc_defs readCanonicalRow_def maxRecordSize_def client_row_def
      writable_row_def schema_defs rowColumn_def rowBinary_def rowStrings_def decodeCapabilities_def writableCapabilities_def)

lemma caps_encode: "EncodeCatalogCapabilities caps_ipc writableCapabilities = Inr [0]"
  by (simp add: EncodeCatalogCapabilities_def encodeCanonicalRow_def caps_ipc_def table_ipc_defs writable_row_def
      client_row_def schema_defs goField_def writableCapabilities_def sortedUnique_def)

section \<open>Properties\<close>

text \<open>
  C30. A client that sent a catalog offer gets exactly the profiles it offered and the catalog has, each category
  sorted and without duplicates, except that the scalar-expression read and the constraint DDL and write profiles are
  selected only when the records-read profile is.
\<close>
theorem capability_selection:
  assumes "client \<noteq> []" "clientCatalogOffer I client = Inr (Some offer)"
    and "attested = (ConstraintRecordsReadProfile \<in> set (capRead available) \<inter> set (capRead offer))"
  shows "\<exists>sel. SelectCatalogCapabilities I available client = Inr sel \<and>
    (\<forall>p. p \<in> set (capRead sel) \<longleftrightarrow>
      p \<in> set (capRead available) \<inter> set (capRead offer) \<and> (attested \<or> p \<noteq> ScalarExpressionReadProfile)) \<and>
    (\<forall>p. p \<in> set (capDdl sel) \<longleftrightarrow> p \<in> set (capDdl available) \<inter> set (capDdl offer) \<and> (attested \<or> \<not> needsRecords p)) \<and>
    (\<forall>p. p \<in> set (capWrite sel) \<longleftrightarrow> p \<in> set (capWrite available) \<inter> set (capWrite offer) \<and> (attested \<or> \<not> needsRecords p)) \<and>
    set (capTransaction sel) = set (capTransaction available) \<inter> set (capTransaction offer) \<and>
    (\<forall>category \<in> {capRead, capDdl, capWrite, capTransaction}. sorted_wrt (<) (category sel))"
proof -
  have sorted: "sorted_wrt (<) (filter P (pick a b))" "sorted_wrt (<) (pick a b)" for P a b
    by (simp_all add: pick_def sorted_wrt_filter)
  have "SelectCatalogCapabilities I available client = Inr (selectOffered available offer)"
    using assms(1,2) by (simp add: SelectCatalogCapabilities_def)
  moreover have "sorted_wrt (<) (capRead (selectOffered available offer))"
    by (simp add: selectOffered_def finishReadSelection_def Let_def)
  ultimately show ?thesis
    using assms(3) sorted by (auto simp: selectOffered_def Let_def set_finish)
qed

theorem capability_selection_witness:
  "\<exists>sel. SelectCatalogCapabilities caps_ipc writableCapabilities [1, 0] = Inr sel \<and>
    ConstraintEnforceProfile \<in> set (capWrite sel)"
  using capability_selection [OF _ caps_offer refl, of writableCapabilities]
  by (auto simp: writableCapabilities_def)

text \<open>
  C31. Merging the worker's own profiles into an attach validator's decision keeps everything the validator advertised
  and selected, adds every profile of the worker to the advertised record, and gives a selection that is part of what is
  advertised and that has constraint profiles only with the records-read profile, if the validator's own decision was so.
\<close>
theorem capability_merge:
  assumes "ipc_laws I" "mergeCapabilities I sdk available selected client = Inr (Some a, Some s)"
    and "length (capRead sdk) + length (capDdl sdk) + length (capWrite sdk) + length (capTransaction sdk) \<noteq> 0"
    and "decodeCapabilities I available = Inr advertised" "decodeCapabilities I selected = Inr chosen"
    and "consistent chosen" "within chosen advertised"
    and "length a \<le> maxRecordSize" "length s \<le> maxRecordSize"
  shows "\<exists>advertised' chosen'. decodeCapabilities I (Some a) = Inr advertised' \<and> decodeCapabilities I (Some s) = Inr chosen' \<and>
    within advertised advertised' \<and> within sdk advertised' \<and> within chosen chosen' \<and>
    within chosen' advertised' \<and> consistent chosen'"
proof -
  from assms(2-5) obtain picked where
    picked: "SelectCatalogCapabilities I sdk (case client of None \<Rightarrow> [] | Some c \<Rightarrow> c) = Inr picked"
    and a: "EncodeCatalogCapabilities I
            \<lparr>capRead = union (capRead advertised) (capRead sdk), capDdl = union (capDdl advertised) (capDdl sdk),
             capWrite = union (capWrite advertised) (capWrite sdk),
             capTransaction = union (capTransaction advertised) (capTransaction sdk)\<rparr> = Inr a"
    and s: "EncodeCatalogCapabilities I
            \<lparr>capRead = finishReadSelection (union (capRead chosen) (capRead picked)), capDdl = union (capDdl chosen) (capDdl picked),
             capWrite = union (capWrite chosen) (capWrite picked),
             capTransaction = union (capTransaction chosen) (capTransaction picked)\<rparr> = Inr s"
    by (auto simp: mergeCapabilities_def res_simps split: if_splits)
  note c = consistent_select [OF picked] and w = within_select [OF picked]
  show ?thesis
    using decode_encode_capabilities [OF assms(1) a assms(8)] decode_encode_capabilities [OF assms(1) s assms(9)]
      assms(6,7) c w scalar_kept [OF assms(6) c]
    by (auto simp: within_def consistent_def)
qed

theorem capability_merge_witness:
  "mergeCapabilities caps_ipc writableCapabilities None None (Some [1, 0]) = Inr (Some [0], Some [0]) \<and>
   (\<exists>chosen. decodeCapabilities caps_ipc (Some [0]) = Inr chosen \<and> consistent chosen)"
proof -
  have select: "SelectCatalogCapabilities caps_ipc writableCapabilities [1, 0] = Inr writableCapabilities"
    by (simp add: SelectCatalogCapabilities_def caps_offer selectOffered_def writableCapabilities_def finishReadSelection_def
        pick_def sortedUnique_def)
  have merge: "mergeCapabilities caps_ipc writableCapabilities None None (Some [1, 0]) = Inr (Some [0], Some [0])"
    using select caps_encode
    by (simp add: mergeCapabilities_def decodeCapabilities_def noCapabilities_def writableCapabilities_def union_def
        sortedUnique_def finishReadSelection_def)
  show ?thesis
    using merge capability_merge [OF caps_ipc_laws merge, of noCapabilities noCapabilities]
    by (auto simp: writableCapabilities_def decodeCapabilities_def within_def noCapabilities_def consistent_def maxRecordSize_def)
qed

end
