(* ===== verification/ColumnMetadata.thy ===== *)
theory ColumnMetadata
  imports ConstraintRecords
begin

text \<open>
  Reserved column metadata: \<open>vgi/column_metadata.go\<close> (comments and tags), \<open>vgi/column_expressions.go\<close> (generated
  columns), the helpers \<open>applyDefaults\<close>, \<open>applyColumnComments\<close> and \<open>applyGenerated\<close> of \<open>vgi/catalog_table.go\<close>, and the
  checks \<open>buildTableInfoRecord\<close> of \<open>vgi/catalog_table_info.go\<close> makes before it builds a table's record.

  Arrow field metadata is a list of pairs in order, as \<open>arrow.Metadata\<close> is: \<open>FindKey\<close> gives the first pair of a
  key, \<open>ToMap\<close> keeps the last. The refusals of the JSON decoder are one error.
\<close>

section \<open>Standard base64\<close>

definition std_char :: "char \<Rightarrow> char" where
  "std_char c = (if c = CHR ''-'' then CHR ''+'' else if c = CHR ''_'' then CHR ''/'' else c)"

definition url_char :: "char \<Rightarrow> char option" where
  "url_char c =
     (if c = CHR ''+'' then Some (CHR ''-'') else if c = CHR ''/'' then Some (CHR ''_'')
      else if c = CHR ''-'' \<or> c = CHR ''_'' then None else Some c)"

definition std_padding :: "nat \<Rightarrow> string" where
  "std_padding n = replicate ((3 - n mod 3) mod 3) (CHR ''='')"

definition EncodeToString :: "bytes \<Rightarrow> string" where
  "EncodeToString bs = map std_char (b64_encode bs) @ std_padding (length bs)"

text \<open>\<open>DecodeString\<close>: line breaks are skipped, and the padding completes the last group of four.\<close>

definition DecodeString :: "string \<Rightarrow> bytes option" where
  "DecodeString s =
     (let text' = filter (\<lambda>c. c \<noteq> CHR 0x0A \<and> c \<noteq> CHR 0x0D) s;
          body = takeWhile (\<lambda>c. c \<noteq> CHR ''='') text';
          padding = dropWhile (\<lambda>c. c \<noteq> CHR ''='') text';
          pad = length padding
      in if length text' mod 4 \<noteq> 0 \<or> 2 < pad \<or> \<not> list_all (\<lambda>c. c = CHR ''='') padding then None
         else if list_ex (\<lambda>c. url_char c = None) body then None
         else b64_decode (map (the \<circ> url_char) body))"

section \<open>Comments and tags\<close>

datatype col_err =
    ColErr string
  | ColErrAt string string
  | ColErrRow row_err
  | ColErrSql string sql_err
  | ColNotImplemented string
  | TagSurrogate
  | TagEscape
  | TagSyntax
  | InColumn string col_err
  | InTable string col_err
  | ColErrCon con_err

definition hex_val :: "char \<Rightarrow> nat option" where
  "hex_val c =
     (if is_digit c then Some (of_char c - 48)
      else if CHR ''a'' \<le> c \<and> c \<le> CHR ''f'' then Some (of_char c - 87)
      else if CHR ''A'' \<le> c \<and> c \<le> CHR ''F'' then Some (of_char c - 55)
      else None)"

text \<open>The number the first four characters write in hexadecimal.\<close>

definition hex4 :: "string \<Rightarrow> nat option" where
  "hex4 s =
     (case s of
        a # b # c # d # _ \<Rightarrow>
          (case (hex_val a, hex_val b, hex_val c, hex_val d) of
             (Some w, Some x, Some y, Some z) \<Rightarrow> Some (4096 * w + 256 * x + 16 * y + z)
           | _ \<Rightarrow> None)
      | _ \<Rightarrow> None)"

definition high_surrogate :: "nat \<Rightarrow> bool" where "high_surrogate n \<longleftrightarrow> 0xD800 \<le> n \<and> n \<le> 0xDBFF"
definition low_surrogate :: "nat \<Rightarrow> bool" where "low_surrogate n \<longleftrightarrow> 0xDC00 \<le> n \<and> n \<le> 0xDFFF"

definition backslash :: char where "backslash = CHR 0x5C"

text \<open>The first pass of \<open>validateColumnTags\<close>: escaped surrogates come in pairs.\<close>

function scanSurrogates :: "bool \<Rightarrow> string \<Rightarrow> col_err + unit" where
  "scanSurrogates inString [] = Inr ()"
| "scanSurrogates inString (c # r) =
     (if c = dquote then scanSurrogates (\<not> inString) r
      else if \<not> inString \<or> c \<noteq> backslash then scanSurrogates inString r
      else case r of
        [] \<Rightarrow> Inr ()
      | d # r' \<Rightarrow>
          if d \<noteq> CHR ''u'' then scanSurrogates inString r'
          else if length r' < 4 then Inl TagEscape
          else case hex4 r' of
            None \<Rightarrow> Inl TagEscape
          | Some n \<Rightarrow>
              let rest = drop 4 r' in
              if high_surrogate n then
                (if length rest < 6 \<or> take 2 rest \<noteq> [backslash, CHR ''u''] then Inl TagSurrogate
                 else case hex4 (drop 2 rest) of
                   None \<Rightarrow> Inl TagSurrogate
                 | Some low \<Rightarrow> if low_surrogate low then scanSurrogates inString (drop 6 rest) else Inl TagSurrogate)
              else if low_surrogate n then Inl TagSurrogate
              else scanSurrogates inString rest)"
  by pat_completeness auto
termination
  by (relation "measure (\<lambda>(b, s). length s)") auto

definition utf8_encode :: "nat \<Rightarrow> string" where
  "utf8_encode n =
     map char_of
       (if n < 0x80 then [n]
        else if n < 0x800 then [0xC0 + n div 64, 0x80 + n mod 64]
        else if n < 0x10000 then [0xE0 + n div 4096, 0x80 + n div 64 mod 64, 0x80 + n mod 64]
        else [0xF0 + n div 262144, 0x80 + n div 4096 mod 64, 0x80 + n div 64 mod 64, 0x80 + n mod 64])"

definition simpleEscape :: "char \<Rightarrow> char option" where
  "simpleEscape d =
     map_of [(dquote, dquote), (backslash, backslash), (CHR ''/'', CHR ''/''), (CHR ''b'', CHR 0x08), (CHR ''f'', CHR 0x0C),
             (CHR ''n'', CHR 0x0A), (CHR ''r'', CHR 0x0D), (CHR ''t'', CHR 0x09)] d"

text \<open>The body of a JSON string after its opening quote: the decoded text and what follows the closing quote.\<close>

function jsonString :: "string \<Rightarrow> string \<Rightarrow> (string \<times> string) option" where
  "jsonString acc [] = None"
| "jsonString acc (c # r) =
     (if c = dquote then Some (acc, r)
      else if code c < 32 then None
      else if c \<noteq> backslash then jsonString (acc @ [c]) r
      else case r of
        [] \<Rightarrow> None
      | d # r' \<Rightarrow>
          if d = CHR ''u'' then
            (case hex4 r' of
               None \<Rightarrow> None
             | Some n \<Rightarrow>
                 let rest = drop 4 r' in
                 if high_surrogate n \<or> low_surrogate n then
                   (case (if take 2 rest = [backslash, CHR ''u''] then hex4 (drop 2 rest) else None) of
                      Some low \<Rightarrow>
                        if high_surrogate n \<and> low_surrogate low
                        then jsonString (acc @ utf8_encode (0x10000 + (n - 0xD800) * 1024 + (low - 0xDC00))) (drop 6 rest)
                        else jsonString (acc @ utf8_encode 0xFFFD) rest
                    | None \<Rightarrow> jsonString (acc @ utf8_encode 0xFFFD) rest)
                 else jsonString (acc @ utf8_encode n) rest)
          else case simpleEscape d of None \<Rightarrow> None | Some e \<Rightarrow> jsonString (acc @ [e]) r')"
  by pat_completeness auto
termination
  by (relation "measure (\<lambda>(acc, s). length s)") auto

definition skipJSON :: "string \<Rightarrow> string" where
  "skipJSON s = dropWhile (\<lambda>c. c \<in> {CHR '' '', CHR 0x09, CHR 0x0A, CHR 0x0D}) s"

text \<open>A string, after white space: its decoded text and the rest.\<close>

definition jsonText :: "string \<Rightarrow> (string \<times> string) option" where
  "jsonText s = (case skipJSON s of [] \<Rightarrow> None | q # r \<Rightarrow> if q = dquote then jsonString [] r else None)"

lemma jsonString_step:
  assumes "jsonString acc (c # s) = Some (t, r)"
  shows "r = s \<or> (\<exists>acc' s'. length s' \<le> length s \<and> jsonString acc' s' = Some (t, r))"
  using assms
  by (simp add: Let_def split: if_splits list.splits option.splits)
    ((rule disjI2)?, (rule exI)+, rule conjI [rotated], assumption, simp)+

lemma jsonString_length: "jsonString acc s = Some (t, r) \<Longrightarrow> length r < length s"
proof (induction s arbitrary: acc rule: length_induct)
  case (1 s)
  then obtain c s' where s: "s = c # s'" by (cases s) auto
  have "length r < length s" if "length u \<le> length s'" "jsonString acc' u = Some (t, r)" for acc' u
  proof -
    have "length u < length s" using that s by simp
    moreover from this have "length r < length u" using 1(1) that(2) by blast
    ultimately show ?thesis by simp
  qed
  then show ?case
    using jsonString_step [of acc c s' t r] 1(2) s by fastforce
qed

lemma skipJSON_length: "length (skipJSON s) \<le> length s"
  by (simp add: skipJSON_def length_dropWhile_le)

lemma jsonText_length: "jsonText s = Some (t, r) \<Longrightarrow> length r < length s"
  using skipJSON_length [of s]
  by (auto simp: jsonText_def split: list.splits if_splits dest!: jsonString_length)

text \<open>
  The members of the object after its opening brace, up to the closing brace and the end of the text: strings with
  distinct string keys.
\<close>

function tagMembers :: "string list \<Rightarrow> bool \<Rightarrow> string \<Rightarrow> bool" where
  "tagMembers seen first s =
     (case skipJSON s of
        [] \<Rightarrow> False
      | c # r \<Rightarrow>
          if c = CHR ''}'' then skipJSON r = []
          else if \<not> first \<and> c \<noteq> CHR '','' then False
          else case jsonText (if first then c # r else r) of
            None \<Rightarrow> False
          | Some (key, t) \<Rightarrow>
              if key \<in> set seen then False
              else case skipJSON t of
                [] \<Rightarrow> False
              | colon # t' \<Rightarrow>
                  if colon \<noteq> CHR '':'' then False
                  else case jsonText t' of None \<Rightarrow> False | Some (v, t'') \<Rightarrow> tagMembers (key # seen) False t'')"
  by pat_completeness auto
termination
proof (relation "measure (\<lambda>(seen, first, s). length s)")
  fix seen :: "string list" and first s c r p key t colon t' q v t''
  assume *: "skipJSON s = c # r" "jsonText (if first then c # r else r) = Some p" "(key, t) = p"
    "skipJSON t = colon # t'" "jsonText t' = Some q" "(v, t'') = q"
  have "length t < length (c # r)"
    using *(2,3) jsonText_length [of "c # r" key t] jsonText_length [of r key t] by (auto split: if_splits)
  moreover have "length t'' < length t'" using *(5,6) jsonText_length [of t' v t''] by simp
  ultimately show "((key # seen, False, t''), seen, first, s) \<in> measure (\<lambda>(seen, first, s). length s)"
    using skipJSON_length [of s] skipJSON_length [of t] *(1,4) by simp
qed simp

declare tagMembers.simps [simp del]

definition validateColumnTags :: "string \<Rightarrow> col_err + unit" where
  "validateColumnTags v =
     rbind (scanSurrogates False v) (\<lambda>_.
       case skipJSON v of
         [] \<Rightarrow> Inl TagSyntax
       | c # r \<Rightarrow> if c = CHR ''{'' \<and> tagMembers [] True r then Inr () else Inl TagSyntax)"

text \<open>Every field below a field or type, in the order the visitors reach them.\<close>

fun fieldTree :: "arrow_field \<Rightarrow> arrow_field list" and typeTree :: "arrow_type \<Rightarrow> arrow_field list" where
  "fieldTree (Field name t nullable meta) = Field name t nullable meta # typeTree t"
| "typeTree (STRUCT fs) = concat (map fieldTree fs)"
| "typeTree (NESTED kind fs) = concat (map fieldTree fs)"
| "typeTree (EXTENSION name storage) = typeTree storage"
| "typeTree (DICTIONARY t) = typeTree t"
| "typeTree t = []"

definition checkEach :: "('a \<Rightarrow> 'e + unit) \<Rightarrow> 'a list \<Rightarrow> 'e + unit" where
  "checkEach f xs = rbind (mapResult f xs) (\<lambda>_. Inr ())"

fun validateFieldKeys :: "string \<Rightarrow> string list \<Rightarrow> (string \<times> string) list \<Rightarrow> col_err + unit" where
  "validateFieldKeys name seen [] = Inr ()"
| "validateFieldKeys name seen ((key, v) # meta) =
     (if key \<in> set seen then Inl (ColErrAt ''duplicate column metadata key'' key)
      else rbind
        (if key \<noteq> ''comment'' \<and> key \<noteq> ''tags'' then Inr ()
         else if \<not> utf8_valid (str v) then Inl (ColErrAt ''metadata must be UTF-8'' name)
         else if key = ''tags'' then rmap_err (InColumn name) (validateColumnTags v)
         else Inr ())
        (\<lambda>_. validateFieldKeys name (key # seen) meta))"

definition ValidateColumnMetadata :: "arrow_schema option \<Rightarrow> col_err + unit" where
  "ValidateColumnMetadata sch =
     (case sch of
        None \<Rightarrow> Inr ()
      | Some s \<Rightarrow> checkEach (\<lambda>f. validateFieldKeys (fieldName f) [] (fieldMeta f)) (concat (map fieldTree (schemaFields s))))"

section \<open>Generated columns\<close>

definition GenerationKey :: string where "GenerationKey = ''vgi.column.generation.v1''"
definition legacyGeneratedKey :: string where "legacyGeneratedKey = ''generated_expression''"
definition scalarExpressionProfile :: string where "scalarExpressionProfile = ''vgi.expression.duckdb.scalar.v1''"

definition sqlText :: "string \<Rightarrow> nat \<Rightarrow> bool" where
  "sqlText v maximum \<longleftrightarrow> v \<noteq> [] \<and> CHR 0x00 \<notin> set v \<and> utf8_valid (str v) \<and> length v \<le> maximum"

text \<open>The record of a generated expression, its four columns in order.\<close>

definition checkExpressionRow :: "unicode \<Rightarrow> string list \<Rightarrow> cell list \<Rightarrow> col_err + unit" where
  "checkExpressionRow U owner cells =
     (case cells of
        [sql, profile, path, context] \<Rightarrow>
          if \<not> sqlText (cellString sql) (1024 * 1024) \<or> TrimSpace U (cellString sql) = [] \<or>
             cellString profile \<noteq> scalarExpressionProfile
          then Inl (ColErr ''invalid or unsupported generated expression'')
          else if 32 < length (cellItems path) then Inl (ColErr ''invalid expression owner'')
          else if list_ex (\<lambda>part. part = Null \<or> \<not> sqlText (cellString part) 4096) (cellItems path)
          then Inl (ColErr ''invalid expression owner'')
          else if map cellString (cellItems path) \<noteq> owner
          then Inl (ColErr ''generated expression owner differs from table schema'')
          else if (case context of Struct fs \<Rightarrow> list_ex (\<lambda>c. snd c = Null) fs | _ \<Rightarrow> False)
          then Inl (ColErr ''required expression context is null'')
          else if \<not> defaultEvaluationContext context then Inl (ColErr ''unsupported generated expression evaluation context'')
          else Inr ()
      | _ \<Rightarrow> Inl (ColErr ''invalid SqlExpression record schema''))"

definition maxEncoded :: nat where "maxEncoded = 4 * ((maxRecordSize + 2) div 3)"

definition validateGeneratedExpression :: "ipc \<Rightarrow> unicode \<Rightarrow> string \<Rightarrow> string list \<Rightarrow> col_err + unit" where
  "validateGeneratedExpression I U encoded owner =
     (if length encoded = 0 \<or> maxEncoded < length encoded then Inl (ColErr ''invalid generated expression size'')
      else case DecodeString encoded of
        None \<Rightarrow> Inl (ColErr ''generated expression requires canonical base64 IPC'')
      | Some payload \<Rightarrow>
          if EncodeToString payload \<noteq> encoded \<or> length payload = 0 \<or> maxRecordSize < length payload
          then Inl (ColErr ''generated expression requires canonical base64 IPC'')
          else rbind (rmap_err ColErrRow (ipc_read I payload)) (\<lambda>(got, batches, ending).
            case batches of
              [] \<Rightarrow> Inl (ColErr ''generated expression requires one row'')
            | b # rest \<Rightarrow>
                (case b of
                   [cells] \<Rightarrow>
                     if got \<noteq> SqlExpressionSchema then Inl (ColErr ''invalid SqlExpression record schema'')
                     else if list_ex (\<lambda>c. c = Null) cells then Inl (ColErr ''required SqlExpression field is null'')
                     else rbind (checkExpressionRow U owner cells) (\<lambda>_.
                       if rest \<noteq> [] \<or> ending \<noteq> CleanEnd then Inl (ColErr ''generated expression requires exactly one complete IPC batch'')
                       else Inr ())
                 | _ \<Rightarrow> Inl (ColErr ''invalid SqlExpression record schema''))))"

definition contextCells :: "(string \<times> cell) list" where
  "contextCells =
     [(''timezone'', Str ''UTC''), (''collation'', Str ''binary''), (''default_order'', Str ''asc''),
      (''default_null_order'', Str ''nulls_last''), (''preserve_insertion_order'', Bool True)]"

definition GeneratedExpressionMetadata :: "ipc \<Rightarrow> unicode \<Rightarrow> string \<Rightarrow> string list \<Rightarrow> col_err + string" where
  "GeneratedExpressionMetadata I U sql owner =
     rbind (rmap_err ColErrRow (ipc_write I SqlExpressionSchema
         [Str sql, Str scalarExpressionProfile, Items (map Str owner), Struct contextCells])) (\<lambda>payload.
       rbind (validateGeneratedExpression I U (EncodeToString payload) owner) (\<lambda>_. Inr (EncodeToString payload)))"

definition metaMap :: "arrow_field \<Rightarrow> string \<Rightarrow> string option" where
  "metaMap f key = map_of (rev (fieldMeta f)) key"

definition unknownVersion :: "string \<Rightarrow> bool" where
  "unknownVersion key \<longleftrightarrow>
     prefix ''vgi.column.generated.'' key \<and> key \<noteq> GeneratedExpressionKey \<or>
     prefix ''vgi.column.generation.'' key \<and> key \<noteq> GenerationKey"

definition visitExpression :: "ipc \<Rightarrow> unicode \<Rightarrow> string list \<Rightarrow> bool \<Rightarrow> arrow_field \<Rightarrow> col_err + unit" where
  "visitExpression I U owner allowGenerated f =
     (if list_ex (unknownVersion \<circ> fst) (fieldMeta f) then Inl (ColErr ''unknown generated column metadata version'')
      else if hasMeta f legacyGeneratedKey
      then Inl (ColErrAt ''legacy generated_expression metadata is not read under vgi.v3'' (fieldName f))
      else case (metaMap f GeneratedExpressionKey, metaMap f GenerationKey) of
        (None, None) \<Rightarrow> Inr ()
      | (Some encoded, Some category) \<Rightarrow>
          if category \<noteq> ''virtual'' then Inl (ColErr ''only VIRTUAL generated columns are supported'')
          else if hasMeta f ''default'' \<or> hasMeta f ''vgi.column.default.v1''
          then Inl (ColErr ''generated column cannot have a default'')
          else rbind (validateGeneratedExpression I U encoded owner) (\<lambda>_.
            if allowGenerated then Inr () else Inl (ColNotImplemented ''generated columns are unsupported by this writable catalog''))
      | _ \<Rightarrow> Inl (ColErr ''generated expression and category must occur together''))"

definition ValidateColumnExpressions ::
  "ipc \<Rightarrow> unicode \<Rightarrow> arrow_schema option \<Rightarrow> string list \<Rightarrow> bool \<Rightarrow> col_err + unit" where
  "ValidateColumnExpressions I U sch owner allowGenerated =
     (case sch of
        None \<Rightarrow> Inr ()
      | Some s \<Rightarrow> checkEach (visitExpression I U owner allowGenerated) (concat (map fieldTree (schemaFields s))))"

text \<open>\<open>MetadataFrom\<close>: the pairs of a map in key order.\<close>

definition MetadataFrom :: "(string \<times> string) list \<Rightarrow> (string \<times> string) list" where
  "MetadataFrom values = sort_key fst values"

definition ToMap :: "(string \<times> string) list \<Rightarrow> (string \<times> string) list" where
  "ToMap meta = foldl (\<lambda>m (k, v). AList.update k v m) [] meta"

definition setMeta :: "arrow_field \<Rightarrow> (string \<times> string) list \<Rightarrow> arrow_field" where
  "setMeta f meta = Field (fieldName f) (fieldType f) (isNullable f) meta"

definition translateField :: "ipc \<Rightarrow> unicode \<Rightarrow> string list \<Rightarrow> arrow_field \<Rightarrow> col_err + arrow_field" where
  "translateField I U owner f =
     (case map_of (fieldMeta f) legacyGeneratedKey of
        None \<Rightarrow> Inr f
      | Some sql \<Rightarrow>
          if hasMeta f GeneratedExpressionKey \<or> hasMeta f GenerationKey
          then Inl (ColErrAt ''carries both legacy generated_expression and canonical metadata'' (fieldName f))
          else if TrimSpace U sql = [] then Inl (ColErrAt ''legacy generated_expression is empty'' (fieldName f))
          else rbind (rmap_err (InColumn (fieldName f)) (GeneratedExpressionMetadata I U sql owner)) (\<lambda>encoded.
            Inr (setMeta f (MetadataFrom (AList.update GenerationKey ''virtual'' (AList.update GeneratedExpressionKey encoded
              (AList.delete legacyGeneratedKey (ToMap (fieldMeta f)))))))))"

definition translateLegacyGenerated ::
  "ipc \<Rightarrow> unicode \<Rightarrow> arrow_schema option \<Rightarrow> string list \<Rightarrow> col_err + arrow_schema option" where
  "translateLegacyGenerated I U sch owner =
     (case sch of
        None \<Rightarrow> Inr None
      | Some s \<Rightarrow> rbind (mapResult (translateField I U owner) (schemaFields s)) (\<lambda>fs. Inr (Some (s\<lparr>schemaFields := fs\<rparr>))))"

definition checkGeneratedField :: "ipc \<Rightarrow> unicode \<Rightarrow> rune_tables \<Rightarrow> arrow_schema \<Rightarrow> arrow_field \<Rightarrow> col_err + unit" where
  "checkGeneratedField I U R sch f =
     (case map_of (fieldMeta f) GeneratedExpressionKey of
        None \<Rightarrow> Inr ()
      | Some encoded \<Rightarrow>
          if \<not> generatedPrimitiveArrow f then Inl (ColErrAt ''generated columns are only BOOLEAN, TINYINT..BIGINT or VARCHAR'' (fieldName f))
          else case DecodeString encoded of
            None \<Rightarrow> Inl (InColumn (fieldName f) (ColErr ''illegal base64 data''))
          | Some payload \<Rightarrow>
              rbind (rmap_err (\<lambda>e. InColumn (fieldName f) (ColErrRow e)) (readCanonicalRow I payload SqlExpressionSchema)) (\<lambda>row.
                rmap_err (ColErrSql (fieldName f))
                  (validateGeneratedSQL U R (cellString (rowColumn row ''sql'')) (Some sch) (fieldName f))))"

definition validateGeneratedColumns ::
  "ipc \<Rightarrow> unicode \<Rightarrow> rune_tables \<Rightarrow> arrow_schema option \<Rightarrow> col_err + unit" where
  "validateGeneratedColumns I U R sch =
     (case sch of
        None \<Rightarrow> Inr ()
      | Some s \<Rightarrow>
          let fs = schemaFields s;
              generatedCount = length (filter (\<lambda>f. hasMeta f GeneratedExpressionKey) fs);
              physical = length (filter (\<lambda>f. \<not> hasMeta f GeneratedExpressionKey \<and> \<not> isRowIDField f) fs)
          in rbind (checkEach (checkGeneratedField I U R s) fs) (\<lambda>_.
               if generatedCount > 0 \<and> physical = 0
               then Inl (ColErr ''a table with generated columns needs at least one physical column'') else Inr ()))"

section \<open>Applying declared metadata\<close>

text \<open>The values a default may have; the text of a float is an argument of the table.\<close>

datatype default_value =
    Sql string
  | DefaultString string
  | DefaultBool bool
  | DefaultInt int
  | DefaultFloat string
  | DefaultNil

definition itoa :: "int \<Rightarrow> string" where
  "itoa n = (if n < 0 then CHR ''-'' # decimal (nat (- n)) else decimal (nat n))"

fun defaultToSQL :: "default_value \<Rightarrow> string" where
  "defaultToSQL (Sql s) = s"
| "defaultToSQL (DefaultString s) = squote # doubled squote s @ [squote]"
| "defaultToSQL (DefaultBool b) = (if b then ''true'' else ''false'')"
| "defaultToSQL (DefaultInt n) = itoa n"
| "defaultToSQL (DefaultFloat s) = s"
| "defaultToSQL DefaultNil = ''NULL''"

text \<open>The first field of a name changed; \<open>None\<close> when there is none.\<close>

fun changeField :: "string \<Rightarrow> (arrow_field \<Rightarrow> 'e + arrow_field) \<Rightarrow> arrow_field list \<Rightarrow> ('e + arrow_field list) option" where
  "changeField name g [] = None"
| "changeField name g (f # fs) =
     (if fieldName f = name then Some (rbind (g f) (\<lambda>f'. Inr (f' # fs)))
      else map_option (\<lambda>r. rbind r (\<lambda>fs'. Inr (f # fs'))) (changeField name g fs))"

text \<open>The entries of a map applied to the fields they name, in the order of iteration.\<close>

fun applyEach ::
  "string \<Rightarrow> ('v \<Rightarrow> arrow_field \<Rightarrow> col_err + arrow_field) \<Rightarrow> (string \<times> 'v) list \<Rightarrow> arrow_field list \<Rightarrow> col_err + arrow_field list" where
  "applyEach what g [] fs = Inr fs"
| "applyEach what g ((name, v) # entries) fs =
     (case changeField name (g v) fs of
        None \<Rightarrow> Inl (ColErrAt what name)
      | Some r \<Rightarrow> rbind r (applyEach what g entries))"

definition applyDefaults :: "arrow_schema \<Rightarrow> (string \<times> default_value) list \<Rightarrow> col_err + arrow_schema" where
  "applyDefaults sch defaults =
     rbind (applyEach ''default references non-existent column''
         (\<lambda>v f. Inr (setMeta f (fieldMeta f @ [(''default'', defaultToSQL v)]))) defaults (schemaFields sch))
       (\<lambda>fs. Inr (sch\<lparr>schemaFields := fs\<rparr>))"

fun putFirst :: "string \<Rightarrow> string \<Rightarrow> (string \<times> string) list \<Rightarrow> (string \<times> string) list" where
  "putFirst key v [] = [(key, v)]"
| "putFirst key v ((k, w) # meta) = (if k = key then (k, v) # meta else (k, w) # putFirst key v meta)"

definition applyColumnComments :: "arrow_schema \<Rightarrow> (string \<times> string) list \<Rightarrow> col_err + arrow_schema" where
  "applyColumnComments sch comments =
     rbind (applyEach ''column_comment references non-existent column''
         (\<lambda>v f. Inr (setMeta f (putFirst ''comment'' v (fieldMeta f)))) comments (schemaFields sch))
       (\<lambda>fs. Inr (sch\<lparr>schemaFields := fs\<rparr>))"

definition generateField :: "ipc \<Rightarrow> unicode \<Rightarrow> string list \<Rightarrow> string \<Rightarrow> arrow_field \<Rightarrow> col_err + arrow_field" where
  "generateField I U owner expr f =
     (if hasMeta f GeneratedExpressionKey then Inl (ColErr ''generated convenience conflicts with canonical metadata'')
      else if hasMeta f legacyGeneratedKey then Inl (ColErr ''legacy generated metadata requires explicit translation'')
      else rbind (GeneratedExpressionMetadata I U expr owner) (\<lambda>encoded.
        Inr (setMeta f (MetadataFrom (AList.update GenerationKey ''virtual'' (AList.update GeneratedExpressionKey encoded
          (ToMap (fieldMeta f))))))))"

definition applyGenerated ::
  "ipc \<Rightarrow> unicode \<Rightarrow> arrow_schema \<Rightarrow> (string \<times> string) list \<Rightarrow> string list \<Rightarrow> col_err + arrow_schema" where
  "applyGenerated I U sch generated owner =
     rbind (applyEach ''generated references non-existent column'' (generateField I U owner) generated (schemaFields sch))
       (\<lambda>fs. Inr (sch\<lparr>schemaFields := fs\<rparr>))"

section \<open>The checks of a table's record\<close>

record table_info =
  tiName :: string
  tiSchemaPath :: "string list"
  tiComment :: string
  tiTags :: "(string \<times> string) list"
  tiColumns :: "arrow_schema option"
  tiConstraints :: "bytes list"
  tiRevision :: "bytes option"
  tiLegacy :: nat
  tiWriteModes :: "(string \<times> string) list"
  tiStatisticsSupport :: bool
  tiScanFunction :: "bytes option"
  tiInsertFunction :: "bytes option"
  tiUpdateFunction :: "bytes option"
  tiDeleteFunction :: "bytes option"
  tiCardinalityEstimate :: "int64 option"
  tiCardinalityMax :: "int64 option"
  tiColumnStatistics :: "bytes option"
  tiBindResult :: "bytes option"
  tiRequiredFilters :: "string list list list"
  tiOptions :: "bytes option"
  tiLayout :: "bytes option"

text \<open>
  The columns a table is served with: \<open>buildTableInfoRecord\<close> up to the point where it starts to fill Arrow builders.
  \<open>tiLegacy\<close> counts the entries of the five legacy constraint fields.
\<close>

definition tableInfoColumns ::
  "ipc \<Rightarrow> unicode \<Rightarrow> rune_tables \<Rightarrow> table_info \<Rightarrow> col_err + arrow_schema option" where
  "tableInfoColumns I U R info =
     (if tiLegacy info > 0
      then Inl (ColNotImplemented ''the legacy constraint fields are not sent under vgi.v3'')
      else if (case tiRevision info of None \<Rightarrow> False | Some rev' \<Rightarrow> length rev' = 0 \<or> 65536 < length rev')
      then Inl (ColErrAt ''DefinitionRevision must be nil or a 1..65536-byte token'' (tiName info))
      else rbind (rmap_err (InTable (tiName info)) (translateLegacyGenerated I U (tiColumns info) (tiSchemaPath info))) (\<lambda>columns.
        rbind (rmap_err (InTable (tiName info)) (ValidateColumnExpressions I U columns (tiSchemaPath info) True)) (\<lambda>_.
        rbind (rmap_err (InTable (tiName info)) (validateGeneratedColumns I U R columns)) (\<lambda>_.
        rbind (ValidateColumnMetadata columns) (\<lambda>_.
          rmap_err ColErrCon (ServedTableColumns I U R (tiSchemaPath info) (tiName info) columns (tiConstraints info)))))))"

section \<open>Lemmas\<close>

lemma b64_plain:
  "c \<in> set (b64_encode bs) \<Longrightarrow> std_char c \<noteq> CHR ''='' \<and> std_char c \<noteq> CHR 0x0A \<and> std_char c \<noteq> CHR 0x0D \<and> url_char (std_char c) = Some c"
proof -
  have "\<forall>c \<in> set b64_alphabet. std_char c \<noteq> CHR ''='' \<and> std_char c \<noteq> CHR 0x0A \<and> std_char c \<noteq> CHR 0x0D \<and> url_char (std_char c) = Some c"
    by (simp add: b64_alphabet_def std_char_def url_char_def)
  then show "c \<in> set (b64_encode bs) \<Longrightarrow> ?thesis" using b64_encode_alphabet [of bs] by blast
qed

lemma length_EncodeToString: "length (EncodeToString bs) = 4 * ((length bs + 2) div 3)"
proof (induction bs rule: b64_encode.induct)
  case (4 a b c bs)
  have S: "length (a # b # c # bs) = length bs + 3" by simp
  have "length (EncodeToString (a # b # c # bs)) = 4 + length (EncodeToString bs)"
    unfolding EncodeToString_def std_padding_def S mod_add_self2 by simp
  moreover have "(length (a # b # c # bs) + 2) div 3 = (length bs + 2) div 3 + 1"
    unfolding S using div_add_self2 [of 3 "length bs + 2"] by (simp only: ac_simps zero_neq_numeral not_False_eq_True)
  ultimately show ?case using 4 by simp
qed (simp_all add: EncodeToString_def std_padding_def)

lemma Decode_Encode [simp]: "DecodeString (EncodeToString bs) = Some bs"
proof -
  let ?body = "map std_char (b64_encode bs)"
  let ?k = "(3 - length bs mod 3) mod 3"
  let ?pad = "std_padding (length bs)"
  have pad: "?pad = replicate ?k (CHR ''='')" "?k \<le> 2" by (simp_all add: std_padding_def)
  have plain: "\<forall>c \<in> set ?body. c \<noteq> CHR ''='' \<and> c \<noteq> CHR 0x0A \<and> c \<noteq> CHR 0x0D \<and> url_char c \<noteq> None"
    using b64_plain [of _ bs] by force
  have f: "filter (\<lambda>c. c \<noteq> CHR 0x0A \<and> c \<noteq> CHR 0x0D) (EncodeToString bs) = EncodeToString bs"
    using plain by (intro filter_True) (auto simp: EncodeToString_def pad(1))
  have tw: "takeWhile (\<lambda>c. c \<noteq> CHR ''='') (?body @ ?pad) = ?body"
    using plain pad by (subst takeWhile_append2) (auto simp: takeWhile_eq_Nil_iff)
  have dw: "dropWhile (\<lambda>c. c \<noteq> CHR ''='') (?body @ ?pad) = ?pad"
    using plain pad by (subst dropWhile_append2) (auto simp: dropWhile_eq_self_iff)
  have undo: "map (the \<circ> url_char) ?body = b64_encode bs"
    using b64_plain [of _ bs] by (auto simp: comp_def intro!: map_idI)
  show ?thesis
    unfolding DecodeString_def f
    using plain undo pad tw dw length_EncodeToString [of bs]
    by (auto simp: EncodeToString_def Let_def list_ex_iff list_all_iff)
qed

lemma default_context [simp]: "defaultEvaluationContext (Struct contextCells)"
  by (simp add: defaultEvaluationContext_def contextCells_def)

lemma validate_written:
  assumes "ipc_laws I" "length payload \<le> maxRecordSize"
    and "ipc_write I SqlExpressionSchema [Str sql, Str scalarExpressionProfile, Items (map Str owner), Struct contextCells] = Inr payload"
    and "sqlText sql (1024 * 1024)" "TrimSpace U sql \<noteq> []" "length owner \<le> 32" "list_all (\<lambda>p. sqlText p 4096) owner"
  shows "validateGeneratedExpression I U (EncodeToString payload) owner' =
    (if owner' = owner then Inr () else Inl (ColErr ''generated expression owner differs from table schema''))"
proof -
  have read: "payload \<noteq> []"
    "ipc_read I payload = Inr (SqlExpressionSchema,
       [[[Str sql, Str scalarExpressionProfile, Items (map Str owner), Struct contextCells]]], CleanEnd)"
    using ipc_write_ok [OF assms(1,3)] by simp_all
  have len: "0 < length (EncodeToString payload)" "length (EncodeToString payload) \<le> maxEncoded"
    using read(1) assms(2) by (auto simp: length_EncodeToString maxEncoded_def Suc_le_eq div_greater_zero_iff div_le_mono)
  have "list_ex (\<lambda>part. part = Null \<or> \<not> sqlText (cellString part) 4096) (map Str owner) = False"
    using assms(7) by (auto simp: list_ex_iff list_all_iff)
  then have row: "checkExpressionRow U owner' [Str sql, Str scalarExpressionProfile, Items (map Str owner), Struct contextCells] =
      (if owner' = owner then Inr () else Inl (ColErr ''generated expression owner differs from table schema''))"
    using assms(4-6) by (auto simp: checkExpressionRow_def comp_def contextCells_def [symmetric]) (simp add: contextCells_def)
  show ?thesis
    using read(1) len assms(2) by (simp add: validateGeneratedExpression_def read(2) row)
qed

text \<open>A tag object as JSON text, for keys and values that need no escape.\<close>

definition plain :: "string \<Rightarrow> bool" where
  "plain s \<longleftrightarrow> list_all (\<lambda>c. 32 \<le> code c \<and> c \<noteq> dquote \<and> c \<noteq> backslash) s"

definition quoted :: "string \<Rightarrow> string" where
  "quoted s = dquote # s @ [dquote]"

fun printMembers :: "(string \<times> string) list \<Rightarrow> string" where
  "printMembers [] = ''}''"
| "printMembers ((k, v) # tags) = CHR '','' # quoted k @ CHR '':'' # quoted v @ printMembers tags"

definition printTags :: "(string \<times> string) list \<Rightarrow> string" where
  "printTags tags = CHR ''{'' # (case tags of [] \<Rightarrow> ''}'' | (k, v) # rest \<Rightarrow> quoted k @ CHR '':'' # quoted v @ printMembers rest)"

lemmas json_chars = dquote_def backslash_def

lemma jsonString_plain: "plain s \<Longrightarrow> jsonString acc (s @ dquote # r) = Some (acc @ s, r)"
  by (induction s arbitrary: acc) (auto simp: plain_def)

lemma jsonText_quoted: "plain s \<Longrightarrow> jsonText (quoted s @ r) = Some (s, r)"
  by (simp add: jsonText_def quoted_def skipJSON_def jsonString_plain dquote_def [symmetric]) (simp add: dquote_def)

lemma skipJSON_char: "c \<notin> {CHR '' '', CHR 0x09, CHR 0x0A, CHR 0x0D} \<Longrightarrow> skipJSON (c # r) = c # r"
  by (simp add: skipJSON_def)

lemma scan_plain: "backslash \<notin> set s \<Longrightarrow> scanSurrogates b s = Inr ()"
  by (induction s arbitrary: b) auto

lemma plain_no_backslash: "plain s \<Longrightarrow> backslash \<notin> set s"
  by (auto simp: plain_def list_all_iff)

lemma printMembers_no_backslash:
  "list_all (\<lambda>(k, v). plain k \<and> plain v) tags \<Longrightarrow> backslash \<notin> set (printMembers tags)"
  by (induction tags rule: printMembers.induct) (auto simp: quoted_def json_chars dest: plain_no_backslash [unfolded json_chars])

lemma tagMembers_member:
  assumes "plain k" "plain v" "first = (pre = [])" "pre \<in> {[], '',''}"
  shows "tagMembers seen first (pre @ quoted k @ CHR '':'' # quoted v @ r) \<longleftrightarrow> k \<notin> set seen \<and> tagMembers (k # seen) False r"
  using assms(3,4) jsonText_quoted [OF assms(1), of "CHR '':'' # quoted v @ r"] jsonText_quoted [OF assms(2), of r]
  by (subst tagMembers.simps) (auto simp: skipJSON_char quoted_def dquote_def)

lemma tagMembers_print:
  assumes "list_all (\<lambda>(k, v). plain k \<and> plain v) tags"
  shows "tagMembers seen False (printMembers tags) \<longleftrightarrow> distinct (map fst tags) \<and> set (map fst tags) \<inter> set seen = {}"
  using assms
proof (induction tags arbitrary: seen rule: printMembers.induct)
  case 1
  show ?case by (subst tagMembers.simps) (simp add: skipJSON_def)
next
  case (2 k v tags)
  then show ?case using tagMembers_member [of k v False "'',''" seen "printMembers tags"] by auto
qed

section \<open>Properties\<close>

text \<open>
  C34. The metadata built for a generated column, from SQL text and an owner path within the limits, is accepted when it
  is read back for that schema path and refused for every other one.
\<close>
theorem generated_expression_owner:
  assumes "ipc_laws I" "length payload \<le> maxRecordSize"
    and "ipc_write I SqlExpressionSchema [Str sql, Str scalarExpressionProfile, Items (map Str owner), Struct contextCells] = Inr payload"
    and "sqlText sql (1024 * 1024)" "TrimSpace U sql \<noteq> []" "length owner \<le> 32" "list_all (\<lambda>p. sqlText p 4096) owner"
  shows "\<exists>encoded. GeneratedExpressionMetadata I U sql owner = Inr encoded \<and>
    (\<forall>path. is_ok (validateGeneratedExpression I U encoded path) \<longleftrightarrow> path = owner)"
  using validate_written [OF assms] assms(3) by (simp add: GeneratedExpressionMetadata_def)

definition generated_ipc :: ipc where
  "generated_ipc = table_ipc [(SqlExpressionSchema,
     [Str ''a + 1'', Str scalarExpressionProfile, Items [Str ''main''], Struct contextCells])]"

theorem generated_expression_owner_witness:
  "\<exists>encoded. GeneratedExpressionMetadata generated_ipc plain_unicode ''a + 1'' [''main''] = Inr encoded \<and>
    (\<forall>path. is_ok (validateGeneratedExpression generated_ipc plain_unicode encoded path) \<longleftrightarrow> path = [''main''])"
proof (rule generated_expression_owner [where payload = "[0]"])
  show "ipc_laws generated_ipc" by (simp add: generated_ipc_def table_ipc_laws)
  show "ipc_write generated_ipc SqlExpressionSchema
      [Str ''a + 1'', Str scalarExpressionProfile, Items (map Str [''main'']), Struct contextCells] = Inr [0]"
    by (simp add: generated_ipc_def table_ipc_defs)
qed (simp_all add: maxRecordSize_def sqlText_def str_def byte_of_char_def utf8_valid.simps TrimSpace_def ascii_space_def)

text \<open>
  Column tags written as a JSON object of strings that need no escapes are accepted exactly when no key occurs twice.
\<close>
theorem column_tags_accepted:
  assumes "list_all (\<lambda>(k, v). plain k \<and> plain v) tags"
  shows "is_ok (validateColumnTags (printTags tags)) \<longleftrightarrow> distinct (map fst tags)"
proof -
  have "scanSurrogates False (printTags tags) = Inr ()"
    using assms
    by (intro scan_plain) (auto simp: printTags_def quoted_def json_chars split: list.splits
      dest: plain_no_backslash [unfolded json_chars] printMembers_no_backslash [unfolded json_chars])
  moreover have "tagMembers [] True (tl (printTags tags)) \<longleftrightarrow> distinct (map fst tags)"
  proof (cases tags)
    case Nil
    then show ?thesis by (simp add: printTags_def) (subst tagMembers.simps, simp add: skipJSON_def)
  next
    case (Cons kv rest)
    obtain k v where kv: "kv = (k, v)" by (cases kv)
    have *: "plain k" "plain v" "list_all (\<lambda>(k, v). plain k \<and> plain v) rest"
      using assms by (simp_all add: Cons kv)
    show ?thesis
      using tagMembers_member [OF *(1,2), of True "[]" "[]" "printMembers rest"] tagMembers_print [OF *(3), of "[k]"]
      by (auto simp: printTags_def Cons kv)
  qed
  ultimately show ?thesis
    by (simp add: validateColumnTags_def printTags_def skipJSON_char)
qed

theorem column_tags_accepted_witness:
  "is_ok (validateColumnTags (printTags [(''unit'', ''m''), (''source'', ''gps'')])) \<and>
   \<not> is_ok (validateColumnTags (printTags [(''unit'', ''m''), (''unit'', ''km'')]))"
  using column_tags_accepted [of "[(''unit'', ''m''), (''source'', ''gps'')]"]
    column_tags_accepted [of "[(''unit'', ''m''), (''unit'', ''km'')]"]
  by (simp add: plain_def code_def dquote_def backslash_def)

end
