(* ===== verification/SchemaPath.thy ===== *)
theory SchemaPath
  imports VgiPrelude GoText
begin

text \<open>
  Schema paths (\<open>vgi/schema_path.go\<close>): a schema is named by its components from the root, and catalogs key it by the
  lower-cased components joined with NUL. \<open>U\<close> is the Unicode table behind \<open>strings.ToLower\<close>.
\<close>

type_synonym schema_path = "string list"

definition singleSchemaPath :: "string \<Rightarrow> schema_path" where
  "singleSchemaPath name = (if name = [] then [] else [name])"

fun Join :: "string list \<Rightarrow> string \<Rightarrow> string" where
  "Join [] sep = []"
| "Join [p] sep = p"
| "Join (p # q # ps) sep = p @ sep @ Join (q # ps) sep"

definition schemaPathKey :: "unicode \<Rightarrow> schema_path \<Rightarrow> string" where
  "schemaPathKey U path = Join (map (ToLower U) path) [CHR 0x00]"

definition schemaPathDisplay :: "schema_path \<Rightarrow> string" where
  "schemaPathDisplay path = Join path ''.''"

definition schemaPathOrMain :: "schema_path \<Rightarrow> schema_path" where
  "schemaPathOrMain path = (if length path = 0 then [''main''] else path)"

text \<open>\<open>strings.Split\<close> at NUL: at least one piece.\<close>

fun splitNUL :: "string \<Rightarrow> string list" where
  "splitNUL [] = [[]]"
| "splitNUL (c # s) =
     (if c = CHR 0x00 then [] # splitNUL s else (case splitNUL s of [] \<Rightarrow> [[c]] | p # ps \<Rightarrow> (c # p) # ps))"

section \<open>Lemmas\<close>

lemma splitNUL_not_Nil [simp]: "splitNUL s \<noteq> []"
  by (cases s) (simp_all split: list.split)

lemma splitNUL_piece: "CHR 0x00 \<notin> set p \<Longrightarrow> splitNUL (p @ s) = (p @ hd (splitNUL s)) # tl (splitNUL s)"
  by (induction p) auto

lemma split_join: "path \<noteq> [] \<Longrightarrow> list_all (\<lambda>p. CHR 0x00 \<notin> set p) path \<Longrightarrow> splitNUL (Join path [CHR 0x00]) = path"
proof (induction path rule: induct_list012)
  case (2 p)
  then have nul: "CHR 0x00 \<notin> set p" by simp
  show ?case using splitNUL_piece [OF nul, of "[]"] by simp
next
  case (3 p q ps)
  have nul: "CHR 0x00 \<notin> set p" and rest: "list_all (\<lambda>p. CHR 0x00 \<notin> set p) (q # ps)"
    using 3(4) by simp_all
  have "splitNUL (Join (p # q # ps) [CHR 0x00]) = p # splitNUL (Join (q # ps) [CHR 0x00])"
    unfolding Join.simps append.simps splitNUL_piece [OF nul] by simp
  also have "\<dots> = p # q # ps"
    using 3(2) rest by blast
  finally show ?case .
qed simp

text \<open>Paths without NUL in their components have the same key only if they are the same but for case.\<close>

lemma schemaPathKey_inject:
  assumes "path \<noteq> []" "path' \<noteq> []" "list_all (\<lambda>p. CHR 0x00 \<notin> set (ToLower U p)) (path @ path')"
    and "schemaPathKey U path = schemaPathKey U path'"
  shows "map (ToLower U) path = map (ToLower U) path'"
proof -
  have key: "splitNUL (schemaPathKey U p) = map (ToLower U) p"
    if "p \<noteq> []" "list_all (\<lambda>p. CHR 0x00 \<notin> set (ToLower U p)) p" for p
    unfolding schemaPathKey_def using that by (intro split_join) (simp_all add: list.pred_map comp_def)
  have "list_all (\<lambda>p. CHR 0x00 \<notin> set (ToLower U p)) path" "list_all (\<lambda>p. CHR 0x00 \<notin> set (ToLower U p)) path'"
    using assms(3) by simp_all
  then show ?thesis using key [OF assms(1)] key [OF assms(2)] assms(4) by metis
qed

end
