(* ===== verification/WritableConstraints.thy ===== *)
theory WritableConstraints
  imports ColumnMetadata SchemaPath
begin

text \<open>
  The constraints a writable or memory catalog accepts and enforces (\<open>vgi/writable_constraints.go\<close> except the
  migration, and \<open>requireUnconstrainedCreateSchema\<close> of \<open>vgi/schema_utils.go\<close>): CREATE TABLE records a NOT NULL
  definition on a top-level column and refuses every other kind, and a row whose required column is NULL is refused.

  A stored row is a Go map from column names to values, as an association list; \<open>AnyFloat\<close> has the bits of a
  \<open>float64\<close>.
\<close>

section \<open>Rows\<close>

datatype go_any =
    AnyNil
  | AnyInt int64
  | AnyFloat "64 word"
  | AnyString string
  | AnyBool bool
  | AnyBytes bytes

type_synonym go_row = "(string \<times> go_any) list"

text \<open>The first required column that is absent or nil; \<open>None\<close> when the row is accepted.\<close>

fun checkNotNullRow :: "string list \<Rightarrow> go_row \<Rightarrow> string option" where
  "checkNotNullRow [] row = None"
| "checkNotNullRow (column # required) row =
     (if map_of row column = None \<or> map_of row column = Some AnyNil then Some column else checkNotNullRow required row)"

section \<open>Conflicts\<close>

text \<open>What CREATE does when the object exists (\<open>onConflictAction\<close> of \<open>vgi/writable_handlers.go\<close>).\<close>

datatype on_conflict = OnConflictError | OnConflictReplace | OnConflictIgnore

definition parseOnConflict :: "unicode \<Rightarrow> string \<Rightarrow> on_conflict" where
  "parseOnConflict U s =
     (if ToUpper U s = ''REPLACE'' then OnConflictReplace
      else if ToUpper U s = ''IGNORE'' then OnConflictIgnore
      else OnConflictError)"

section \<open>NOT NULL records\<close>

definition notNullConstraintID :: "string \<Rightarrow> string" where
  "notNullConstraintID column = ''not_null:'' @ column"

definition notNullSpec :: "schema_path \<Rightarrow> string \<Rightarrow> string \<Rightarrow> string \<Rightarrow> constraint_spec" where
  "notNullSpec schemaPath table column declared =
     \<lparr>specSchemaPath = schemaPath, specTable = table, specID = notNullConstraintID column, specKind = ConstraintNotNull,
      specColumns = [[column]], specEnforcement = ConstraintEnforced, specValidation = ConstraintAllRows,
      specDeclaredName = declared, specCheckSQL = [], specReferences = None\<rparr>"

definition decodeConstraintDefinition :: "ipc \<Rightarrow> bytes \<Rightarrow> row_err + (string \<times> string list list \<times> string)" where
  "decodeConstraintDefinition I data =
     rbind (rmap_err (InRecord ''ConstraintDefinition'') (readCanonicalRow I data ConstraintDefinitionSchema)) (\<lambda>row.
       Inr (rowEnum row ''kind'', rowPaths row ''column_paths'', cellString (rowColumn row ''declared_name'')))"

fun notNullLoop ::
  "ipc \<Rightarrow> unicode \<Rightarrow> rune_tables \<Rightarrow> schema_path \<Rightarrow> string \<Rightarrow> arrow_field list \<Rightarrow> bytes list \<Rightarrow> bytes list \<Rightarrow> string list
    \<Rightarrow> con_err + (bytes list \<times> string list)" where
  "notNullLoop I U R schemaPath table fs [] records required = Inr (records, required)"
| "notNullLoop I U R schemaPath table fs (data # definitions) records required =
     rbind (rmap_err (\<lambda>e. CreateErr (ConErrRow e)) (decodeConstraintDefinition I data)) (\<lambda>(kind, paths, declared).
       if kind \<noteq> ConstraintNotNull
       then Inl (NotImplemented ''constraints are not enforced by this writable catalog'')
       else if length paths \<noteq> 1 \<or> length (hd paths) \<noteq> 1
       then Inl (NotImplemented ''this writable catalog enforces NOT NULL only on top-level columns'')
       else let column = hd (hd paths) in
         if topLevelIndex fs column = None then Inl (UnknownColumn column)
         else if column \<in> set required then notNullLoop I U R schemaPath table fs definitions records required
         else rbind (rmap_err CreateErr (ConstraintRecord I U R (notNullSpec schemaPath table column declared))) (\<lambda>record'.
           notNullLoop I U R schemaPath table fs definitions (records @ [record']) (required @ [column])))"

definition notNullRecords ::
  "ipc \<Rightarrow> unicode \<Rightarrow> rune_tables \<Rightarrow> schema_path \<Rightarrow> string \<Rightarrow> arrow_schema \<Rightarrow> bytes list \<Rightarrow> con_err + (bytes list \<times> string list)" where
  "notNullRecords I U R schemaPath table sch definitions =
     (if length definitions = 0 then Inr ([], [])
      else if length schemaPath \<noteq> 1 then Inl (NotImplemented ''NOT NULL constraints need a one-component schema path'')
      else notNullLoop I U R schemaPath table (schemaFields sch) definitions [] [])"

fun addColumns :: "string list list \<Rightarrow> string list \<Rightarrow> string list" where
  "addColumns [] out = out"
| "addColumns (path # paths) out =
     addColumns paths (if length path = 1 \<and> hd path \<notin> set out then out @ [hd path] else out)"

fun requiredLoop :: "ipc \<Rightarrow> bytes list \<Rightarrow> string list \<Rightarrow> row_err + string list" where
  "requiredLoop I [] out = Inr out"
| "requiredLoop I (data # constraints) out =
     rbind (ReadConstraintRecord I data) (\<lambda>record'.
       requiredLoop I constraints
         (if specKind record' \<noteq> ConstraintNotNull \<and> specKind record' \<noteq> ConstraintPrimaryKey then out
          else addColumns (specColumns record') out))"

definition requiredColumns :: "ipc \<Rightarrow> bytes list \<Rightarrow> row_err + string list" where
  "requiredColumns I constraints = requiredLoop I constraints []"

definition rebindRecord ::
  "ipc \<Rightarrow> unicode \<Rightarrow> rune_tables \<Rightarrow> schema_path \<Rightarrow> string \<Rightarrow> bytes \<Rightarrow> con_err + bytes" where
  "rebindRecord I U R schemaPath table data =
     rbind (rmap_err ConErrRow (ReadConstraintRecord I data)) (\<lambda>spec.
       if specTable spec = table \<and> specSchemaPath spec = schemaPath then Inr data
       else ConstraintRecord I U R (spec\<lparr>specTable := table, specSchemaPath := schemaPath\<rparr>))"

definition rebindRecords ::
  "ipc \<Rightarrow> unicode \<Rightarrow> rune_tables \<Rightarrow> bytes list \<Rightarrow> schema_path \<Rightarrow> string \<Rightarrow> con_err + bytes list" where
  "rebindRecords I U R records schemaPath table = mapResult (rebindRecord I U R schemaPath table) records"

section \<open>Columns of CREATE TABLE\<close>

lemma checkEach_cong [fundef_cong]:
  "xs = ys \<Longrightarrow> (\<And>x. x \<in> set ys \<Longrightarrow> f x = g x) \<Longrightarrow> checkEach f xs = checkEach g ys"
  using mapResult_cong [of xs ys f g] by (simp add: checkEach_def)

fun visitCreate :: "string list \<Rightarrow> bool \<Rightarrow> nat \<Rightarrow> arrow_field \<Rightarrow> con_err + unit" where
  "visitCreate notNull atTop depth (Field name t nullable meta) =
     (if depth > 64 then Inl (NotImplemented ''column nesting exceeds supported depth'')
      else if atTop \<and> isRowIDField (Field name t nullable meta) then Inr ()
      else if list_ex (logicalKey \<circ> fst) meta then Inl (NotImplemented ''logical column types require negotiation'')
      else if (case t of EXTENSION _ _ \<Rightarrow> True | _ \<Rightarrow> False) then Inl (NotImplemented ''extension types require negotiation'')
      else if \<not> nullable \<and> (\<not> atTop \<or> name \<notin> set notNull)
      then Inl (NotImplemented ''column is non-nullable without a NOT NULL constraint definition'')
      else case t of
        STRUCT children \<Rightarrow> checkEach (visitCreate notNull False (depth + 1)) children
      | _ \<Rightarrow> Inr ())"

definition requireUnconstrainedCreateSchema :: "arrow_schema \<Rightarrow> string list \<Rightarrow> con_err + unit" where
  "requireUnconstrainedCreateSchema sch notNull = checkEach (visitCreate notNull True 0) (schemaFields sch)"

end
