(* ===== verification/CatalogItems.thy ===== *)
theory CatalogItems
  imports ColumnMetadata SchemaPath
begin

text \<open>
  The metadata items catalogs serve: one record per schema, table, view, function, macro or index, each a stream of one
  row over a schema of \<open>vgi/generated/protocol_schemas.go\<close>. \<open>SerializeSchemaInfo\<close> (\<open>vgi/catalog_types.go\<close>),
  \<open>SerializeTableInfo\<close> (\<open>vgi/catalog_table_info.go\<close>) and \<open>SerializeViewInfo\<close> (\<open>vgi/catalog_view_info.go\<close>) are modelled
  by the cells their Arrow builders fill. Go maps are association lists; the builders write them in key order.

  \<open>S\<close> is the codec of Arrow schemas as IPC bytes (\<open>SerializeSchema\<close>, \<open>DeserializeSchema\<close>), \<open>I\<close> that of records.
\<close>

section \<open>Record schemas\<close>

definition TStringMap :: ctype where "TStringMap = TMap TString TString"

definition SchemaInfoSchema :: cschema where
  "SchemaInfoSchema =
     [(''comment'', TString, True), (''tags'', TStringMap, False), (''path'', TList TString, False),
      (''estimated_object_count'', TMap TString TInt64, True), (''options'', TBinary, True)]"

definition TableInfoSchema :: cschema where
  "TableInfoSchema =
     [(''comment'', TString, True), (''tags'', TStringMap, False), (''name'', TString, False),
      (''schema_path'', TList TString, False), (''columns'', TBinary, False), (''constraints'', TList TBinary, False),
      (''definition_revision'', TBinary, True), (''write_result_modes'', TStringMap, False),
      (''supports_column_statistics'', TBool, False), (''scan_function'', TBinary, True), (''insert_function'', TBinary, True),
      (''update_function'', TBinary, True), (''delete_function'', TBinary, True), (''cardinality_estimate'', TInt64, True),
      (''cardinality_max'', TInt64, True), (''column_statistics'', TBinary, True), (''bind_result'', TBinary, True),
      (''required_filters'', TList (TList (TList TString)), False), (''options'', TBinary, True), (''layout'', TBinary, True)]"

definition ViewInfoSchema :: cschema where
  "ViewInfoSchema =
     [(''comment'', TString, True), (''tags'', TStringMap, False), (''name'', TString, False),
      (''schema_path'', TList TString, False), (''definition'', TString, False), (''column_comments'', TStringMap, False),
      (''aliases'', TList TString, False), (''security'', TString, False)]"

definition versionedNames :: ctype where
  "versionedNames = TList (TStruct [(''namespace'', TString, False), (''name'', TString, False), (''version'', TUInt64, False)])"

definition FunctionInfoSchema :: cschema where
  "FunctionInfoSchema =
     [(''comment'', TString, True), (''tags'', TStringMap, False), (''name'', TString, False),
      (''schema_path'', TList TString, False), (''function_type'', TEnum, False), (''arguments'', TDictBinary, False),
      (''output_schema'', TDictBinary, False), (''parameter_default_values'', TDictBinary, True), (''stability'', TEnum, True),
      (''null_handling'', TEnum, True), (''argument_monotonicity'', TList TString, True), (''description'', TString, False),
      (''examples'', TList (TStruct [(''sql'', TString, False), (''description'', TString, False), (''expected_output'', TString, True)]), False),
      (''categories'', TList TString, False), (''projection_pushdown'', TBool, True), (''filter_pushdown'', TBool, True),
      (''sampling_pushdown'', TBool, True), (''late_materialization'', TBool, True),
      (''filter_semantic_profiles'', TList TString, False), (''additional_filter_functions'', versionedNames, False),
      (''runtime_filter_algorithms'', versionedNames, False),
      (''filter_evaluation_contexts'', TList (TStruct [(''profile'', TString, False), (''provider_fingerprint'', TString, True)]), False),
      (''order_preservation'', TEnum, True), (''max_workers'', TInt32, True), (''supports_batch_index'', TBool, False),
      (''supports_splits'', TBool, False), (''filters_exactly_applied'', TBool, False), (''supports_positions'', TBool, False),
      (''split_token_ttl_seconds'', TInt64, True), (''partition_kind'', TEnum, False), (''order_dependent'', TEnum, False),
      (''distinct_dependent'', TEnum, False), (''supports_window'', TBool, False), (''streaming_partitioned'', TBool, False),
      (''has_finalize'', TBool, False), (''source_order_dependent'', TBool, False), (''sink_order_dependent'', TBool, False),
      (''requires_input_batch_index'', TBool, False), (''input_from_args'', TBool, False), (''input_rows_per_call'', TInt64, True),
      (''required_settings'', TList TString, False),
      (''required_secrets'', TList (TStruct [(''secret_type'', TString, False), (''scope'', TString, True), (''secret_name'', TString, True)]), False)]"

definition MacroInfoSchema :: cschema where
  "MacroInfoSchema =
     [(''comment'', TString, True), (''tags'', TStringMap, False), (''name'', TString, False),
      (''schema_path'', TList TString, False), (''macro_type'', TEnum, False),
      (''overloads'', TList (TStruct
        [(''parameters'', TList (TStruct
           [(''name'', TString, False), (''declared_type'', TBinary, True), (''default_value'', TBinary, True),
            (''default_expression'', TBinary, True), (''documentation'', TString, True)]), False),
         (''definition'', TString, False), (''profile'', TString, False), (''schema_path'', TList TString, False),
         (''macro_type'', TString, False),
         (''evaluation_context'', TStruct
           [(''timezone'', TString, False), (''collation'', TString, False), (''default_order'', TString, False),
            (''default_null_order'', TString, False), (''preserve_insertion_order'', TBool, False)], False)]), False)]"

definition IndexInfoSchema :: cschema where
  "IndexInfoSchema =
     [(''comment'', TString, True), (''tags'', TStringMap, False), (''name'', TString, False),
      (''schema_path'', TList TString, False), (''definition'', TBinary, False), (''options'', TBinary, False)]"

section \<open>Cells\<close>

definition optionalString :: "string option \<Rightarrow> cell" where
  "optionalString s = (case s of None \<Rightarrow> Null | Some x \<Rightarrow> Str x)"

definition optionalBinary :: "bytes option \<Rightarrow> cell" where
  "optionalBinary b = (case b of None \<Rightarrow> Null | Some x \<Rightarrow> Bin x)"

definition optionalInt :: "int64 option \<Rightarrow> cell" where
  "optionalInt n = (case n of None \<Rightarrow> Null | Some x \<Rightarrow> Int64 x)"

definition pathCell :: "schema_path \<Rightarrow> cell" where
  "pathCell path = Items (map Str path)"

definition mapCell :: "('v \<Rightarrow> cell) \<Rightarrow> (string \<times> 'v) list \<Rightarrow> cell" where
  "mapCell f kvs = Items (map (\<lambda>(k, v). Struct [(''key'', Str k), (''value'', f v)]) (sort_key fst kvs))"

section \<open>Schemas\<close>

record schema_info =
  siPath :: schema_path
  siComment :: "string option"
  siTags :: "(string \<times> string) list"
  siEstimates :: "(string \<times> int64) list option"
  siOptions :: "bytes option"

definition schemaInfoCells :: "schema_info \<Rightarrow> cell list" where
  "schemaInfoCells info =
     [optionalString (siComment info), mapCell Str (siTags info), pathCell (siPath info),
      (case siEstimates info of None \<Rightarrow> Null | Some counts \<Rightarrow> mapCell Int64 counts), optionalBinary (siOptions info)]"

definition SerializeSchemaInfo :: "ipc \<Rightarrow> schema_info \<Rightarrow> row_err + bytes" where
  "SerializeSchemaInfo I info = ipc_write I SchemaInfoSchema (schemaInfoCells info)"

section \<open>Views\<close>

record view_info =
  viName :: string
  viSchemaPath :: schema_path
  viComment :: "string option"
  viTags :: "(string \<times> string) list"
  viDefinition :: string
  viAliases :: "string list"
  viSecurity :: string
  viColumnComments :: "(string \<times> string) list"

definition viewInfoCells :: "view_info \<Rightarrow> string \<Rightarrow> cell list" where
  "viewInfoCells info security =
     [optionalString (viComment info), mapCell Str (viTags info), Str (viName info), pathCell (viSchemaPath info),
      Str (viDefinition info), mapCell Str (viColumnComments info), pathCell (viAliases info), Str security]"

definition SerializeViewInfo :: "ipc \<Rightarrow> view_info \<Rightarrow> col_err + bytes" where
  "SerializeViewInfo I info =
     (let security = (if viSecurity info = [] then ''regular'' else viSecurity info) in
      if security \<noteq> ''regular'' \<and> security \<noteq> ''barrier'' then Inl (ColErrAt ''unknown view security'' security)
      else rmap_err ColErrRow (ipc_write I ViewInfoSchema (viewInfoCells info security)))"

definition descriptorComment :: "string \<Rightarrow> string option" where
  "descriptorComment comment = (if comment = [] then None else Some comment)"

section \<open>Tables\<close>

record schema_codec =
  sc_write :: "arrow_schema \<Rightarrow> row_err + bytes"
  sc_read :: "bytes \<Rightarrow> row_err + arrow_schema"

text \<open>What was written is read back as it was; nothing is written as no bytes.\<close>

definition schema_codec_laws :: "schema_codec \<Rightarrow> bool" where
  "schema_codec_laws S \<longleftrightarrow> (\<forall>sch b. sc_write S sch = Inr b \<longrightarrow> b \<noteq> [] \<and> sc_read S b = Inr sch)"

definition SerializeSchema :: "schema_codec \<Rightarrow> arrow_schema \<Rightarrow> row_err + bytes" where
  "SerializeSchema S sch = sc_write S sch"

definition DeserializeSchema :: "schema_codec \<Rightarrow> bytes \<Rightarrow> row_err + arrow_schema" where
  "DeserializeSchema S data = (if length data = 0 then Inl (IpcError ''empty schema IPC data'') else sc_read S data)"

definition tableInfoCells :: "table_info \<Rightarrow> bytes \<Rightarrow> cell list" where
  "tableInfoCells info columns =
     [optionalString (descriptorComment (tiComment info)), mapCell Str (tiTags info), Str (tiName info),
      pathCell (tiSchemaPath info), Bin columns, Items (map Bin (tiConstraints info)), optionalBinary (tiRevision info),
      mapCell Str (tiWriteModes info), Bool (tiStatisticsSupport info), optionalBinary (tiScanFunction info),
      optionalBinary (tiInsertFunction info), optionalBinary (tiUpdateFunction info), optionalBinary (tiDeleteFunction info),
      optionalInt (tiCardinalityEstimate info), optionalInt (tiCardinalityMax info), optionalBinary (tiColumnStatistics info),
      optionalBinary (tiBindResult info),
      Items (map (\<lambda>group. Items (map pathCell group)) (tiRequiredFilters info)), optionalBinary (tiOptions info),
      optionalBinary (tiLayout info)]"

definition SerializeTableInfo ::
  "ipc \<Rightarrow> schema_codec \<Rightarrow> unicode \<Rightarrow> rune_tables \<Rightarrow> table_info \<Rightarrow> col_err + bytes" where
  "SerializeTableInfo I S U R info =
     rbind (tableInfoColumns I U R info) (\<lambda>served.
     rbind (case served of None \<Rightarrow> Inr [] | Some sch \<Rightarrow> rmap_err ColErrRow (SerializeSchema S sch)) (\<lambda>columns.
       rmap_err ColErrRow (ipc_write I TableInfoSchema (tableInfoCells info columns))))"

text \<open>The zero value of \<open>TableInfo\<close> with the fields a catalog sets.\<close>

definition plainTableInfo :: "string \<Rightarrow> schema_path \<Rightarrow> arrow_schema option \<Rightarrow> bytes list \<Rightarrow> table_info" where
  "plainTableInfo name path columns constraints =
     \<lparr>tiName = name, tiSchemaPath = path, tiComment = [], tiTags = [], tiColumns = columns, tiConstraints = constraints,
      tiRevision = None, tiLegacy = 0, tiWriteModes = [], tiStatisticsSupport = False, tiScanFunction = None,
      tiInsertFunction = None, tiUpdateFunction = None, tiDeleteFunction = None, tiCardinalityEstimate = None,
      tiCardinalityMax = None, tiColumnStatistics = None, tiBindResult = None, tiRequiredFilters = [], tiOptions = None,
      tiLayout = None\<rparr>"

section \<open>Reading a record\<close>

text \<open>\<open>DeserializeRecordBatch\<close>: the schema and the rows of the first batch; what follows it is not read.\<close>

definition DeserializeRecordBatch :: "ipc \<Rightarrow> bytes \<Rightarrow> row_err + (cschema \<times> cell list list)" where
  "DeserializeRecordBatch I data =
     rbind (ipc_read I data) (\<lambda>(sch, batches, ending).
       case batches of [] \<Rightarrow> Inl RecordMissing | b # _ \<Rightarrow> Inr (sch, b))"

section \<open>Lemmas\<close>

lemmas item_schema_defs = SchemaInfoSchema_def TableInfoSchema_def ViewInfoSchema_def FunctionInfoSchema_def
  MacroInfoSchema_def IndexInfoSchema_def

lemma mapCell_not_Null [simp]: "mapCell f kvs \<noteq> Null"
  by (simp add: mapCell_def)

lemma pathCell_simps [simp]:
  "pathCell p \<noteq> Null" "pathCell p = pathCell q \<longleftrightarrow> p = q" "map cellString (cellItems (pathCell p)) = p"
  by (auto simp: pathCell_def comp_def map_idI inj_map_eq_map inj_def)

lemma DeserializeRecordBatch_write:
  "ipc_laws I \<Longrightarrow> ipc_write I sch cells = Inr b \<Longrightarrow> DeserializeRecordBatch I b = Inr (sch, [cells])"
  by (simp add: DeserializeRecordBatch_def ipc_write_ok)

end
