(* ===== verification/CatalogStreams.thy ===== *)
theory CatalogStreams
  imports CatalogItems Sha256
begin

text \<open>
  \<open>catalog_contents\<close>: the six catalog-wide metadata streams (\<open>vgi/catalog_collection.go\<close>) and the catalog-independent
  half of the answer (\<open>answerCatalogContents\<close>, \<open>checkContentsPaths\<close> and the digests of \<open>vgi/catalog_contents.go\<close>).

  A handler is an argument of the answer, as in the code. The key of a schema path in the collection is the JSON text
  of its lower-cased components; a JSON text determines its list of strings, so the key here is that list, with the
  bytes that are not UTF-8 replaced as the encoder replaces them.
\<close>

section \<open>Snapshots and responses\<close>

record schema_contents =
  scPath :: schema_path
  scSchema :: bytes
  scTables :: "bytes list"
  scViews :: "bytes list"
  scScalarFunctions :: "bytes list"
  scAggregateFunctions :: "bytes list"
  scTableFunctions :: "bytes list"
  scScalarMacros :: "bytes list"
  scTableMacros :: "bytes list"
  scIndexes :: "bytes list"

record contents_response =
  crVersion :: int64
  crEtag :: "string option"
  crNotModified :: bool
  crSchemas :: "bytes option"
  crTables :: "bytes option"
  crViews :: "bytes option"
  crFunctions :: "bytes option"
  crMacros :: "bytes option"
  crIndexes :: "bytes option"

datatype stream_err =
    StreamRow row_err
  | SchemaMismatch
  | InCategory nat stream_err
  | EtagRequired
  | NotModifiedData
  | IncompatibleSchema nat
  | RequiredField string
  | NullComponent
  | EmptyPath
  | DuplicateSchema
  | MissingParent
  | UnknownSchema
  | UnknownSubtype string
  | ReadError

definition streamsOf :: "contents_response \<Rightarrow> bytes option list" where
  "streamsOf r = [crSchemas r, crTables r, crViews r, crFunctions r, crMacros r, crIndexes r]"

definition categorySchemas :: "cschema list" where
  "categorySchemas =
     [SchemaInfoSchema, TableInfoSchema, ViewInfoSchema, FunctionInfoSchema, MacroInfoSchema, IndexInfoSchema]"

fun foldResult :: "('s \<Rightarrow> 'a \<Rightarrow> 'e + 's) \<Rightarrow> 's \<Rightarrow> 'a list \<Rightarrow> 'e + 's" where
  "foldResult f s [] = Inr s"
| "foldResult f s (x # xs) = rbind (f s x) (\<lambda>s'. foldResult f s' xs)"

section \<open>Combining items\<close>

definition catalogBatchRows :: nat where "catalogBatchRows = 1024"

text \<open>The slices of one batch of an item: rows go to the pending batch, which is written whenever it is full.\<close>

function takeRows :: "'r list \<Rightarrow> 'r list list \<Rightarrow> 'r list \<Rightarrow> 'r list \<times> 'r list list" where
  "takeRows pending written rows =
     (if rows = [] then (pending, written)
      else let n = catalogBatchRows - length pending;
               pending' = pending @ take n rows
           in if length pending' \<ge> catalogBatchRows then takeRows [] (written @ [pending']) (drop n rows)
              else takeRows pending' written (drop n rows))"
  by pat_completeness auto
termination
  by (relation "measures [\<lambda>(pending, written, rows). length rows, \<lambda>(pending, written, rows). length pending]")
    (auto simp: catalogBatchRows_def)

declare takeRows.simps [simp del]

definition combineRows :: "'r list list \<Rightarrow> 'r list list" where
  "combineRows batches =
     (let (pending, written) = foldl (\<lambda>(pending, written) rows. takeRows pending written rows) ([], []) batches
      in if pending = [] then written else written @ [pending])"

definition readItem :: "ipc \<Rightarrow> cschema \<Rightarrow> bytes \<Rightarrow> stream_err + cell list list list" where
  "readItem I sch item =
     rbind (rmap_err StreamRow (ipc_read I item)) (\<lambda>(got, batches, ending).
       if got \<noteq> sch then Inl SchemaMismatch
       else if ending = ReadFailed then Inl ReadError
       else Inr batches)"

definition CombineCatalogItems :: "ipc \<Rightarrow> cschema \<Rightarrow> bytes list \<Rightarrow> stream_err + bytes option" where
  "CombineCatalogItems I sch items =
     (if length items = 0 then Inr None
      else rbind (mapResult (readItem I sch) items) (\<lambda>read.
        let batches = concat read in
        rbind (rmap_err StreamRow (ipc_stream I sch (combineRows batches))) (\<lambda>data.
          Inr (if concat batches = [] then None else Some data))))"

section \<open>Decoding\<close>

fun coerceUTF8 :: "string \<Rightarrow> string" where
  "coerceUTF8 [] = []"
| "coerceUTF8 (c # s) =
     (let (r, size) = DecodeRune (c # s) in
      if r = 65533 \<and> size \<le> 1 then map char_of [0xEF, 0xBF, 0xBD :: nat] @ coerceUTF8 s
      else take size (c # s) @ coerceUTF8 (drop (size - 1) s))"

definition catalogCollectionPathKey :: "unicode \<Rightarrow> schema_path \<Rightarrow> string list" where
  "catalogCollectionPathKey U path = map (\<lambda>part. coerceUTF8 (ToLower U part)) path"

definition emptyContents :: "schema_path \<Rightarrow> schema_contents" where
  "emptyContents path =
     \<lparr>scPath = path, scSchema = [], scTables = [], scViews = [], scScalarFunctions = [], scAggregateFunctions = [],
      scTableFunctions = [], scScalarMacros = [], scTableMacros = [], scIndexes = []\<rparr>"

type_synonym decode_state = "schema_contents list \<times> (string list \<times> nat) list"

text \<open>The first required column of a batch that holds a null.\<close>

fun nullColumn :: "cschema \<Rightarrow> cell list list \<Rightarrow> string option" where
  "nullColumn [] rows = None"
| "nullColumn ((name, t, nullable) # fs) rows =
     (if \<not> nullable \<and> list_ex (\<lambda>row. row \<noteq> [] \<and> hd row = Null) rows then Some name
      else nullColumn fs (map tl rows))"

definition pathOfRow :: "nat \<Rightarrow> row \<Rightarrow> stream_err + schema_path" where
  "pathOfRow kind row =
     (let parts = cellItems (rowColumn row (if kind = 0 then ''path'' else ''schema_path'')) in
      if list_ex (\<lambda>c. c = Null) parts then Inl NullComponent
      else if parts = [] then Inl EmptyPath
      else Inr (map cellString parts))"

definition placeItem :: "unicode \<Rightarrow> nat \<Rightarrow> row \<Rightarrow> bytes \<Rightarrow> schema_contents \<Rightarrow> stream_err + schema_contents" where
  "placeItem U kind row item e =
     (if kind = 0 then Inr (e\<lparr>scSchema := item\<rparr>)
      else if kind = 1 then Inr (e\<lparr>scTables := scTables e @ [item]\<rparr>)
      else if kind = 2 then Inr (e\<lparr>scViews := scViews e @ [item]\<rparr>)
      else if kind = 3 then
        (let v = ToUpper U (rowEnum row ''function_type'') in
         if v = ''SCALAR'' then Inr (e\<lparr>scScalarFunctions := scScalarFunctions e @ [item]\<rparr>)
         else if v = ''AGGREGATE'' then Inr (e\<lparr>scAggregateFunctions := scAggregateFunctions e @ [item]\<rparr>)
         else if v = ''TABLE'' \<or> v = ''TABLE_BUFFERING'' then Inr (e\<lparr>scTableFunctions := scTableFunctions e @ [item]\<rparr>)
         else Inl (UnknownSubtype v))
      else if kind = 4 then
        (let v = ToUpper U (rowEnum row ''macro_type'') in
         if v = ''SCALAR'' then Inr (e\<lparr>scScalarMacros := scScalarMacros e @ [item]\<rparr>)
         else if v = ''TABLE'' then Inr (e\<lparr>scTableMacros := scTableMacros e @ [item]\<rparr>)
         else Inl (UnknownSubtype v))
      else Inr (e\<lparr>scIndexes := scIndexes e @ [item]\<rparr>))"

text \<open>A schema row opens an entry; its parent's row must have come before.\<close>

definition openEntry :: "unicode \<Rightarrow> nat \<Rightarrow> schema_path \<Rightarrow> decode_state \<Rightarrow> stream_err + decode_state" where
  "openEntry U kind path st =
     (let (out, index) = st; key = catalogCollectionPathKey U path in
      if kind \<noteq> 0 then Inr st
      else if map_of index key \<noteq> None then Inl DuplicateSchema
      else if length path > 1 \<and> map_of index (catalogCollectionPathKey U (butlast path)) = None then Inl MissingParent
      else Inr (out @ [emptyContents path], (key, length out) # index))"

definition decodeRow ::
  "ipc \<Rightarrow> unicode \<Rightarrow> bool \<Rightarrow> nat \<Rightarrow> cschema \<Rightarrow> decode_state \<Rightarrow> cell list \<Rightarrow> stream_err + decode_state" where
  "decodeRow I U materialize kind sch st cells =
     (let row = zip (map fst sch) cells in
      rbind (pathOfRow kind row) (\<lambda>path.
      rbind (openEntry U kind path st) (\<lambda>(out, index).
        case map_of index (catalogCollectionPathKey U path) of
          None \<Rightarrow> Inl UnknownSchema
        | Some pos \<Rightarrow>
            rbind (if materialize then rmap_err StreamRow (ipc_write I sch cells) else Inr []) (\<lambda>item.
            rbind (placeItem U kind row item (out ! pos)) (\<lambda>entry. Inr (out[pos := entry], index))))))"

definition decodeBatch ::
  "ipc \<Rightarrow> unicode \<Rightarrow> bool \<Rightarrow> nat \<Rightarrow> cschema \<Rightarrow> decode_state \<Rightarrow> cell list list \<Rightarrow> stream_err + decode_state" where
  "decodeBatch I U materialize kind sch st rows =
     (case nullColumn sch rows of
        Some name \<Rightarrow> Inl (RequiredField name)
      | None \<Rightarrow> foldResult (decodeRow I U materialize kind sch) st rows)"

definition decodeStream ::
  "ipc \<Rightarrow> unicode \<Rightarrow> bool \<Rightarrow> decode_state \<Rightarrow> nat \<times> cschema \<times> bytes option \<Rightarrow> stream_err + decode_state" where
  "decodeStream I U materialize st category =
     (case category of (kind, sch, stream) \<Rightarrow>
        (case stream of
           None \<Rightarrow> Inr st
         | Some data \<Rightarrow>
             rbind (rmap_err StreamRow (ipc_read I data)) (\<lambda>(got, batches, ending).
               if got \<noteq> sch then Inl (IncompatibleSchema kind)
               else rbind (foldResult (decodeBatch I U materialize kind sch) st batches) (\<lambda>st'.
                 if ending = ReadFailed then Inl ReadError else Inr st'))))"

definition decodeCatalogStreams ::
  "ipc \<Rightarrow> unicode \<Rightarrow> contents_response \<Rightarrow> bool \<Rightarrow> stream_err + schema_contents list" where
  "decodeCatalogStreams I U response materialize =
     (if crNotModified response then
        (if crEtag response = None then Inl EtagRequired
         else if list_ex (\<lambda>s. s \<noteq> None) (streamsOf response) then Inl NotModifiedData
         else Inr [])
      else rbind (foldResult (decodeStream I U materialize) ([], []) (zip [0..<6] (zip categorySchemas (streamsOf response))))
        (\<lambda>(out, index). Inr out))"

definition DecodeCatalogStreams :: "ipc \<Rightarrow> unicode \<Rightarrow> contents_response \<Rightarrow> stream_err + schema_contents list" where
  "DecodeCatalogStreams I U response = decodeCatalogStreams I U response True"

section \<open>Encoding\<close>

definition categoryItems :: "schema_contents list \<Rightarrow> bytes list list" where
  "categoryItems schemas =
     [map scSchema schemas, concat (map scTables schemas), concat (map scViews schemas),
      concat (map (\<lambda>s. scScalarFunctions s @ scAggregateFunctions s @ scTableFunctions s) schemas),
      concat (map (\<lambda>s. scScalarMacros s @ scTableMacros s) schemas), concat (map scIndexes schemas)]"

definition combineCategory :: "ipc \<Rightarrow> nat \<times> cschema \<times> bytes list \<Rightarrow> stream_err + bytes option" where
  "combineCategory I category =
     (case category of (i, sch, items) \<Rightarrow> rmap_err (InCategory i) (CombineCatalogItems I sch items))"

definition encodeCatalogStreams ::
  "ipc \<Rightarrow> unicode \<Rightarrow> int64 \<Rightarrow> string option \<Rightarrow> schema_contents list \<Rightarrow> stream_err + contents_response" where
  "encodeCatalogStreams I U version etag schemas =
     rbind (mapResult (combineCategory I) (zip [0..<6] (zip categorySchemas (categoryItems schemas)))) (\<lambda>streams.
       let response = \<lparr>crVersion = version, crEtag = etag, crNotModified = False, crSchemas = streams ! 0, crTables = streams ! 1,
                       crViews = streams ! 2, crFunctions = streams ! 3, crMacros = streams ! 4, crIndexes = streams ! 5\<rparr>
       in rbind (decodeCatalogStreams I U response False) (\<lambda>_. Inr response))"

section \<open>Digests\<close>

definition countBytes :: "nat \<Rightarrow> bytes" where
  "countBytes n = put_u64_le (word_of_nat n)"

definition chunkBytes :: "bytes \<Rightarrow> bytes" where
  "chunkBytes v = countBytes (length v) @ v"

definition chunksBytes :: "bytes list \<Rightarrow> bytes" where
  "chunksBytes vs = countBytes (length vs) @ concat (map chunkBytes vs)"

definition schemaDigestInput :: "schema_contents \<Rightarrow> bytes" where
  "schemaDigestInput s =
     countBytes (length (scPath s)) @ concat (map (\<lambda>part. chunkBytes (str part)) (scPath s)) @ chunkBytes (scSchema s) @
     concat (map chunksBytes
       [scTables s, scViews s, scScalarFunctions s, scAggregateFunctions s, scTableFunctions s, scScalarMacros s,
        scTableMacros s, scIndexes s])"

definition contentsDigestInput :: "schema_contents list \<Rightarrow> bytes" where
  "contentsDigestInput schemas = countBytes (length schemas) @ concat (map schemaDigestInput schemas)"

definition CatalogContentsDigest :: "schema_contents list \<Rightarrow> string" where
  "CatalogContentsDigest schemas = hex_encode (sha256 (contentsDigestInput schemas))"

definition streamDigestInput :: "bytes option \<Rightarrow> bytes" where
  "streamDigestInput v = (case v of None \<Rightarrow> countBytes 0 | Some b \<Rightarrow> countBytes 1 @ chunkBytes b)"

definition streamsDigestInput :: "contents_response \<Rightarrow> bytes" where
  "streamsDigestInput r =
     chunkBytes (str ''vgi.catalog-contents.2.2'') @ put_u64_le (crVersion r) @ concat (map streamDigestInput (streamsOf r))"

definition CatalogStreamsDigest :: "contents_response \<Rightarrow> string" where
  "CatalogStreamsDigest r = hex_encode (sha256 (streamsDigestInput r))"

section \<open>The answer\<close>

record contents_result =
  resSchemas :: "schema_contents list"
  resEtag :: "string option"
  resNotModified :: bool

record 'e contents_call =
  callAttach :: bytes
  callCatalogName :: string
  callIfNoneMatch :: "string option"
  callVersion :: int64
  callBuild :: "'e + schema_contents list"

datatype 'e contents_err =
    CatalogError 'e
  | NotModifiedWithoutMatch
  | NotModifiedWithSchemas
  | PathErr string schema_path
  | PathItemErr schema_path row_err
  | StreamErr stream_err

type_synonym 'e contents_handler = "'e contents_call \<Rightarrow> 'e + contents_result"

definition notModifiedResponse :: "int64 \<Rightarrow> string \<Rightarrow> contents_response" where
  "notModifiedResponse version etag =
     \<lparr>crVersion = version, crEtag = Some etag, crNotModified = True, crSchemas = None, crTables = None, crViews = None,
      crFunctions = None, crMacros = None, crIndexes = None\<rparr>"

text \<open>The path column of a schema item; the type checks of the column are those of its values here.\<close>

definition schemaInfoItemPath :: "ipc \<Rightarrow> bytes \<Rightarrow> row_err + schema_path" where
  "schemaInfoItemPath I item =
     rbind (DeserializeRecordBatch I item) (\<lambda>(sch, rows).
       case (filter (\<lambda>i. fst (sch ! i) = ''path'') [0..<length sch], rows) of
         ([i], cells # _) \<Rightarrow>
           (case fst (snd (sch ! i)) of
              TList t \<Rightarrow> if t = TString then Inr (map cellString (cellItems (cells ! i))) else Inl NotCanonicalSchema
            | _ \<Rightarrow> Inl NotCanonicalSchema)
       | _ \<Rightarrow> Inl NotCanonicalSchema)"

fun checkPathKeys ::
  "ipc \<Rightarrow> unicode \<Rightarrow> bool \<Rightarrow> string list \<Rightarrow> schema_contents list \<Rightarrow> 'e contents_err + string list" where
  "checkPathKeys I U verifyItems keys [] = Inr keys"
| "checkPathKeys I U verifyItems keys (s # schemas) =
     (if scPath s = [] then Inl (PathErr ''empty path'' [])
      else if schemaPathKey U (scPath s) \<in> set keys then Inl (PathErr ''duplicate schema path'' (scPath s))
      else rbind
        (if verifyItems then
           rbind (rmap_err (PathItemErr (scPath s)) (schemaInfoItemPath I (scSchema s))) (\<lambda>itemPath.
             if itemPath \<noteq> scPath s then Inl (PathErr ''schema path differs from its SchemaInfo.path'' (scPath s)) else Inr ())
         else Inr ())
        (\<lambda>_. checkPathKeys I U verifyItems (schemaPathKey U (scPath s) # keys) schemas))"

fun checkParents :: "unicode \<Rightarrow> string list \<Rightarrow> schema_contents list \<Rightarrow> 'e contents_err + unit" where
  "checkParents U keys [] = Inr ()"
| "checkParents U keys (s # schemas) =
     (if length (scPath s) > 1 \<and> schemaPathKey U (butlast (scPath s)) \<notin> set keys
      then Inl (PathErr ''schema path without its parent'' (scPath s))
      else checkParents U keys schemas)"

definition checkContentsPaths :: "ipc \<Rightarrow> unicode \<Rightarrow> schema_contents list \<Rightarrow> bool \<Rightarrow> 'e contents_err + unit" where
  "checkContentsPaths I U schemas verifyItems =
     rbind (checkPathKeys I U verifyItems [] schemas) (\<lambda>keys. checkParents U keys schemas)"

text \<open>The etag mode is content-hash or off.\<close>

definition answerCatalogContents ::
  "ipc \<Rightarrow> unicode \<Rightarrow> 'e contents_handler option \<Rightarrow> bool \<Rightarrow> 'e contents_call \<Rightarrow> 'e contents_err + contents_response" where
  "answerCatalogContents I U handler contentHash call =
     rbind (rmap_err CatalogError
       (case handler of
          Some h \<Rightarrow> h call
        | None \<Rightarrow> rbind (callBuild call) (\<lambda>schemas. Inr \<lparr>resSchemas = schemas, resEtag = None, resNotModified = False\<rparr>)))
     (\<lambda>result.
       if resNotModified result then
         (if resEtag result = None \<or> callIfNoneMatch call = None \<or> resEtag result \<noteq> callIfNoneMatch call
          then Inl NotModifiedWithoutMatch
          else if length (resSchemas result) \<noteq> 0 then Inl NotModifiedWithSchemas
          else Inr (notModifiedResponse (callVersion call) (the (resEtag result))))
       else rbind (checkContentsPaths I U (resSchemas result) (handler \<noteq> None)) (\<lambda>_.
         rbind (rmap_err StreamErr (encodeCatalogStreams I U (callVersion call) (resEtag result)
             (sort_key (\<lambda>s. length (scPath s)) (resSchemas result)))) (\<lambda>response.
           let response' = (if crEtag response = None \<and> contentHash
                            then response\<lparr>crEtag := Some (CatalogStreamsDigest response)\<rparr> else response)
           in if crEtag response' \<noteq> None \<and> callIfNoneMatch call = crEtag response'
              then Inr (notModifiedResponse (callVersion call) (the (crEtag response')))
              else Inr response')))"

section \<open>Batches\<close>

lemma takeRows_concat:
  "takeRows pending written rows = (pending', written') \<Longrightarrow> concat written' @ pending' = concat written @ pending @ rows"
proof (induction pending written rows rule: takeRows.induct)
  case (1 pending written rows)
  define n where "n = catalogBatchRows - length pending"
  have step: "takeRows pending written rows =
      (if rows = [] then (pending, written)
       else if catalogBatchRows \<le> length (pending @ take n rows) then takeRows [] (written @ [pending @ take n rows]) (drop n rows)
       else takeRows (pending @ take n rows) written (drop n rows))"
    by (subst takeRows.simps) (simp add: Let_def n_def)
  show ?case
    using 1(1) [OF _ n_def refl] 1(2) [OF _ n_def refl] 1(3) [unfolded step] by (simp split: if_splits)
qed

lemma combineRows_concat [simp]: "concat (combineRows batches) = concat batches"
proof -
  have "concat written' @ pending' = concat written @ pending @ concat batches"
    if "foldl (\<lambda>(pending, written) rows. takeRows pending written rows) (pending, written) batches = (pending', written')"
    for pending written pending' written'
    using that
  proof (induction batches arbitrary: pending written)
    case (Cons rows batches)
    obtain p w where pw: "takeRows pending written rows = (p, w)" by (cases "takeRows pending written rows")
    then show ?case using Cons takeRows_concat [OF pw] by (simp add: append_assoc [symmetric] del: append_assoc)
  qed simp
  then show ?thesis
    by (cases "foldl (\<lambda>(pending, written) rows. takeRows pending written rows) ([], []) batches")
      (fastforce simp: combineRows_def)
qed

lemma foldResult_append: "foldResult f s (xs @ ys) = rbind (foldResult f s xs) (\<lambda>s'. foldResult f s' ys)"
proof (induction xs arbitrary: s)
  case (Cons x xs)
  then show ?case by (cases "f s x") simp_all
qed simp

lemma nullColumn_None: "nullColumn sch rows = None \<longleftrightarrow> (\<forall>row \<in> set rows. nullColumn sch [row] = None)"
proof (induction sch arbitrary: rows)
  case (Cons f fs)
  obtain name t nullable where f: "f = (name, t, nullable)" by (cases f)
  have "nullColumn fs (map tl rows) = None \<longleftrightarrow> (\<forall>row \<in> set rows. nullColumn fs [tl row] = None)"
    by (subst Cons) simp
  then show ?case by (auto simp: f list_ex_iff)
qed simp

lemma decodeBatches:
  assumes "\<forall>row \<in> set (concat batches). nullColumn sch [row] = None"
  shows "foldResult (decodeBatch I U m kind sch) st batches = foldResult (decodeRow I U m kind sch) st (concat batches)"
  using assms
proof (induction batches arbitrary: st)
  case (Cons rows batches)
  then have "nullColumn sch rows = None" unfolding nullColumn_None [of sch rows] by simp
  then show ?case using Cons by (simp add: decodeBatch_def foldResult_append cong: rbind_cong)
qed simp

section \<open>Items\<close>

definition cellsOf :: "ipc \<Rightarrow> bytes \<Rightarrow> cell list" where
  "cellsOf I item = (case ipc_read I item of Inr (_, [[cells]], _) \<Rightarrow> cells | _ \<Rightarrow> [])"

definition rowOf :: "ipc \<Rightarrow> nat \<Rightarrow> bytes \<Rightarrow> row" where
  "rowOf I kind item = zip (map fst (categorySchemas ! kind)) (cellsOf I item)"

text \<open>An item of a category: a record of its schema without nulls in required fields, of the schema with that key.\<close>

definition itemOf :: "ipc \<Rightarrow> unicode \<Rightarrow> nat \<Rightarrow> string list \<Rightarrow> bytes \<Rightarrow> bool" where
  "itemOf I U kind key item \<longleftrightarrow>
     ipc_write I (categorySchemas ! kind) (cellsOf I item) = Inr item \<and>
     nullColumn (categorySchemas ! kind) [cellsOf I item] = None \<and>
     (\<exists>path. pathOfRow kind (rowOf I kind item) = Inr path \<and> catalogCollectionPathKey U path = key)"

definition subtypeOf :: "ipc \<Rightarrow> unicode \<Rightarrow> nat \<Rightarrow> bytes \<Rightarrow> string" where
  "subtypeOf I U kind item = ToUpper U (rowEnum (rowOf I kind item) (if kind = 3 then ''function_type'' else ''macro_type''))"

definition typedItem :: "ipc \<Rightarrow> unicode \<Rightarrow> nat \<Rightarrow> string list \<Rightarrow> string set \<Rightarrow> bytes \<Rightarrow> bool" where
  "typedItem I U kind key types item \<longleftrightarrow> itemOf I U kind key item \<and> subtypeOf I U kind item \<in> types"

text \<open>A snapshot entry whose items are records of its own schema, filed under their own kind.\<close>

definition contentsOk :: "ipc \<Rightarrow> unicode \<Rightarrow> schema_contents \<Rightarrow> bool" where
  "contentsOk I U s \<longleftrightarrow>
     (let key = catalogCollectionPathKey U (scPath s) in
      itemOf I U 0 key (scSchema s) \<and> pathOfRow 0 (rowOf I 0 (scSchema s)) = Inr (scPath s) \<and>
      list_all (itemOf I U 1 key) (scTables s) \<and> list_all (itemOf I U 2 key) (scViews s) \<and>
      list_all (typedItem I U 3 key {''SCALAR''}) (scScalarFunctions s) \<and>
      list_all (typedItem I U 3 key {''AGGREGATE''}) (scAggregateFunctions s) \<and>
      list_all (typedItem I U 3 key {''TABLE'', ''TABLE_BUFFERING''}) (scTableFunctions s) \<and>
      list_all (typedItem I U 4 key {''SCALAR''}) (scScalarMacros s) \<and>
      list_all (typedItem I U 4 key {''TABLE''}) (scTableMacros s) \<and>
      list_all (itemOf I U 5 key) (scIndexes s))"

lemma readItem_write:
  "ipc_laws I \<Longrightarrow> ipc_write I sch cells = Inr item \<Longrightarrow> readItem I sch item = Inr [[cells]]"
  by (simp add: readItem_def ipc_write_ok)

text \<open>A category's stream decodes row by row, in the order of its items.\<close>

lemma decodeStream_combine:
  assumes "ipc_laws I" "CombineCatalogItems I sch items = Inr stream"
    and "list_all (\<lambda>item. ipc_write I sch (cellsOf I item) = Inr item \<and> nullColumn sch [cellsOf I item] = None) items"
  shows "decodeStream I U m st (kind, sch, stream) = foldResult (decodeRow I U m kind sch) st (map (cellsOf I) items)"
proof (cases "items = []")
  case True
  then show ?thesis using assms(2) by (simp add: CombineCatalogItems_def decodeStream_def)
next
  case False
  have "mapResult (readItem I sch) items = Inr (map (\<lambda>item. [[cellsOf I item]]) items)"
    using assms(3) readItem_write [OF assms(1)]
    by (simp add: mapResult_Inr_iff list_all2_map2 list_all2_same list_all_iff)
  moreover have "concat (concat (map (\<lambda>item. [[cellsOf I item]]) items)) = map (cellsOf I) items" by (induction items) simp_all
  ultimately obtain data where data: "ipc_stream I sch (combineRows (concat (map (\<lambda>item. [[cellsOf I item]]) items))) = Inr data"
    and stream: "stream = Some data"
    using assms(2) False by (auto simp: CombineCatalogItems_def Let_def rbind_Inr_iff rmap_err_Inr_iff)
  let ?batches = "combineRows (concat (map (\<lambda>item. [[cellsOf I item]]) items))"
  have rows: "concat ?batches = map (cellsOf I) items" by (induction items) simp_all
  have "foldResult (decodeBatch I U m kind sch) st ?batches = foldResult (decodeRow I U m kind sch) st (map (cellsOf I) items)"
    using decodeBatches [of ?batches sch] assms(3) by (simp add: rows list_all_iff)
  then show ?thesis
    using ipc_stream_ok(2) [OF assms(1) data] by (simp add: decodeStream_def stream rbind_def split: sum.split)
qed

section \<open>Entries\<close>

text \<open>The effect of a row that files its item into the entry of its schema.\<close>

definition files :: "ipc \<Rightarrow> unicode \<Rightarrow> nat \<Rightarrow> string list \<Rightarrow> (bytes \<Rightarrow> schema_contents \<Rightarrow> schema_contents) \<Rightarrow> bytes \<Rightarrow> bool" where
  "files I U kind key add item \<longleftrightarrow>
     kind \<noteq> 0 \<and> itemOf I U kind key item \<and> (\<forall>e. placeItem U kind (rowOf I kind item) item e = Inr (add item e))"

lemma decodeRow_files:
  assumes "files I U kind key add item" "map_of index key = Some (length before)"
  shows "decodeRow I U True kind (categorySchemas ! kind) (before @ e # rest, index) (cellsOf I item) =
    Inr (before @ add item e # rest, index)"
  using assms by (auto simp: files_def itemOf_def rowOf_def decodeRow_def openEntry_def)

lemma decode_entry:
  assumes "list_all (files I U kind key add) items" "map_of index key = Some (length before)"
  shows "foldResult (decodeRow I U True kind (categorySchemas ! kind)) (before @ e # rest, index) (map (cellsOf I) items) =
    Inr (before @ fold add items e # rest, index)"
  using assms
proof (induction items arbitrary: e)
  case (Cons item items)
  then show ?case by (simp add: decodeRow_files [of I U kind key add item])
qed simp

lemma decode_entries:
  assumes "\<And>s. s \<in> set schemas \<Longrightarrow> list_all (files I U kind (key s) add) (items s)"
    and "\<And>i. i < length schemas \<Longrightarrow> map_of index (key (schemas ! i)) = Some (length before + i)"
  shows "foldResult (decodeRow I U True kind (categorySchemas ! kind)) (before @ map entry schemas, index)
      (map (cellsOf I) (concat (map items schemas))) =
    Inr (before @ map (\<lambda>s. fold add (items s) (entry s)) schemas, index)"
  using assms
proof (induction schemas arbitrary: before)
  case (Cons s schemas)
  have here: "map_of index (key s) = Some (length before)" using Cons(3) [of 0] by simp
  have later: "map_of index (key (schemas ! i)) = Some (length (before @ [fold add (items s) (entry s)]) + i)"
    if "i < length schemas" for i
    using Cons(3) [of "Suc i"] that by simp
  have "foldResult (decodeRow I U True kind (categorySchemas ! kind)) (before @ map entry (s # schemas), index)
      (map (cellsOf I) (items s)) = Inr (before @ fold add (items s) (entry s) # map entry schemas, index)"
    using decode_entry [OF _ here] Cons(2) [of s] by simp
  then show ?case using Cons(1) [OF _ later] Cons(2) by (simp add: foldResult_append)
qed simp

text \<open>The schema rows: a check that passed without items also passes with them, and opens one entry per schema.\<close>

definition opened :: "schema_contents \<Rightarrow> schema_contents" where
  "opened s = (emptyContents (scPath s))\<lparr>scSchema := scSchema s\<rparr>"

lemma decode_schemas:
  assumes "foldResult (decodeRow I U False 0 SchemaInfoSchema) (out, index) (map (\<lambda>s. cellsOf I (scSchema s)) schemas) = Inr (out', index')"
    and "list_all (contentsOk I U) schemas" "length out = length out2"
  shows "foldResult (decodeRow I U True 0 SchemaInfoSchema) (out2, index) (map (\<lambda>s. cellsOf I (scSchema s)) schemas) =
      Inr (out2 @ map opened schemas, index') \<and>
    (\<forall>i < length schemas. map_of index' (catalogCollectionPathKey U (scPath (schemas ! i))) = Some (length out2 + i)) \<and>
    (\<forall>k v. map_of index k = Some v \<longrightarrow> map_of index' k = Some v)"
  using assms
proof (induction schemas arbitrary: out out2 index)
  case (Cons s schemas)
  let ?key = "catalogCollectionPathKey U (scPath s)"
  let ?item = "scSchema s"
  have path: "pathOfRow 0 (zip (map fst SchemaInfoSchema) (cellsOf I ?item)) = Inr (scPath s)"
    and wrote: "ipc_write I SchemaInfoSchema (cellsOf I ?item) = Inr ?item"
    using Cons(3) by (auto simp: contentsOk_def itemOf_def rowOf_def categorySchemas_def Let_def)
  from Cons(2) obtain st where row: "decodeRow I U False 0 SchemaInfoSchema (out, index) (cellsOf I ?item) = Inr st"
    and rows: "foldResult (decodeRow I U False 0 SchemaInfoSchema) st (map (\<lambda>s. cellsOf I (scSchema s)) schemas) = Inr (out', index')"
    by (auto simp: rbind_Inr_iff)
  from row have new: "map_of index ?key = None"
    and parent: "length (scPath s) > 1 \<longrightarrow> map_of index (catalogCollectionPathKey U (butlast (scPath s))) \<noteq> None"
    and st: "st = (out @ [(emptyContents (scPath s))\<lparr>scSchema := []\<rparr>], (?key, length out) # index)"
    by (auto simp: decodeRow_def path openEntry_def placeItem_def Let_def split: if_splits)
  have row': "decodeRow I U True 0 SchemaInfoSchema (out2, index) (cellsOf I ?item) =
      Inr (out2 @ [opened s], (?key, length out2) # index)"
    using new parent by (auto simp: decodeRow_def path openEntry_def placeItem_def Let_def wrote opened_def)
  have IH: "foldResult (decodeRow I U True 0 SchemaInfoSchema) (out2 @ [opened s], (?key, length out2) # index)
        (map (\<lambda>s. cellsOf I (scSchema s)) schemas) = Inr ((out2 @ [opened s]) @ map opened schemas, index') \<and>
      (\<forall>i < length schemas. map_of index' (catalogCollectionPathKey U (scPath (schemas ! i))) = Some (length (out2 @ [opened s]) + i)) \<and>
      (\<forall>k v. map_of ((?key, length out2) # index) k = Some v \<longrightarrow> map_of index' k = Some v)"
    using Cons(1) [OF rows [unfolded st Cons(4)], of "out2 @ [opened s]"] Cons(3,4) by simp
  have "map_of index' (catalogCollectionPathKey U (scPath ((s # schemas) ! i))) = Some (length out2 + i)"
    if "i < length (s # schemas)" for i
    using that IH by (cases i) auto
  moreover have "map_of index' k = Some v" if "map_of index k = Some v" for k v
  proof -
    have "k \<noteq> ?key" using that new by auto
    then show ?thesis using IH that by simp
  qed
  ultimately show ?case using row' IH by simp
qed simp

text \<open>What a category adds to an entry.\<close>

definition adds :: "ipc \<Rightarrow> unicode \<Rightarrow> nat \<Rightarrow> bytes \<Rightarrow> schema_contents \<Rightarrow> schema_contents" where
  "adds I U kind item e = (case placeItem U kind (rowOf I kind item) item e of Inr e' \<Rightarrow> e' | Inl _ \<Rightarrow> e)"

lemma adds_simps [simp]:
  "adds I U (Suc 0) item e = e\<lparr>scTables := scTables e @ [item]\<rparr>"
  "adds I U 2 item e = e\<lparr>scViews := scViews e @ [item]\<rparr>"
  "adds I U 5 item e = e\<lparr>scIndexes := scIndexes e @ [item]\<rparr>"
  by (simp_all add: adds_def placeItem_def)

lemma fold_adds:
  "fold (adds I U (Suc 0)) items e = e\<lparr>scTables := scTables e @ items\<rparr>"
  "fold (adds I U 2) items e = e\<lparr>scViews := scViews e @ items\<rparr>"
  "fold (adds I U 5) items e = e\<lparr>scIndexes := scIndexes e @ items\<rparr>"
  by (induction items arbitrary: e) simp_all

lemma fold_adds_functions:
  "list_all (typedItem I U 3 key {''SCALAR''}) items \<Longrightarrow>
     fold (adds I U 3) items e = e\<lparr>scScalarFunctions := scScalarFunctions e @ items\<rparr>"
  "list_all (typedItem I U 3 key {''AGGREGATE''}) items \<Longrightarrow>
     fold (adds I U 3) items e = e\<lparr>scAggregateFunctions := scAggregateFunctions e @ items\<rparr>"
  "list_all (typedItem I U 3 key {''TABLE'', ''TABLE_BUFFERING''}) items \<Longrightarrow>
     fold (adds I U 3) items e = e\<lparr>scTableFunctions := scTableFunctions e @ items\<rparr>"
  by (induction items arbitrary: e) (auto simp: adds_def placeItem_def typedItem_def subtypeOf_def Let_def)

lemma fold_adds_macros:
  "list_all (typedItem I U 4 key {''SCALAR''}) items \<Longrightarrow>
     fold (adds I U 4) items e = e\<lparr>scScalarMacros := scScalarMacros e @ items\<rparr>"
  "list_all (typedItem I U 4 key {''TABLE''}) items \<Longrightarrow>
     fold (adds I U 4) items e = e\<lparr>scTableMacros := scTableMacros e @ items\<rparr>"
  by (induction items arbitrary: e) (auto simp: adds_def placeItem_def typedItem_def subtypeOf_def Let_def)

definition itemsAt :: "nat \<Rightarrow> schema_contents \<Rightarrow> bytes list" where
  "itemsAt kind s =
     [[scSchema s], scTables s, scViews s, scScalarFunctions s @ scAggregateFunctions s @ scTableFunctions s,
      scScalarMacros s @ scTableMacros s, scIndexes s] ! kind"

lemma categoryItems_nth: "kind < 6 \<Longrightarrow> categoryItems schemas ! kind = concat (map (itemsAt kind) schemas)"
  by (cases "kind = 0"; cases "kind = 1"; cases "kind = 2"; cases "kind = 3"; cases "kind = 4"; cases "kind = 5")
    (simp_all add: categoryItems_def itemsAt_def [abs_def])

lemma files_itemsAt:
  assumes "contentsOk I U s" "0 < kind" "kind < 6"
  shows "list_all (files I U kind (catalogCollectionPathKey U (scPath s)) (adds I U kind)) (itemsAt kind s)"
proof -
  consider "kind = 1" | "kind = 2" | "kind = 3" | "kind = 4" | "kind = 5" using assms(2,3) by linarith
  then show ?thesis
    using assms(1)
    by cases (auto simp: contentsOk_def itemsAt_def list_all_iff files_def typedItem_def subtypeOf_def adds_def placeItem_def Let_def)
qed

lemma items_written:
  assumes "list_all (contentsOk I U) schemas" "kind < 6"
  shows "list_all (\<lambda>item. ipc_write I (categorySchemas ! kind) (cellsOf I item) = Inr item \<and>
    nullColumn (categorySchemas ! kind) [cellsOf I item] = None) (concat (map (itemsAt kind) schemas))"
proof (cases "kind = 0")
  case True
  then show ?thesis using assms(1) by (auto simp: list_all_iff contentsOk_def itemOf_def itemsAt_def Let_def)
next
  case False
  then have "files I U kind (catalogCollectionPathKey U (scPath s)) (adds I U kind) item"
    if "s \<in> set schemas" "item \<in> set (itemsAt kind s)" for s item
    using files_itemsAt [of I U s kind] assms that by (auto simp: list_all_iff)
  then show ?thesis by (fastforce simp: list_all_iff files_def itemOf_def)
qed

lemma encode_streams:
  assumes "encodeCatalogStreams I U v etag schemas = Inr r"
  shows "\<not> crNotModified r"
    and "kind < 6 \<Longrightarrow> CombineCatalogItems I (categorySchemas ! kind) (categoryItems schemas ! kind) = Inr (streamsOf r ! kind)"
    and "\<exists>out. decodeCatalogStreams I U r False = Inr out"
proof -
  from assms obtain streams where streams: "list_all2 (\<lambda>c x. combineCategory I c = Inr x)
      (zip [0..<6] (zip categorySchemas (categoryItems schemas))) streams"
    and r: "r = \<lparr>crVersion = v, crEtag = etag, crNotModified = False, crSchemas = streams ! 0, crTables = streams ! 1,
      crViews = streams ! 2, crFunctions = streams ! 3, crMacros = streams ! 4, crIndexes = streams ! 5\<rparr>"
    and checked: "\<exists>out. decodeCatalogStreams I U r False = Inr out"
    by (auto simp: encodeCatalogStreams_def rbind_Inr_iff mapResult_Inr_iff Let_def)
  have six: "length categorySchemas = 6" "length (categoryItems schemas) = 6"
    by (simp_all add: categorySchemas_def categoryItems_def)
  then have len: "length streams = 6" using list_all2_lengthD [OF streams] by simp
  then obtain a b c d e f where "streams = [a, b, c, d, e, f]"
    by (auto simp: length_Suc_conv eval_nat_numeral)
  then have "streamsOf r = streams" by (simp add: r streamsOf_def)
  then show "CombineCatalogItems I (categorySchemas ! kind) (categoryItems schemas ! kind) = Inr (streamsOf r ! kind)" if "kind < 6"
    using list_all2_nthD [OF streams, of kind] that six by (simp add: combineCategory_def rmap_err_Inr_iff)
  show "\<not> crNotModified r" by (simp add: r)
  show "\<exists>out. decodeCatalogStreams I U r False = Inr out" by (rule checked)
qed

text \<open>One category after another, over the entries that the schema rows opened.\<close>

fun decodedUpTo :: "ipc \<Rightarrow> unicode \<Rightarrow> nat \<Rightarrow> schema_contents \<Rightarrow> schema_contents" where
  "decodedUpTo I U 0 s = opened s"
| "decodedUpTo I U (Suc kind) s = fold (adds I U (Suc kind)) (itemsAt (Suc kind) s) (decodedUpTo I U kind s)"

lemma decodedUpTo_5: "contentsOk I U s \<Longrightarrow> decodedUpTo I U 5 s = s"
  using fold_adds [of I U] fold_adds_functions [of I U] fold_adds_macros [of I U]
  by (cases s) (auto simp: eval_nat_numeral itemsAt_def contentsOk_def opened_def emptyContents_def Let_def)

lemma decode_category:
  assumes "ipc_laws I" "list_all (contentsOk I U) schemas" "0 < kind" "kind < 6"
    and "CombineCatalogItems I (categorySchemas ! kind) (categoryItems schemas ! kind) = Inr stream"
    and index: "\<And>i. i < length schemas \<Longrightarrow> map_of index (catalogCollectionPathKey U (scPath (schemas ! i))) = Some i"
  shows "decodeStream I U True (map (decodedUpTo I U (kind - 1)) schemas, index) (kind, categorySchemas ! kind, stream) =
    Inr (map (decodedUpTo I U kind) schemas, index)"
proof -
  have "decodeStream I U True (map (decodedUpTo I U (kind - 1)) schemas, index) (kind, categorySchemas ! kind, stream) =
      foldResult (decodeRow I U True kind (categorySchemas ! kind)) ([] @ map (decodedUpTo I U (kind - 1)) schemas, index)
        (map (cellsOf I) (concat (map (itemsAt kind) schemas)))"
    using decodeStream_combine [OF assms(1,5)] items_written [OF assms(2,4)] assms(4) by (simp add: categoryItems_nth)
  also have "\<dots> = Inr ([] @ map (\<lambda>s. fold (adds I U kind) (itemsAt kind s) (decodedUpTo I U (kind - 1) s)) schemas, index)"
    using files_itemsAt [OF _ assms(3,4)] assms(2) index
    by (intro decode_entries [where key = "\<lambda>s. catalogCollectionPathKey U (scPath s)"]) (auto simp: list_all_iff)
  also have "\<dots> = Inr (map (decodedUpTo I U kind) schemas, index)" using assms(3) by (cases kind) simp_all
  finally show ?thesis .
qed

lemma categories_nth:
  "zip [0..<6] (zip categorySchemas (streamsOf r)) = map (\<lambda>k. (k, categorySchemas ! k, streamsOf r ! k)) [0..<6]"
  by (simp add: categorySchemas_def streamsOf_def upt_rec)

lemma categories_Cons:
  "zip [0..<6] (zip categorySchemas (streamsOf r)) =
    (0, categorySchemas ! 0, streamsOf r ! 0) # map (\<lambda>k. (k, categorySchemas ! k, streamsOf r ! k)) [1..<6]"
  unfolding categories_nth by (subst upt_conv_Cons) simp_all

lemma decode_encode_streams:
  assumes "ipc_laws I" "list_all (contentsOk I U) schemas" "encodeCatalogStreams I U v etag schemas = Inr r"
  shows "DecodeCatalogStreams I U r = Inr schemas"
proof -
  note combined = encode_streams(2) [OF assms(3)]
  have fresh: "\<not> crNotModified r" by (rule encode_streams(1) [OF assms(3)])
  have schemaItems: "concat (map (itemsAt 0) schemas) = map scSchema schemas" by (simp add: itemsAt_def [abs_def])
  have zero: "decodeStream I U m st (0, categorySchemas ! 0, streamsOf r ! 0) =
      foldResult (decodeRow I U m 0 SchemaInfoSchema) st (map (\<lambda>s. cellsOf I (scSchema s)) schemas)" for m st
    using decodeStream_combine [OF assms(1) combined [of 0]] items_written [OF assms(2), of 0] schemaItems
    by (simp add: categoryItems_nth categorySchemas_def comp_def)
  obtain out index where "foldResult (decodeRow I U False 0 SchemaInfoSchema) ([], [])
      (map (\<lambda>s. cellsOf I (scSchema s)) schemas) = Inr (out, index)"
    using encode_streams(3) [OF assms(3)] fresh
    by (auto simp only: decodeCatalogStreams_def categories_Cons foldResult.simps zero rbind_Inr_iff if_False)
  from decode_schemas [OF this assms(2), of "[]"]
  have opened: "decodeStream I U True ([], []) (0, categorySchemas ! 0, streamsOf r ! 0) = Inr (map (decodedUpTo I U 0) schemas, index)"
    and index: "\<And>i. i < length schemas \<Longrightarrow> map_of index (catalogCollectionPathKey U (scPath (schemas ! i))) = Some i"
    by (simp_all add: zero)
  have "foldResult (decodeStream I U True) ([], []) (map (\<lambda>k. (k, categorySchemas ! k, streamsOf r ! k)) [0..<Suc n]) =
      Inr (map (decodedUpTo I U n) schemas, index)" if "n < 6" for n
    using that
  proof (induction n)
    case 0
    then show ?case using opened by simp
  next
    case (Suc n)
    have "[0..<Suc (Suc n)] = [0..<Suc n] @ [Suc n]" by simp
    moreover have "decodeStream I U True (map (decodedUpTo I U n) schemas, index) (Suc n, categorySchemas ! Suc n, streamsOf r ! Suc n) =
        Inr (map (decodedUpTo I U (Suc n)) schemas, index)"
      using decode_category [OF assms(1,2) _ _ combined index, of "Suc n"] Suc(2) by (simp del: decodedUpTo.simps)
    ultimately show ?case
      using Suc by (simp only: map_append foldResult_append list.map foldResult.simps) (simp del: decodedUpTo.simps upt_Suc)
  qed
  from this [of 5] have "foldResult (decodeStream I U True) ([], []) (zip [0..<6] (zip categorySchemas (streamsOf r))) = Inr (schemas, index)"
    using decodedUpTo_5 assms(2) by (simp add: categories_nth list_all_iff map_idI)
  then show ?thesis using fresh by (simp add: DecodeCatalogStreams_def decodeCatalogStreams_def)
qed

section \<open>Prefix codes\<close>

text \<open>
  What a digest relies on: an encoding of which no value is a proper prefix of another's, so that the values can be read
  back one after the other. A counted list of such encodings is one again.
\<close>

locale prefix_code =
  fixes ok :: "'a \<Rightarrow> bool" and enc :: "'a \<Rightarrow> bytes"
  assumes enc_cancel: "ok x \<Longrightarrow> ok y \<Longrightarrow> enc x @ r = enc y @ s \<Longrightarrow> x = y \<and> r = s"
begin

lemma list_cancel:
  assumes "list_all ok xs" "list_all ok ys" "length xs = length ys" "concat (map enc xs) @ r = concat (map enc ys) @ s"
  shows "xs = ys \<and> r = s"
  using assms(3,1,2,4)
proof (induction xs ys rule: list_induct2)
  case (Cons x xs y ys)
  then show ?case using enc_cancel [of x y "concat (map enc xs) @ r" "concat (map enc ys) @ s"] by simp
qed simp

end

lemma countBytes_cancel:
  assumes "n < 2 ^ 64" "m < 2 ^ 64" "countBytes n @ r = countBytes m @ s"
  shows "n = m \<and> r = s"
proof -
  have "put_u64_le (word_of_nat n) = put_u64_le (word_of_nat m) \<and> r = s"
    using assms(3) unfolding countBytes_def by (subst (asm) append_eq_append_conv) simp_all
  then have "(word_of_nat n :: int64) = word_of_nat m" "r = s" by (simp_all only: put_u64_inject)
  moreover have "unat (word_of_nat n :: int64) = n" by (subst unat_of_nat) (use assms(1) in simp)
  moreover have "unat (word_of_nat m :: int64) = m" by (subst unat_of_nat) (use assms(2) in simp)
  ultimately show ?thesis by metis
qed

definition short :: "'a list \<Rightarrow> bool" where
  "short xs \<longleftrightarrow> length xs < 2 ^ 64"

interpretation chunks: prefix_code short chunkBytes
proof
  fix x y r s :: bytes
  assume "short x" "short y" "chunkBytes x @ r = chunkBytes y @ s"
  then show "x = y \<and> r = s"
    using countBytes_cancel [of "length x" "length y" "x @ r" "y @ s"] by (auto simp: short_def chunkBytes_def)
qed

interpretation parts: prefix_code short "\<lambda>part. chunkBytes (str part)"
proof
  fix x y :: string and r s :: bytes
  assume "short x" "short y" "chunkBytes (str x) @ r = chunkBytes (str y) @ s"
  then show "x = y \<and> r = s"
    using chunks.enc_cancel [of "str x" "str y" r s] by (auto simp: short_def)
qed

definition shortList :: "bytes list \<Rightarrow> bool" where
  "shortList vs \<longleftrightarrow> short vs \<and> list_all short vs"

interpretation lists: prefix_code shortList chunksBytes
proof
  fix x y :: "bytes list" and r s :: bytes
  assume "shortList x" "shortList y" "chunksBytes x @ r = chunksBytes y @ s"
  then show "x = y \<and> r = s"
    using countBytes_cancel [of "length x" "length y" "concat (map chunkBytes x) @ r" "concat (map chunkBytes y) @ s"]
      chunks.list_cancel [of x y r s]
    by (auto simp: short_def shortList_def chunksBytes_def)
qed

definition categoryLists :: "schema_contents \<Rightarrow> bytes list list" where
  "categoryLists s =
     [scTables s, scViews s, scScalarFunctions s, scAggregateFunctions s, scTableFunctions s, scScalarMacros s,
      scTableMacros s, scIndexes s]"

definition shortContents :: "schema_contents \<Rightarrow> bool" where
  "shortContents s \<longleftrightarrow> short (scPath s) \<and> list_all short (scPath s) \<and> short (scSchema s) \<and> list_all shortList (categoryLists s)"

interpretation snapshot: prefix_code shortContents schemaDigestInput
proof
  fix x y :: schema_contents and r s :: bytes
  assume ok: "shortContents x" "shortContents y" and eq: "schemaDigestInput x @ r = schemaDigestInput y @ s"
  define lists where "lists z = concat (map chunksBytes (categoryLists z))" for z
  have input: "schemaDigestInput z = countBytes (length (scPath z)) @ concat (map (\<lambda>part. chunkBytes (str part)) (scPath z)) @
      chunkBytes (scSchema z) @ lists z" for z
    by (simp add: schemaDigestInput_def categoryLists_def lists_def)
  have "length (scPath x) = length (scPath y)" and
    paths: "concat (map (\<lambda>part. chunkBytes (str part)) (scPath x)) @ (chunkBytes (scSchema x) @ lists x @ r) =
      concat (map (\<lambda>part. chunkBytes (str part)) (scPath y)) @ (chunkBytes (scSchema y) @ lists y @ s)"
    using ok eq countBytes_cancel [of "length (scPath x)" "length (scPath y)"] by (auto simp: input shortContents_def short_def)
  then have path: "scPath x = scPath y" and items: "chunkBytes (scSchema x) @ (lists x @ r) = chunkBytes (scSchema y) @ (lists y @ s)"
    using parts.list_cancel [of "scPath x" "scPath y" "chunkBytes (scSchema x) @ lists x @ r" "chunkBytes (scSchema y) @ lists y @ s"]
      ok by (auto simp: shortContents_def)
  have schema: "scSchema x = scSchema y" and rest: "lists x @ r = lists y @ s"
    using chunks.enc_cancel [OF _ _ items] ok by (auto simp: shortContents_def)
  have "categoryLists x = categoryLists y \<and> r = s"
    using lists.list_cancel [of "categoryLists x" "categoryLists y" r s] ok rest
    by (simp add: lists_def shortContents_def) (simp add: categoryLists_def)
  then show "x = y \<and> r = s" using path schema by (cases x; cases y) (simp add: categoryLists_def)
qed

text \<open>The streams of a full answer decode to the snapshot.\<close>

lemma answer_decodes:
  assumes "ipc_laws I" "callBuild call = Inr schemas" "list_all (contentsOk I U) schemas"
    and "answerCatalogContents I U None contentHash call = Inr r" "\<not> crNotModified r"
  shows "DecodeCatalogStreams I U r = Inr (sort_key (\<lambda>s. length (scPath s)) schemas)"
proof -
  let ?sorted = "sort_key (\<lambda>s. length (scPath s)) schemas"
  obtain response where enc: "encodeCatalogStreams I U (callVersion call) None ?sorted = Inr response"
    and r: "r = response \<or> r = response\<lparr>crEtag := Some (CatalogStreamsDigest response)\<rparr>"
    using assms(2,4,5)
    by (auto simp: answerCatalogContents_def rbind_Inr_iff rmap_err_Inr_iff Let_def notModifiedResponse_def split: if_splits)
  have "DecodeCatalogStreams I U response = Inr ?sorted"
    using assms(3) by (intro decode_encode_streams [OF assms(1) _ enc]) (simp add: list_all_iff)
  moreover have "DecodeCatalogStreams I U (response\<lparr>crEtag := Some e\<rparr>) = DecodeCatalogStreams I U response" for e
    using encode_streams(1) [OF enc] by (simp add: DecodeCatalogStreams_def decodeCatalogStreams_def streamsOf_def)
  ultimately show ?thesis using r by auto
qed

section \<open>A sample snapshot\<close>

definition sampleSchemaCells :: "cell list" where
  "sampleSchemaCells = [Null, Items [], Items [Str ''main''], Null, Null]"

definition sampleViewCells :: "cell list" where
  "sampleViewCells =
     [Null, Items [], Str ''v'', Items [Str ''main''], Str ''SELECT 1'', Items [], Items [], Str ''regular'']"

definition contents_ipc :: ipc where
  "contents_ipc = stream_ipc [(SchemaInfoSchema, [[sampleSchemaCells]]), (ViewInfoSchema, [[sampleViewCells]])]"

definition sampleContents :: schema_contents where
  "sampleContents = (emptyContents [''main''])\<lparr>scSchema := [0], scViews := [[1]]\<rparr>"

definition sampleCall :: "unit contents_call" where
  "sampleCall =
     \<lparr>callAttach = [], callCatalogName = ''c'', callIfNoneMatch = None, callVersion = 3, callBuild = Inr [sampleContents]\<rparr>"

lemma contents_ipc_laws: "ipc_laws contents_ipc"
  by (simp add: contents_ipc_def stream_ipc_laws)

lemmas sample_defs = sampleSchemaCells_def sampleViewCells_def sampleContents_def emptyContents_def sampleCall_def

lemma contents_ipc_simps [simp]:
  "ipc_stream contents_ipc SchemaInfoSchema [[sampleSchemaCells]] = Inr [0]"
  "ipc_stream contents_ipc ViewInfoSchema [[sampleViewCells]] = Inr [1]"
  "ipc_read contents_ipc [0] = Inr (SchemaInfoSchema, [[sampleSchemaCells]], CleanEnd)"
  "ipc_read contents_ipc [1] = Inr (ViewInfoSchema, [[sampleViewCells]], CleanEnd)"
  by (simp_all add: contents_ipc_def stream_ipc_def SchemaInfoSchema_def ViewInfoSchema_def sampleSchemaCells_def sampleViewCells_def)

lemma sample_cells [simp]: "cellsOf contents_ipc [0] = sampleSchemaCells" "cellsOf contents_ipc [1] = sampleViewCells"
  by (simp_all add: cellsOf_def)

lemma sample_ok: "contentsOk contents_ipc plain_unicode sampleContents"
  by (simp add: contentsOk_def itemOf_def rowOf_def ipc_write_def categorySchemas_def sampleContents_def emptyContents_def)
    (simp add: sampleSchemaCells_def sampleViewCells_def SchemaInfoSchema_def ViewInfoSchema_def pathOfRow_def rowColumn_def)

lemma sample_path: "checkContentsPaths I U [sampleContents] False = Inr ()"
  by (simp add: checkContentsPaths_def sampleContents_def emptyContents_def)

definition sampleResponse :: "int64 \<Rightarrow> contents_response" where
  "sampleResponse v =
     \<lparr>crVersion = v, crEtag = None, crNotModified = False, crSchemas = Some [0], crTables = None, crViews = Some [1],
      crFunctions = None, crMacros = None, crIndexes = None\<rparr>"

lemma sample_combine:
  "CombineCatalogItems contents_ipc SchemaInfoSchema [[0]] = Inr (Some [0])"
  "CombineCatalogItems contents_ipc ViewInfoSchema [[1]] = Inr (Some [1])"
  "CombineCatalogItems contents_ipc sch [] = Inr None"
  by (simp_all add: CombineCatalogItems_def readItem_def combineRows_def takeRows.simps catalogBatchRows_def)

lemma sample_paths:
  "pathOfRow 0 (zip (map fst SchemaInfoSchema) sampleSchemaCells) = Inr [''main'']"
  "pathOfRow (Suc (Suc 0)) (zip (map fst ViewInfoSchema) sampleViewCells) = Inr [''main'']"
  by (simp_all add: sampleSchemaCells_def sampleViewCells_def SchemaInfoSchema_def ViewInfoSchema_def pathOfRow_def rowColumn_def)

lemma sample_nulls: "nullColumn SchemaInfoSchema [sampleSchemaCells] = None" "nullColumn ViewInfoSchema [sampleViewCells] = None"
  by (simp_all add: sampleSchemaCells_def sampleViewCells_def SchemaInfoSchema_def ViewInfoSchema_def)

lemma sample_check: "is_ok (decodeCatalogStreams contents_ipc plain_unicode (sampleResponse v) False)"
  by (simp add: decodeCatalogStreams_def sampleResponse_def streamsOf_def categorySchemas_def upt_rec decodeStream_def
      decodeBatch_def sample_nulls decodeRow_def sample_paths openEntry_def placeItem_def Let_def)

lemma sample_streams: "encodeCatalogStreams contents_ipc plain_unicode v None [sampleContents] = Inr (sampleResponse v)"
proof -
  have "mapResult (combineCategory contents_ipc) (zip [0..<6] (zip categorySchemas (categoryItems [sampleContents]))) =
      Inr [Some [0], None, Some [1], None, None, None]"
    by (simp add: categorySchemas_def categoryItems_def sampleContents_def emptyContents_def upt_rec combineCategory_def sample_combine)
  then show ?thesis
    using sample_check [of v] by (auto simp: encodeCatalogStreams_def sampleResponse_def is_ok_iff Let_def)
qed

lemma sample_answer:
  "answerCatalogContents contents_ipc plain_unicode None False sampleCall = Inr (sampleResponse 3)"
  "answerCatalogContents contents_ipc plain_unicode None True sampleCall =
    Inr ((sampleResponse 3)\<lparr>crEtag := Some (CatalogStreamsDigest (sampleResponse 3))\<rparr>)"
  using sample_streams by (simp_all add: answerCatalogContents_def sampleCall_def sample_path sampleResponse_def Let_def)

section \<open>Properties\<close>

text \<open>
  C7. What \<open>catalog_contents\<close> serves is the snapshot: when the default composition built schemas whose items are records
  of their own schema and kind and the answer is not a revalidation, decoding the six streams gives back exactly those
  schemas with all their items in their order, parents before children.
\<close>
theorem contents_served:
  assumes "ipc_laws I" "callBuild call = Inr schemas" "list_all (contentsOk I U) schemas"
    and "answerCatalogContents I U None contentHash call = Inr r" "\<not> crNotModified r"
  shows "DecodeCatalogStreams I U r = Inr (sort_key (\<lambda>s. length (scPath s)) schemas)"
  by (rule answer_decodes [OF assms])

theorem contents_served_witness:
  "DecodeCatalogStreams contents_ipc plain_unicode (sampleResponse 3) = Inr [sampleContents]"
  using contents_served [OF contents_ipc_laws _ _ sample_answer(1), of "[sampleContents]"] sample_ok
  by (simp add: sampleCall_def sampleResponse_def)

text \<open>
  C28. Revalidation: the tag of a full answer, sent back for the same snapshot and version, gives the empty
  \<open>not_modified\<close> answer with that tag, and any other tag gives the full answer again.
\<close>
theorem contents_revalidation:
  assumes "callIfNoneMatch call = None" "answerCatalogContents I U None True call = Inr r"
  shows "\<not> crNotModified r \<and> (\<exists>etag. crEtag r = Some etag \<and>
    (\<forall>tag. answerCatalogContents I U None True (call\<lparr>callIfNoneMatch := Some tag\<rparr>) =
       Inr (if tag = etag then notModifiedResponse (callVersion call) etag else r)))"
proof -
  obtain schemas response where built: "callBuild call = Inr schemas" "checkContentsPaths I U schemas False = (Inr () :: 'a contents_err + unit)"
    and enc: "encodeCatalogStreams I U (callVersion call) None (sort_key (\<lambda>s. length (scPath s)) schemas) = Inr response"
    and r: "r = (if crEtag response = None then response\<lparr>crEtag := Some (CatalogStreamsDigest response)\<rparr> else response)"
    using assms by (auto simp: answerCatalogContents_def rbind_Inr_iff rmap_err_Inr_iff Let_def split: if_splits)
  have "\<not> crNotModified r" using encode_streams(1) [OF enc] by (simp add: r)
  moreover have "crEtag r = Some (the (crEtag r))" by (simp add: r)
  moreover have "answerCatalogContents I U None True (call\<lparr>callIfNoneMatch := Some tag\<rparr>) =
      Inr (if tag = the (crEtag r) then notModifiedResponse (callVersion call) (the (crEtag r)) else r)" for tag
    unfolding answerCatalogContents_def r
    by (cases "crEtag response") (simp_all add: built enc Let_def del: not_None_eq)
  ultimately show ?thesis by blast
qed

theorem contents_revalidation_witness:
  "answerCatalogContents contents_ipc plain_unicode None True
      (sampleCall\<lparr>callIfNoneMatch := Some (CatalogStreamsDigest (sampleResponse 3))\<rparr>) =
    Inr (notModifiedResponse 3 (CatalogStreamsDigest (sampleResponse 3)))"
  using contents_revalidation [OF _ sample_answer(2)] by (simp add: sampleCall_def)

text \<open>
  C29. The snapshot digest hashes an injective encoding: two snapshots with the same digest input are equal, so equal
  digests of different snapshots would be a SHA-256 collision.
\<close>
theorem contentsDigestInput_inject:
  assumes "short xs" "short ys" "list_all shortContents xs" "list_all shortContents ys"
    and "contentsDigestInput xs = contentsDigestInput ys"
  shows "xs = ys"
proof -
  have "length xs = length ys" "concat (map schemaDigestInput xs) @ [] = concat (map schemaDigestInput ys) @ []"
    using countBytes_cancel [of "length xs" "length ys"] assms by (auto simp: contentsDigestInput_def short_def)
  then show ?thesis using snapshot.list_cancel assms(3,4) by blast
qed

theorem contentsDigestInput_inject_witness:
  "short [sampleContents] \<and> shortContents sampleContents \<and>
    contentsDigestInput [sampleContents] \<noteq> contentsDigestInput [sampleContents\<lparr>scViews := []\<rparr>]"
proof -
  have "contentsDigestInput [sampleContents] \<noteq> contentsDigestInput [sampleContents\<lparr>scViews := []\<rparr>]"
    using contentsDigestInput_inject [of "[sampleContents]" "[sampleContents\<lparr>scViews := []\<rparr>]"]
    by (auto simp: sampleContents_def emptyContents_def short_def shortList_def shortContents_def categoryLists_def)
  then show ?thesis
    by (simp add: sampleContents_def emptyContents_def short_def shortList_def shortContents_def categoryLists_def)
qed

end
