(* ===== verification/MemoryCatalog.thy ===== *)
theory MemoryCatalog
  imports Capabilities CatalogStreams WritableConstraints
begin

text \<open>
  The in-memory DDL catalog (\<open>vgi/memory_catalog.go\<close>): private state per attach, schemas keyed by
  \<open>schemaPathKey\<close>, tables and views as serialized items keyed by lower-cased name, a version that DDL bumps.

  Go maps are association lists with distinct keys. The methods hold the catalog's mutex, so a method is one step; only
  \<open>contents\<close> takes it twice, and the model gives it the catalog at both times. A method that changes the catalog returns
  the new catalog, and its error otherwise; \<open>attach\<close> can fail after it has stored its state and returns both.
\<close>

section \<open>State\<close>

record memory_object =
  moName :: string
  moItem :: bytes

record memory_schema =
  msPath :: schema_path
  msComment :: "string option"
  msTags :: "(string \<times> string) list"
  msTables :: "(string \<times> memory_object) list"
  msViews :: "(string \<times> memory_object) list"

record memory_state =
  mVersion :: int64
  mSchemas :: "(string \<times> memory_schema) list"

datatype memory_err =
    UnknownCatalog string
  | NoEntropy
  | NotAttached
  | EmptySchemaPath
  | NoSchema schema_path
  | SchemaNotEmpty schema_path
  | AlreadyExists string string
  | NoObject string string
  | MethodNotImplemented string
  | MissingColumns
  | BadColumns row_err
  | UnsupportedSecurity string
  | RawIdentifiers
  | CapabilityErr row_err
  | ConstraintErr con_err
  | ItemErr col_err
  | RecordErr row_err
  | MissingField string

record memory_catalog =
  mcName :: string
  mcComment :: string
  mcUnversioned :: bool
  mcContentsOff :: bool
  mcHandler :: "memory_err contents_handler option"
  mcContentHash :: bool
  mcAttaches :: "(bytes \<times> memory_state) list"

definition NewMemoryCatalog :: "string \<Rightarrow> memory_catalog" where
  "NewMemoryCatalog name =
     \<lparr>mcName = name, mcComment = [], mcUnversioned = False, mcContentsOff = False, mcHandler = None, mcContentHash = False,
      mcAttaches = []\<rparr>"

definition newMemorySchema :: "schema_path \<Rightarrow> string option \<Rightarrow> (string \<times> string) list \<Rightarrow> memory_schema" where
  "newMemorySchema path comment tags =
     \<lparr>msPath = path, msComment = comment, msTags = tags, msTables = [], msViews = []\<rparr>"

definition state :: "memory_catalog \<Rightarrow> bytes \<Rightarrow> memory_err + memory_state" where
  "state m attach = (case map_of (mcAttaches m) attach of None \<Rightarrow> Inl NotAttached | Some st \<Rightarrow> Inr st)"

definition setState :: "bytes \<Rightarrow> memory_state \<Rightarrow> memory_catalog \<Rightarrow> memory_catalog" where
  "setState attach st m = m\<lparr>mcAttaches := AList.update attach st (mcAttaches m)\<rparr>"

definition bump :: "memory_state \<Rightarrow> memory_state" where
  "bump st = st\<lparr>mVersion := mVersion st + 1\<rparr>"

definition setSchema :: "string \<Rightarrow> memory_schema \<Rightarrow> memory_state \<Rightarrow> memory_state" where
  "setSchema key s st = st\<lparr>mSchemas := AList.update key s (mSchemas st)\<rparr>"

definition reportedVersion :: "memory_catalog \<Rightarrow> memory_state \<Rightarrow> int64" where
  "reportedVersion m st = (if mcUnversioned m then 0 else mVersion st)"

definition schema :: "unicode \<Rightarrow> memory_catalog \<Rightarrow> bytes \<Rightarrow> schema_path \<Rightarrow> memory_err + (memory_schema option \<times> memory_state)" where
  "schema U m attach path =
     rbind (state m attach) (\<lambda>st. Inr (map_of (mSchemas st) (schemaPathKey U path), st))"

section \<open>Attach and detach\<close>

record attach_result =
  arAvailable :: "bytes option"
  arSelected :: "bytes option"
  arAttach :: bytes
  arVersion :: int64
  arDefaultSchema :: string
  arComment :: "string option"
  arSupportsContents :: bool

definition initialState :: memory_state where
  "initialState = \<lparr>mVersion = 1, mSchemas = [(''main'', newMemorySchema [''main''] None [])]\<rparr>"

definition attachToken :: "string \<Rightarrow> bytes \<Rightarrow> bytes" where
  "attachToken name token = str (name @ [CHR 0x00] @ hex_encode token)"

text \<open>\<open>rnd\<close> is what \<open>rand.Read\<close> gave for the sixteen bytes of the token.\<close>

definition attach ::
  "ipc \<Rightarrow> bytes option \<Rightarrow> memory_catalog \<Rightarrow> string \<Rightarrow> bytes option \<Rightarrow> (memory_err + attach_result) \<times> memory_catalog" where
  "attach I rnd m name clientCapabilities =
     (if name \<noteq> mcName m then (Inl (UnknownCatalog name), m)
      else case rnd of
        None \<Rightarrow> (Inl NoEntropy, m)
      | Some token \<Rightarrow>
          let a = attachToken (mcName m) token;
              m' = setState a initialState m
          in (rbind (rmap_err CapabilityErr (mergeCapabilities I writableCapabilities None None clientCapabilities))
                (\<lambda>(available, selected). Inr
                   \<lparr>arAvailable = available, arSelected = selected, arAttach = a, arVersion = reportedVersion m initialState,
                    arDefaultSchema = ''main'', arComment = descriptorComment (mcComment m),
                    arSupportsContents = \<not> mcContentsOff m\<rparr>), m'))"

definition detach :: "memory_catalog \<Rightarrow> bytes \<Rightarrow> memory_catalog" where
  "detach m a = m\<lparr>mcAttaches := AList.delete a (mcAttaches m)\<rparr>"

definition versionRPC :: "memory_catalog \<Rightarrow> bytes \<Rightarrow> memory_err + int64" where
  "versionRPC m a = rbind (state m a) (\<lambda>st. Inr (reportedVersion m st))"

section \<open>Listing\<close>

text \<open>Parents first, then by key: a stable sort by length of the schemas sorted by key.\<close>

definition sortedSchemas :: "unicode \<Rightarrow> memory_state \<Rightarrow> memory_schema list" where
  "sortedSchemas U st =
     sort_key (\<lambda>s. length (msPath s)) (sort_key (\<lambda>s. schemaPathKey U (msPath s)) (map snd (mSchemas st)))"

definition objectItems :: "(string \<times> memory_object) list \<Rightarrow> bytes list" where
  "objectItems objs = map (\<lambda>(key, ob). moItem ob) (sort_key fst objs)"

definition schemaItem :: "ipc \<Rightarrow> memory_schema \<Rightarrow> memory_err + bytes" where
  "schemaItem I s =
     rmap_err RecordErr (SerializeSchemaInfo I
       \<lparr>siPath = msPath s, siComment = msComment s, siTags = msTags s, siEstimates = None, siOptions = None\<rparr>)"

definition schemaSnapshot :: "ipc \<Rightarrow> memory_schema \<Rightarrow> memory_err + schema_contents" where
  "schemaSnapshot I s =
     rbind (schemaItem I s) (\<lambda>item.
       Inr ((emptyContents (msPath s))\<lparr>scSchema := item, scTables := objectItems (msTables s), scViews := objectItems (msViews s)\<rparr>))"

definition snapshot :: "ipc \<Rightarrow> unicode \<Rightarrow> memory_catalog \<Rightarrow> bytes \<Rightarrow> memory_err + schema_contents list" where
  "snapshot I U m a = rbind (state m a) (\<lambda>st. mapResult (schemaSnapshot I) (sortedSchemas U st))"

text \<open>The version is read from \<open>m\<close>; the snapshot is built from \<open>m'\<close>, the catalog when the lock is taken again.\<close>

definition contents ::
  "ipc \<Rightarrow> unicode \<Rightarrow> memory_catalog \<Rightarrow> memory_catalog \<Rightarrow> bytes \<Rightarrow> string option
    \<Rightarrow> memory_err contents_err + contents_response" where
  "contents I U m m' a ifNoneMatch =
     rbind (rmap_err CatalogError (state m a)) (\<lambda>st.
       answerCatalogContents I U (mcHandler m) (mcContentHash m)
         \<lparr>callAttach = a, callCatalogName = mcName m, callIfNoneMatch = ifNoneMatch, callVersion = reportedVersion m st,
          callBuild = snapshot I U m' a\<rparr>)"

definition schemasRPC :: "ipc \<Rightarrow> unicode \<Rightarrow> memory_catalog \<Rightarrow> bytes \<Rightarrow> memory_err + bytes list" where
  "schemasRPC I U m a = rbind (state m a) (\<lambda>st. mapResult (schemaItem I) (sortedSchemas U st))"

definition schemaGet :: "ipc \<Rightarrow> unicode \<Rightarrow> memory_catalog \<Rightarrow> bytes \<Rightarrow> schema_path \<Rightarrow> memory_err + bytes list" where
  "schemaGet I U m a path =
     rbind (schema U m a path) (\<lambda>(found, st).
       case found of None \<Rightarrow> Inr [] | Some s \<Rightarrow> rbind (schemaItem I s) (\<lambda>item. Inr [item]))"

definition objects :: "bool \<Rightarrow> memory_schema \<Rightarrow> (string \<times> memory_object) list" where
  "objects views s = (if views then msViews s else msTables s)"

definition setObjects :: "bool \<Rightarrow> (string \<times> memory_object) list \<Rightarrow> memory_schema \<Rightarrow> memory_schema" where
  "setObjects views objs s = (if views then s\<lparr>msViews := objs\<rparr> else s\<lparr>msTables := objs\<rparr>)"

definition listObjects :: "unicode \<Rightarrow> memory_catalog \<Rightarrow> bytes \<Rightarrow> schema_path \<Rightarrow> bool \<Rightarrow> memory_err + bytes list" where
  "listObjects U m a path views =
     rbind (schema U m a path) (\<lambda>(found, st).
       case found of None \<Rightarrow> Inr [] | Some s \<Rightarrow> Inr (objectItems (objects views s)))"

definition getObject :: "unicode \<Rightarrow> memory_catalog \<Rightarrow> bytes \<Rightarrow> schema_path \<Rightarrow> string \<Rightarrow> bool \<Rightarrow> memory_err + bytes list" where
  "getObject U m a path name views =
     rbind (schema U m a path) (\<lambda>(found, st).
       case found of
         None \<Rightarrow> Inr []
       | Some s \<Rightarrow>
           (case map_of (objects views s) (ToLower U name) of None \<Rightarrow> Inr [] | Some ob \<Rightarrow> Inr [moItem ob]))"

section \<open>Schemas\<close>

text \<open>Whether CREATE replaces an existing object: \<open>Inr False\<close> keeps it without an error.\<close>

definition onConflictReplaces :: "unicode \<Rightarrow> string \<Rightarrow> string \<Rightarrow> string \<Rightarrow> memory_err + bool" where
  "onConflictReplaces U kind name onConflict =
     (case parseOnConflict U onConflict of
        OnConflictReplace \<Rightarrow> Inr True
      | OnConflictIgnore \<Rightarrow> Inr False
      | OnConflictError \<Rightarrow> Inl (AlreadyExists kind name))"

record schema_create =
  scrAttach :: bytes
  scrPath :: schema_path
  scrOnConflict :: string
  scrComment :: "string option"
  scrTags :: "(string \<times> string) list option"
  scrOptions :: "bytes option"

definition optionalMetadataMap :: "(string \<times> string) list option \<Rightarrow> (string \<times> string) list" where
  "optionalMetadataMap values = (case values of None \<Rightarrow> [] | Some kvs \<Rightarrow> kvs)"

definition schemaCreate :: "unicode \<Rightarrow> memory_catalog \<Rightarrow> schema_create \<Rightarrow> memory_err + memory_catalog" where
  "schemaCreate U m req =
     (if scrOptions req \<noteq> None then Inl (MethodNotImplemented ''catalog_schema_create options'')
      else rbind (schema U m (scrAttach req) (scrPath req)) (\<lambda>(existing, st).
        if length (scrPath req) = 0 then Inl EmptySchemaPath
        else rbind (if existing = None then Inr True
                    else onConflictReplaces U ''Schema'' (schemaPathDisplay (scrPath req)) (scrOnConflict req)) (\<lambda>replace.
          if \<not> replace then Inr m
          else if length (scrPath req) > 1 \<and> map_of (mSchemas st) (schemaPathKey U (butlast (scrPath req))) = None
          then Inl (NoSchema (butlast (scrPath req)))
          else Inr (setState (scrAttach req)
            (bump (setSchema (schemaPathKey U (scrPath req))
              (newMemorySchema (scrPath req) (scrComment req) (optionalMetadataMap (scrTags req))) st)) m))))"

definition childKeys :: "string \<Rightarrow> (string \<times> memory_schema) list \<Rightarrow> string list" where
  "childKeys key schemas = filter (\<lambda>k. take (Suc (length key)) k = key @ [CHR 0x00]) (map fst schemas)"

definition schemaDrop ::
  "unicode \<Rightarrow> memory_catalog \<Rightarrow> bytes \<Rightarrow> schema_path \<Rightarrow> bool \<Rightarrow> bool \<Rightarrow> memory_err + memory_catalog" where
  "schemaDrop U m a path ignoreNotFound cascade =
     rbind (schema U m a path) (\<lambda>(found, st).
       case found of
         None \<Rightarrow> if ignoreNotFound then Inr m else Inl (NoSchema path)
       | Some s \<Rightarrow>
           let key = schemaPathKey U path; children = childKeys key (mSchemas st) in
           if \<not> cascade \<and> (length (msTables s) > 0 \<or> length (msViews s) > 0 \<or> length children > 0)
           then Inl (SchemaNotEmpty path)
           else Inr (setState a
             (bump (st\<lparr>mSchemas := AList.delete key (fold AList.delete children (mSchemas st))\<rparr>)) m))"

section \<open>Tables and views\<close>

definition putObject ::
  "unicode \<Rightarrow> memory_catalog \<Rightarrow> bytes \<Rightarrow> schema_path \<Rightarrow> string \<Rightarrow> string \<Rightarrow> string \<Rightarrow> bool \<Rightarrow> bytes \<Rightarrow> memory_err + memory_catalog" where
  "putObject U m a path name kind onConflict views item =
     rbind (schema U m a path) (\<lambda>(found, st).
       case found of
         None \<Rightarrow> Inl (NoSchema path)
       | Some s \<Rightarrow>
           let objs = objects views s; key = ToLower U name in
           rbind (if map_of objs key = None then Inr True else onConflictReplaces U kind name onConflict) (\<lambda>replace.
             if \<not> replace then Inr m
             else Inr (setState a
               (bump (setSchema (schemaPathKey U path)
                 (setObjects views (AList.update key \<lparr>moName = name, moItem = item\<rparr> objs) s) st)) m)))"

definition dropObject ::
  "unicode \<Rightarrow> memory_catalog \<Rightarrow> bytes \<Rightarrow> schema_path \<Rightarrow> string \<Rightarrow> string \<Rightarrow> bool \<Rightarrow> bool \<Rightarrow> memory_err + memory_catalog" where
  "dropObject U m a path name kind ignoreNotFound views =
     rbind (schema U m a path) (\<lambda>(found, st).
       let key = ToLower U name;
           missing = (if ignoreNotFound then Inr m else Inl (NoObject kind name))
       in case found of
            None \<Rightarrow> missing
          | Some s \<Rightarrow>
              if map_of (objects views s) key = None then missing
              else Inr (setState a
                (bump (setSchema (schemaPathKey U path) (setObjects views (AList.delete key (objects views s)) s) st)) m))"

record table_create =
  tcrAttach :: bytes
  tcrSchemaPath :: schema_path
  tcrName :: string
  tcrColumns :: bytes
  tcrOnConflict :: string
  tcrConstraints :: "bytes list"
  tcrComment :: "string option"
  tcrTags :: "(string \<times> string) list option"
  tcrOptions :: "bytes option"
  tcrLayout :: "bytes option"

definition tableItem ::
  "ipc \<Rightarrow> schema_codec \<Rightarrow> unicode \<Rightarrow> rune_tables \<Rightarrow> table_create \<Rightarrow> memory_err + bytes" where
  "tableItem I S U R req =
     (if tcrComment req \<noteq> None \<or> tcrTags req \<noteq> None \<or> tcrOptions req \<noteq> None \<or> tcrLayout req \<noteq> None
      then Inl (MethodNotImplemented ''catalog_table_create'')
      else if length (tcrColumns req) = 0 then Inl MissingColumns
      else rbind (rmap_err BadColumns (DeserializeSchema S (tcrColumns req))) (\<lambda>columns.
        rbind (rmap_err ConstraintErr (notNullRecords I U R (tcrSchemaPath req) (tcrName req) columns (tcrConstraints req)))
          (\<lambda>(records, required).
        rbind (rmap_err ConstraintErr (requireUnconstrainedCreateSchema columns required)) (\<lambda>_.
          rmap_err ItemErr (SerializeTableInfo I S U R
            (plainTableInfo (tcrName req) (tcrSchemaPath req) (Some columns) records))))))"

definition tableCreate ::
  "ipc \<Rightarrow> schema_codec \<Rightarrow> unicode \<Rightarrow> rune_tables \<Rightarrow> memory_catalog \<Rightarrow> table_create \<Rightarrow> memory_err + memory_catalog" where
  "tableCreate I S U R m req =
     rbind (tableItem I S U R req) (\<lambda>item.
       putObject U m (tcrAttach req) (tcrSchemaPath req) (tcrName req) ''Table'' (tcrOnConflict req) False item)"

record view_create =
  vcrAttach :: bytes
  vcrSchemaPath :: schema_path
  vcrName :: string
  vcrDefinition :: string
  vcrOnConflict :: string
  vcrAliases :: "string list option"
  vcrSecurity :: string
  vcrComment :: "string option"
  vcrTags :: "(string \<times> string) list option"
  vcrColumnComments :: "(string \<times> string) list option"

definition rawIdentifier :: "string \<Rightarrow> bool" where
  "rawIdentifier name \<longleftrightarrow> name \<noteq> [] \<and> CHR 0x00 \<notin> set name"

definition viewItem :: "ipc \<Rightarrow> view_create \<Rightarrow> memory_err + bytes" where
  "viewItem I req =
     (if vcrSecurity req \<noteq> ''regular'' then Inl (UnsupportedSecurity (vcrSecurity req))
      else if \<not> list_all (\<lambda>(name, _). rawIdentifier name) (optionalMetadataMap (vcrColumnComments req)) then Inl RawIdentifiers
      else rmap_err ItemErr (SerializeViewInfo I
        \<lparr>viName = vcrName req, viSchemaPath = vcrSchemaPath req, viComment = vcrComment req,
         viTags = optionalMetadataMap (vcrTags req), viDefinition = vcrDefinition req,
         viAliases = (case vcrAliases req of None \<Rightarrow> [] | Some aliases \<Rightarrow> aliases), viSecurity = [],
         viColumnComments = optionalMetadataMap (vcrColumnComments req)\<rparr>))"

definition viewCreate :: "ipc \<Rightarrow> unicode \<Rightarrow> memory_catalog \<Rightarrow> view_create \<Rightarrow> memory_err + memory_catalog" where
  "viewCreate I U m req =
     rbind (viewItem I req) (\<lambda>item.
       putObject U m (vcrAttach req) (vcrSchemaPath req) (vcrName req) ''View'' (vcrOnConflict req) True item)"

section \<open>Comments\<close>

text \<open>\<open>FieldIndices(name)[0]\<close>; the program stops where the schema has no such field, which is an error here.\<close>

definition fieldIndex :: "cschema \<Rightarrow> string \<Rightarrow> memory_err + nat" where
  "fieldIndex sch name =
     (case filter (\<lambda>i. fst (sch ! i) = name) [0..<length sch] of [] \<Rightarrow> Inl (MissingField name) | i # _ \<Rightarrow> Inr i)"

fun mapEntry :: "cell \<Rightarrow> string \<times> string" where
  "mapEntry (Struct fs) = (cellString (rowColumn fs ''key''), cellString (rowColumn fs ''value''))"
| "mapEntry c = ([], [])"

text \<open>The Go map of a map column: a later entry of the same key wins.\<close>

definition readMap :: "cell \<Rightarrow> (string \<times> string) list" where
  "readMap c = foldl (\<lambda>kvs e. AList.update (fst (mapEntry e)) (snd (mapEntry e)) kvs) [] (cellItems c)"

definition commentChange :: "cschema \<Rightarrow> cell list \<Rightarrow> string option \<Rightarrow> string option \<Rightarrow> memory_err + view_info" where
  "commentChange sch cells column comment =
     (let info = \<lparr>viName = [], viSchemaPath = [], viComment = comment, viTags = [], viDefinition = [], viAliases = [],
                  viSecurity = [], viColumnComments = []\<rparr>
      in case column of
           None \<Rightarrow> Inr info
         | Some name \<Rightarrow>
             rbind (fieldIndex sch ''column_comments'') (\<lambda>i.
               let comments = readMap (cells ! i) in
               Inr (info\<lparr>viColumnComments :=
                 (case comment of None \<Rightarrow> AList.delete name comments | Some c \<Rightarrow> AList.update name c comments)\<rparr>)))"

text \<open>The stored record with the one column replaced; a record of another number of rows stops the program.\<close>

definition changedItem :: "ipc \<Rightarrow> bytes \<Rightarrow> string option \<Rightarrow> string option \<Rightarrow> memory_err + bytes" where
  "changedItem I item column comment =
     rbind (rmap_err RecordErr (DeserializeRecordBatch I item)) (\<lambda>(sch, rows).
       case rows of
         [cells] \<Rightarrow>
           (let field = (if column = None then ''comment'' else ''column_comments'') in
            rbind (commentChange sch cells column comment) (\<lambda>info.
            rbind (rmap_err ItemErr (SerializeViewInfo I info)) (\<lambda>encoded.
            rbind (rmap_err RecordErr (DeserializeRecordBatch I encoded)) (\<lambda>(sch', rows').
            rbind (fieldIndex sch field) (\<lambda>i.
            rbind (fieldIndex sch' field) (\<lambda>j.
              rmap_err RecordErr (ipc_write I sch (cells[i := hd rows' ! j]))))))))
       | _ \<Rightarrow> Inl (MissingField ''record''))"

definition changeViewComment ::
  "ipc \<Rightarrow> unicode \<Rightarrow> memory_catalog \<Rightarrow> bytes \<Rightarrow> schema_path \<Rightarrow> string \<Rightarrow> string option \<Rightarrow> string option \<Rightarrow> bool
    \<Rightarrow> memory_err + memory_catalog" where
  "changeViewComment I U m a path name column comment ignoreNotFound =
     rbind (schema U m a path) (\<lambda>(found, st).
       let key = ToLower U name in
       case (case found of None \<Rightarrow> None | Some s \<Rightarrow> map_option (Pair s) (map_of (msViews s) key)) of
         None \<Rightarrow> if ignoreNotFound then Inr m else Inl (NoObject ''View'' name)
       | Some (s, view) \<Rightarrow>
           rbind (changedItem I (moItem view) column comment) (\<lambda>item.
             Inr (setState a
               (bump (setSchema (schemaPathKey U path)
                 (setObjects True (AList.update key (view\<lparr>moItem := item\<rparr>) (msViews s)) s) st)) m)))"

definition viewColumnCommentSet ::
  "ipc \<Rightarrow> unicode \<Rightarrow> memory_catalog \<Rightarrow> bytes \<Rightarrow> schema_path \<Rightarrow> string \<Rightarrow> string list \<Rightarrow> string option \<Rightarrow> bool
    \<Rightarrow> memory_err + memory_catalog" where
  "viewColumnCommentSet I U m a path name columnPath comment ignoreNotFound =
     (if length columnPath \<noteq> 1 \<or> \<not> rawIdentifier (hd columnPath) then Inl RawIdentifiers
      else changeViewComment I U m a path name (Some (hd columnPath)) comment ignoreNotFound)"

section \<open>The methods\<close>

datatype memory_request =
    CatalogAttach "bytes option" string "bytes option"
  | CatalogDetach bytes
  | CatalogVersion bytes
  | CatalogContents bytes "string option"
  | CatalogTransactionBegin
  | CatalogTransactionCommit
  | CatalogTransactionRollback
  | CatalogSchemas bytes
  | CatalogSchemaGet bytes schema_path
  | CatalogSchemaCreate schema_create
  | CatalogSchemaDrop bytes schema_path bool bool
  | CatalogSchemaContentsTables bytes schema_path
  | CatalogSchemaContentsViews bytes schema_path
  | CatalogSchemaContentsFunctions
  | CatalogSchemaContentsMacros
  | CatalogCopyFromFormats
  | CatalogTableGet bytes schema_path string
  | CatalogTableCreate table_create
  | CatalogTableDrop bytes schema_path string bool
  | CatalogViewGet bytes schema_path string
  | CatalogViewCreate view_create
  | CatalogViewDrop bytes schema_path string bool
  | CatalogViewCommentSet bytes schema_path string "string option" bool
  | CatalogViewColumnCommentSet bytes schema_path string "string list" "string option" bool
  | CatalogMacroGet

datatype memory_response =
    Attached attach_result
  | Void
  | Version int64
  | ItemList "bytes list"
  | Contents contents_response
  | NoTransaction

type_synonym memory_outcome = "(memory_err contents_err + memory_response) \<times> memory_catalog"

definition reads :: "memory_catalog \<Rightarrow> (memory_err + memory_response) \<Rightarrow> memory_outcome" where
  "reads m r = (rmap_err CatalogError r, m)"

definition changes :: "memory_catalog \<Rightarrow> (memory_err + memory_catalog) \<Rightarrow> memory_outcome" where
  "changes m r = (case r of Inl e \<Rightarrow> (Inl (CatalogError e), m) | Inr m' \<Rightarrow> (Inr Void, m'))"

definition itemsOf :: "memory_err + bytes list \<Rightarrow> memory_err + memory_response" where
  "itemsOf r = rbind r (\<lambda>items. Inr (ItemList items))"

fun serve ::
  "ipc \<Rightarrow> schema_codec \<Rightarrow> unicode \<Rightarrow> rune_tables \<Rightarrow> memory_catalog \<Rightarrow> memory_request \<Rightarrow> memory_outcome" where
  "serve I S U R m (CatalogAttach rnd name caps) =
     (let (r, m') = attach I rnd m name caps in (rmap_err CatalogError (rbind r (\<lambda>res. Inr (Attached res))), m'))"
| "serve I S U R m (CatalogDetach a) = (Inr Void, detach m a)"
| "serve I S U R m (CatalogVersion a) = reads m (rbind (versionRPC m a) (\<lambda>v. Inr (Version v)))"
| "serve I S U R m (CatalogContents a tag) = (rbind (contents I U m m a tag) (\<lambda>r. Inr (Contents r)), m)"
| "serve I S U R m CatalogTransactionBegin = reads m (Inr NoTransaction)"
| "serve I S U R m CatalogTransactionCommit = reads m (Inr Void)"
| "serve I S U R m CatalogTransactionRollback = reads m (Inr Void)"
| "serve I S U R m (CatalogSchemas a) = reads m (itemsOf (schemasRPC I U m a))"
| "serve I S U R m (CatalogSchemaGet a path) = reads m (itemsOf (schemaGet I U m a path))"
| "serve I S U R m (CatalogSchemaCreate req) = changes m (schemaCreate U m req)"
| "serve I S U R m (CatalogSchemaDrop a path ignore cascade) = changes m (schemaDrop U m a path ignore cascade)"
| "serve I S U R m (CatalogSchemaContentsTables a path) = reads m (itemsOf (listObjects U m a path False))"
| "serve I S U R m (CatalogSchemaContentsViews a path) = reads m (itemsOf (listObjects U m a path True))"
| "serve I S U R m CatalogSchemaContentsFunctions = reads m (Inr (ItemList []))"
| "serve I S U R m CatalogSchemaContentsMacros = reads m (Inr (ItemList []))"
| "serve I S U R m CatalogCopyFromFormats = reads m (Inr (ItemList []))"
| "serve I S U R m (CatalogTableGet a path name) = reads m (itemsOf (getObject U m a path name False))"
| "serve I S U R m (CatalogTableCreate req) = changes m (tableCreate I S U R m req)"
| "serve I S U R m (CatalogTableDrop a path name ignore) = changes m (dropObject U m a path name ''Table'' ignore False)"
| "serve I S U R m (CatalogViewGet a path name) = reads m (itemsOf (getObject U m a path name True))"
| "serve I S U R m (CatalogViewCreate req) = changes m (viewCreate I U m req)"
| "serve I S U R m (CatalogViewDrop a path name ignore) = changes m (dropObject U m a path name ''View'' ignore True)"
| "serve I S U R m (CatalogViewCommentSet a path name comment ignore) =
     changes m (changeViewComment I U m a path name None comment ignore)"
| "serve I S U R m (CatalogViewColumnCommentSet a path name column comment ignore) =
     changes m (viewColumnCommentSet I U m a path name column comment ignore)"
| "serve I S U R m CatalogMacroGet = reads m (Inr (ItemList []))"

section \<open>Every change is one version step of one attach\<close>

definition stepped :: "memory_catalog \<Rightarrow> bytes \<Rightarrow> memory_catalog \<Rightarrow> bool" where
  "stepped m a m' \<longleftrightarrow>
     m' = m \<or> (\<exists>st st'. state m a = Inr st \<and> mVersion st' = mVersion st \<and> m' = setState a (bump st') m)"

lemma stepped_refl [simp]: "stepped m a m"
  by (simp add: stepped_def)

lemma steppedI:
  "state m a = Inr st \<Longrightarrow> mVersion st' = mVersion st \<Longrightarrow> stepped m a (setState a (bump st') m)"
  by (auto simp: stepped_def)

lemma schema_Inr_iff:
  "schema U m a path = Inr (found, st) \<longleftrightarrow> state m a = Inr st \<and> found = map_of (mSchemas st) (schemaPathKey U path)"
  by (auto simp: schema_def rbind_Inr_iff)

lemma mVersion_simps [simp]:
  "mVersion (setSchema key s st) = mVersion st" "mVersion (bump st) = mVersion st + 1"
  "mSchemas (bump st) = mSchemas st" "mSchemas (setSchema key s st) = AList.update key s (mSchemas st)"
  by (simp_all add: setSchema_def bump_def)

lemma schemaCreate_stepped: "schemaCreate U m req = Inr m' \<Longrightarrow> stepped m (scrAttach req) m'"
  by (auto simp: schemaCreate_def rbind_Inr_iff schema_Inr_iff intro!: steppedI split: if_splits)

lemma schemaDrop_stepped: "schemaDrop U m a path ignore cascade = Inr m' \<Longrightarrow> stepped m a m'"
  by (auto simp: schemaDrop_def rbind_Inr_iff schema_Inr_iff Let_def intro!: steppedI split: if_splits option.splits)

lemma putObject_stepped: "putObject U m a path name kind onConflict views item = Inr m' \<Longrightarrow> stepped m a m'"
  by (auto simp: putObject_def rbind_Inr_iff schema_Inr_iff Let_def intro!: steppedI split: if_splits option.splits)

lemma dropObject_stepped: "dropObject U m a path name kind ignore views = Inr m' \<Longrightarrow> stepped m a m'"
  by (auto simp: dropObject_def rbind_Inr_iff schema_Inr_iff Let_def intro!: steppedI split: if_splits option.splits)

lemma changeViewComment_stepped: "changeViewComment I U m a path name column comment ignore = Inr m' \<Longrightarrow> stepped m a m'"
  by (auto simp: changeViewComment_def rbind_Inr_iff schema_Inr_iff Let_def intro!: steppedI split: if_splits option.splits)

lemma tableCreate_stepped: "tableCreate I S U R m req = Inr m' \<Longrightarrow> stepped m (tcrAttach req) m'"
  by (auto simp: tableCreate_def rbind_Inr_iff dest: putObject_stepped)

lemma viewCreate_stepped: "viewCreate I U m req = Inr m' \<Longrightarrow> stepped m (vcrAttach req) m'"
  by (auto simp: viewCreate_def rbind_Inr_iff dest: putObject_stepped)

lemma viewColumnCommentSet_stepped:
  "viewColumnCommentSet I U m a path name column comment ignore = Inr m' \<Longrightarrow> stepped m a m'"
  by (auto simp: viewColumnCommentSet_def dest: changeViewComment_stepped split: if_splits)

text \<open>The attach a request works on; a fresh attach works on the token it mints.\<close>

fun requestAttach :: "memory_catalog \<Rightarrow> memory_request \<Rightarrow> bytes option" where
  "requestAttach m (CatalogAttach rnd name caps) = map_option (attachToken (mcName m)) rnd"
| "requestAttach m (CatalogDetach a) = Some a"
| "requestAttach m (CatalogSchemaCreate req) = Some (scrAttach req)"
| "requestAttach m (CatalogSchemaDrop a path ignore cascade) = Some a"
| "requestAttach m (CatalogTableCreate req) = Some (tcrAttach req)"
| "requestAttach m (CatalogTableDrop a path name ignore) = Some a"
| "requestAttach m (CatalogViewCreate req) = Some (vcrAttach req)"
| "requestAttach m (CatalogViewDrop a path name ignore) = Some a"
| "requestAttach m (CatalogViewCommentSet a path name comment ignore) = Some a"
| "requestAttach m (CatalogViewColumnCommentSet a path name column comment ignore) = Some a"
| "requestAttach m req = None"

lemma changes_stepped:
  assumes "\<And>m'. r = Inr m' \<Longrightarrow> stepped m a m'"
  shows "stepped m a (snd (changes m r))"
  using assms by (cases r) (auto simp: changes_def stepped_def)

lemma snd_reads [simp]: "snd (reads m r) = m"
  by (simp add: reads_def)

lemmas op_stepped = schemaCreate_stepped schemaDrop_stepped putObject_stepped dropObject_stepped changeViewComment_stepped
  tableCreate_stepped viewCreate_stepped viewColumnCommentSet_stepped

lemma serve_stepped:
  "(\<exists>rnd name caps. req = CatalogAttach rnd name caps) \<or> (\<exists>a. req = CatalogDetach a) \<or>
   (\<exists>a. requestAttach m req = Some a \<and> stepped m a (snd (serve I S U R m req))) \<or> snd (serve I S U R m req) = m"
  by (cases req) (auto intro!: changes_stepped dest: op_stepped)

text \<open>Other attaches keep their state, and an attach's state changes only with its version.\<close>

lemma setState_other [simp]: "b \<noteq> a \<Longrightarrow> map_of (mcAttaches (setState a st m)) b = map_of (mcAttaches m) b"
  by (simp add: setState_def update_conv')

lemma setState_same [simp]: "map_of (mcAttaches (setState a st m)) a = Some st"
  by (simp add: setState_def update_conv')

lemma serve_other:
  assumes "requestAttach m req \<noteq> Some b"
  shows "map_of (mcAttaches (snd (serve I S U R m req))) b = map_of (mcAttaches m) b"
proof -
  have keep: "map_of (mcAttaches m') b = map_of (mcAttaches m) b" if "stepped m a m'" "a \<noteq> b" for a m'
    using that by (auto simp: stepped_def)
  consider rnd name caps where "req = CatalogAttach rnd name caps" | a where "req = CatalogDetach a"
    | a where "requestAttach m req = Some a" "stepped m a (snd (serve I S U R m req))" | "snd (serve I S U R m req) = m"
    using serve_stepped [of req m I S U R] by blast
  then show ?thesis
  proof cases
    case 1
    then show ?thesis using assms by (auto simp: attach_def Let_def split: option.splits)
  next
    case 2
    then show ?thesis using assms by (auto simp: detach_def delete_conv')
  next
    case 3
    have "a \<noteq> b" using 3(1) assms by simp
    then show ?thesis by (rule keep [OF 3(2)])
  next
    case 4
    then show ?thesis by (rule arg_cong)
  qed
qed

end
