(* ===== verification/MemoryContents.thy ===== *)
theory MemoryContents
  imports MemoryCatalog "HOL-Library.Multiset"
begin

text \<open>
  What holds of every memory catalog a sequence of requests leads to: keys, parents and stored items agree, so that
  \<open>catalog_contents\<close> decodes to what the listing methods return. Requests name their schemas by non-empty paths without
  NUL, as \<open>schemaPathKey\<close> supposes.
\<close>

section \<open>Paths\<close>

definition named :: "unicode \<Rightarrow> schema_path \<Rightarrow> bool" where
  "named U path \<longleftrightarrow> path \<noteq> [] \<and> list_all (\<lambda>p. CHR 0x00 \<notin> set (ToLower U p)) path"

lemma named_keys:
  assumes "named U p" "named U q" "schemaPathKey U p = schemaPathKey U q"
  shows "catalogCollectionPathKey U p = catalogCollectionPathKey U q" "length p = length q"
proof -
  have "map (ToLower U) p = map (ToLower U) q"
    using assms unfolding named_def by (intro schemaPathKey_inject) simp_all
  moreover have "catalogCollectionPathKey U r = map coerceUTF8 (map (ToLower U) r)" for r
    by (simp add: catalogCollectionPathKey_def)
  ultimately show "catalogCollectionPathKey U p = catalogCollectionPathKey U q" "length p = length q"
    by (metis, metis length_map)
qed

lemma Join_snoc: "ps \<noteq> [] \<Longrightarrow> Join (ps @ [q]) sep = Join ps sep @ sep @ q"
  by (induction ps sep rule: Join.induct) simp_all

lemma schemaPathKey_parent:
  assumes "length path > 1"
  shows "\<exists>q. schemaPathKey U path = schemaPathKey U (butlast path) @ CHR 0x00 # q"
proof -
  have "path \<noteq> []" using assms by auto
  then have "path = butlast path @ [last path]" by simp
  then have "map (ToLower U) path = map (ToLower U) (butlast path) @ [ToLower U (last path)]"
    by (metis list.simps(8) list.simps(9) map_append)
  moreover have "map (ToLower U) (butlast path) \<noteq> []"
    using assms by (simp add: length_greater_0_conv [symmetric] del: length_greater_0_conv)
  ultimately
  show ?thesis by (simp add: schemaPathKey_def Join_snoc)
qed

section \<open>Items\<close>

lemma item_cells:
  assumes "ipc_laws I" "ipc_write I sch cells = Inr item"
  shows "cellsOf I item = cells"
  by (simp add: cellsOf_def ipc_write_ok [OF assms])

lemma pathOfRow_pathCell:
  assumes "rowColumn row (if kind = 0 then ''path'' else ''schema_path'') = pathCell path" "path \<noteq> []"
  shows "pathOfRow kind row = Inr path"
proof -
  have "list_ex (\<lambda>c. c = Null) (map Str path) = False" by (auto simp: list_ex_iff)
  then show ?thesis using assms by (simp add: pathOfRow_def pathCell_def Let_def)
qed

lemma table_item:
  assumes "ipc_laws I" "SerializeTableInfo I S U R info = Inr item" "tiSchemaPath info \<noteq> []"
  shows "itemOf I U 1 (catalogCollectionPathKey U (tiSchemaPath info)) item"
proof -
  obtain columns where wrote: "ipc_write I TableInfoSchema (tableInfoCells info columns) = Inr item"
    using assms(2) by (auto simp: SerializeTableInfo_def rbind_Inr_iff rmap_err_Inr_iff)
  have "pathOfRow 1 (zip (map fst TableInfoSchema) (tableInfoCells info columns)) = Inr (tiSchemaPath info)"
    using assms(3) by (intro pathOfRow_pathCell) (simp_all add: TableInfoSchema_def tableInfoCells_def rowColumn_def)
  moreover have "nullColumn TableInfoSchema [tableInfoCells info columns] = None"
    by (simp add: TableInfoSchema_def tableInfoCells_def)
  ultimately show ?thesis
    using wrote by (simp add: itemOf_def rowOf_def item_cells [OF assms(1) wrote] categorySchemas_def)
qed

lemma view_item:
  assumes "ipc_laws I" "SerializeViewInfo I info = Inr item" "viSchemaPath info \<noteq> []"
  shows "itemOf I U 2 (catalogCollectionPathKey U (viSchemaPath info)) item"
proof -
  obtain security where wrote: "ipc_write I ViewInfoSchema (viewInfoCells info security) = Inr item"
    using assms(2) by (auto simp: SerializeViewInfo_def rmap_err_Inr_iff Let_def split: if_splits)
  have "pathOfRow 2 (zip (map fst ViewInfoSchema) (viewInfoCells info security)) = Inr (viSchemaPath info)"
    using assms(3) by (intro pathOfRow_pathCell) (simp_all add: ViewInfoSchema_def viewInfoCells_def rowColumn_def)
  moreover have "nullColumn ViewInfoSchema [viewInfoCells info security] = None"
    by (simp add: ViewInfoSchema_def viewInfoCells_def)
  ultimately show ?thesis
    using wrote by (simp add: itemOf_def rowOf_def item_cells [OF assms(1) wrote] categorySchemas_def)
qed

lemma schema_item:
  assumes "ipc_laws I" "SerializeSchemaInfo I info = Inr item" "siPath info \<noteq> []"
  shows "itemOf I U 0 (catalogCollectionPathKey U (siPath info)) item \<and> pathOfRow 0 (rowOf I 0 item) = Inr (siPath info)"
proof -
  have wrote: "ipc_write I SchemaInfoSchema (schemaInfoCells info) = Inr item"
    using assms(2) by (simp add: SerializeSchemaInfo_def)
  have "pathOfRow 0 (zip (map fst SchemaInfoSchema) (schemaInfoCells info)) = Inr (siPath info)"
    using assms(3) by (intro pathOfRow_pathCell) (simp_all add: SchemaInfoSchema_def schemaInfoCells_def rowColumn_def)
  moreover have "nullColumn SchemaInfoSchema [schemaInfoCells info] = None"
    by (simp add: SchemaInfoSchema_def schemaInfoCells_def)
  ultimately show ?thesis
    using wrote by (simp add: itemOf_def rowOf_def item_cells [OF assms(1) wrote] categorySchemas_def)
qed

text \<open>A change of a comment keeps the item an item of its schema.\<close>

lemma fieldIndex_view:
  "fieldIndex ViewInfoSchema ''comment'' = Inr 0" "fieldIndex ViewInfoSchema ''column_comments'' = Inr 5"
  by (simp_all add: fieldIndex_def ViewInfoSchema_def upt_rec)

lemma nullColumn_row:
  "nullColumn sch [row] = None \<longleftrightarrow> (\<forall>i < min (length sch) (length row). snd (snd (sch ! i)) \<or> row ! i \<noteq> Null)"
proof (induction sch arbitrary: row)
  case (Cons f fs)
  obtain name t nullable where f: "f = (name, t, nullable)" by (cases f)
  show ?case using Cons [of "tl row"] by (cases row) (auto simp: f All_less_Suc2)
qed simp

lemma view_row_prefix:
  assumes "pathOfRow 2 (zip (map fst ViewInfoSchema) cells) = Inr path"
  shows "\<exists>c0 c1 c2 c3 rest. cells = c0 # c1 # c2 # c3 # rest"
  using assms
  by (cases cells; cases "tl cells"; cases "tl (tl cells)"; cases "tl (tl (tl cells))")
    (auto simp: ViewInfoSchema_def pathOfRow_def rowColumn_def)

lemma view_row_update:
  assumes "pathOfRow 2 (zip (map fst ViewInfoSchema) cells) = Inr path" "nullColumn ViewInfoSchema [cells] = None"
    and "i = 0 \<or> i = 5 \<and> c \<noteq> Null"
  shows "pathOfRow 2 (zip (map fst ViewInfoSchema) (cells[i := c])) = Inr path" "nullColumn ViewInfoSchema [cells[i := c]] = None"
proof -
  obtain c0 c1 c2 c3 rest where cells: "cells = c0 # c1 # c2 # c3 # rest"
    using view_row_prefix [OF assms(1)] by blast
  have five: "cells[5 := c] = c0 # c1 # c2 # c3 # rest[1 := c]" by (simp add: cells eval_nat_numeral)
  show "pathOfRow 2 (zip (map fst ViewInfoSchema) (cells[i := c])) = Inr path"
    using assms(1,3) five by (auto simp: cells ViewInfoSchema_def pathOfRow_def rowColumn_def)
  have "snd (snd (ViewInfoSchema ! 0))" by (simp add: ViewInfoSchema_def)
  then show "nullColumn ViewInfoSchema [cells[i := c]] = None"
    using assms(2,3) unfolding nullColumn_row
    by (auto, metis nth_list_update_eq nth_list_update_neq, metis nth_list_update_eq nth_list_update_neq)
qed

lemma changed_item:
  assumes laws: "ipc_laws I" and old: "itemOf I U 2 key item" and new: "changedItem I item column comment = Inr item'"
  shows "itemOf I U 2 key item'"
proof -
  let ?cells = "cellsOf I item"
  define field where "field = (if column = None then ''comment'' else ''column_comments'')"
  define i where "i = (if column = None then 0 else 5 :: nat)"
  have stored: "ipc_write I ViewInfoSchema ?cells = Inr item" "nullColumn ViewInfoSchema [?cells] = None"
    and path: "\<exists>path. pathOfRow 2 (zip (map fst ViewInfoSchema) ?cells) = Inr path \<and> catalogCollectionPathKey U path = key"
    using old by (auto simp: itemOf_def rowOf_def categorySchemas_def)
  obtain info security encoded where written: "ipc_write I ViewInfoSchema (viewInfoCells info security) = Inr encoded"
    and wrote: "ipc_write I ViewInfoSchema (?cells[i := viewInfoCells info security ! i]) = Inr item'"
  proof -
    from new obtain info encoded rows' sch' j where info: "SerializeViewInfo I info = Inr encoded"
      and read: "DeserializeRecordBatch I encoded = Inr (sch', rows')" "fieldIndex sch' field = Inr j"
      and wrote: "ipc_write I ViewInfoSchema (?cells[i := hd rows' ! j]) = Inr item'"
      unfolding changedItem_def DeserializeRecordBatch_write [OF laws stored(1)]
      by (auto simp: rbind_Inr_iff rmap_err_Inr_iff Let_def field_def i_def fieldIndex_view split: if_splits)
    obtain security where written: "ipc_write I ViewInfoSchema (viewInfoCells info security) = Inr encoded"
      using info by (auto simp: SerializeViewInfo_def rmap_err_Inr_iff Let_def split: if_splits)
    have "j = i" "hd rows' = viewInfoCells info security"
      using read DeserializeRecordBatch_write [OF laws written] by (auto simp: field_def i_def fieldIndex_view split: if_splits)
    then show ?thesis using that written wrote by simp
  qed
  have cell: "i = 0 \<or> i = 5 \<and> viewInfoCells info security ! i \<noteq> Null"
    by (simp add: i_def viewInfoCells_def)
  obtain path' where "pathOfRow 2 (zip (map fst ViewInfoSchema) ?cells) = Inr path'" "catalogCollectionPathKey U path' = key"
    using path by blast
  then show ?thesis
    using view_row_update [OF _ stored(2) cell] wrote item_cells [OF laws wrote]
    by (simp add: itemOf_def rowOf_def categorySchemas_def)
qed

section \<open>The invariant\<close>

definition objectsOk :: "ipc \<Rightarrow> unicode \<Rightarrow> string list \<Rightarrow> bool \<Rightarrow> (string \<times> memory_object) list \<Rightarrow> bool" where
  "objectsOk I U key views objs \<longleftrightarrow>
     distinct (map fst objs) \<and> (\<forall>n ob. map_of objs n = Some ob \<longrightarrow> itemOf I U (if views then 2 else 1) key (moItem ob))"

definition schemaOk :: "ipc \<Rightarrow> unicode \<Rightarrow> string \<Rightarrow> memory_schema \<Rightarrow> bool" where
  "schemaOk I U key s \<longleftrightarrow>
     key = schemaPathKey U (msPath s) \<and> named U (msPath s) \<and>
     (\<forall>views. objectsOk I U (catalogCollectionPathKey U (msPath s)) views (objects views s))"

definition parentIn :: "unicode \<Rightarrow> memory_state \<Rightarrow> schema_path \<Rightarrow> bool" where
  "parentIn U st path \<longleftrightarrow> length path > 1 \<longrightarrow> map_of (mSchemas st) (schemaPathKey U (butlast path)) \<noteq> None"

definition stateOk :: "ipc \<Rightarrow> unicode \<Rightarrow> memory_state \<Rightarrow> bool" where
  "stateOk I U st \<longleftrightarrow>
     distinct (map fst (mSchemas st)) \<and>
     (\<forall>key s. map_of (mSchemas st) key = Some s \<longrightarrow> schemaOk I U key s \<and> parentIn U st (msPath s))"

definition catalogOk :: "ipc \<Rightarrow> unicode \<Rightarrow> memory_catalog \<Rightarrow> bool" where
  "catalogOk I U m \<longleftrightarrow> (\<forall>a st. map_of (mcAttaches m) a = Some st \<longrightarrow> stateOk I U st)"

lemma objects_setObjects [simp]:
  "objects v (setObjects w objs s) = (if v = w then objs else objects v s)" "msPath (setObjects w objs s) = msPath s"
  by (simp_all add: objects_def setObjects_def)

lemma objectsOk_update:
  "objectsOk I U key views objs \<Longrightarrow> itemOf I U (if views then 2 else 1) key (moItem ob) \<Longrightarrow>
    objectsOk I U key views (AList.update n ob objs)"
  by (auto simp: objectsOk_def update_conv' distinct_update)

lemma objectsOk_delete: "objectsOk I U key views objs \<Longrightarrow> objectsOk I U key views (AList.delete n objs)"
  by (auto simp: objectsOk_def delete_conv' distinct_delete split: if_splits)

lemma schemaOk_setObjects:
  "schemaOk I U key s \<Longrightarrow> objectsOk I U (catalogCollectionPathKey U (msPath s)) views objs \<Longrightarrow>
    schemaOk I U key (setObjects views objs s)"
  by (auto simp: schemaOk_def)

lemma schemaOk_new: "named U path \<Longrightarrow> schemaOk I U (schemaPathKey U path) (newMemorySchema path comment tags)"
  by (auto simp: schemaOk_def newMemorySchema_def objects_def objectsOk_def)

lemma stateOk_setSchema:
  assumes "stateOk I U st" "schemaOk I U key s" "parentIn U st (msPath s)"
  shows "stateOk I U (bump (setSchema key s st))"
proof -
  have "parentIn U (bump (setSchema key s st)) path" if "parentIn U st path" for path
    using that by (simp add: parentIn_def update_conv')
  then show ?thesis using assms by (auto simp: stateOk_def update_conv' distinct_update split: if_splits)
qed

lemma stateOk_bump [simp]: "stateOk I U (bump st) \<longleftrightarrow> stateOk I U st"
  by (simp add: stateOk_def parentIn_def)

lemma map_of_kept:
  "map_of (AList.delete key (fold AList.delete (childKeys key schemas) schemas)) k =
    (if k = key \<or> (\<exists>q. k = key @ CHR 0x00 # q) then None else map_of schemas k)"
proof -
  have child: "k \<in> set (childKeys key schemas) \<longleftrightarrow> k \<in> fst ` set schemas \<and> (\<exists>q. k = key @ CHR 0x00 # q)" for k
  proof -
    have "take (Suc (length key)) k = key @ [CHR 0x00] \<longleftrightarrow> (\<exists>q. k = key @ CHR 0x00 # q)"
      by (metis append.assoc append_Cons append_Nil append_eq_conv_conj append_take_drop_id length_append_singleton)
    then show ?thesis by (auto simp: childKeys_def)
  qed
  have "map_of schemas k = None" if "k \<notin> fst ` set schemas"
    using that by (simp add: map_of_eq_None_iff)
  moreover have "map_of (AList.delete key (fold AList.delete (childKeys key schemas) schemas)) k =
      (if k = key \<or> k \<in> set (childKeys key schemas) then None else map_of schemas k)"
    using map_of_filter_keys [of "\<lambda>k. k \<in> set (childKeys key schemas)" schemas] by (simp add: delete_conv' fold_delete)
  ultimately show ?thesis using child [of k] by auto
qed

lemma stateOk_drop:
  assumes "stateOk I U st"
  shows "stateOk I U (st\<lparr>mSchemas := AList.delete key (fold AList.delete (childKeys key (mSchemas st)) (mSchemas st))\<rparr>)"
    (is "stateOk I U ?st")
proof -
  have distinct: "distinct (map fst (mSchemas ?st))"
    using assms by (simp add: stateOk_def distinct_delete fold_delete distinct_map_filter)
  have "parentIn U ?st (msPath s)" if s: "map_of (mSchemas ?st) k = Some s" for k s
  proof (unfold parentIn_def, intro impI)
    assume len: "length (msPath s) > 1"
    let ?parent = "schemaPathKey U (butlast (msPath s))"
    have kept: "k \<noteq> key" "\<nexists>q. k = key @ CHR 0x00 # q" "map_of (mSchemas st) k = Some s"
      using s by (auto simp: map_of_kept split: if_splits)
    have k: "k = schemaPathKey U (msPath s)" and "map_of (mSchemas st) ?parent \<noteq> None"
      using assms kept(3) len by (auto simp: stateOk_def schemaOk_def parentIn_def)
    moreover obtain q where "k = ?parent @ CHR 0x00 # q"
      using schemaPathKey_parent [OF len, of U] k by auto
    then have "?parent \<noteq> key" "\<nexists>q. ?parent = key @ CHR 0x00 # q"
      using kept(2) by auto
    ultimately show "map_of (mSchemas ?st) ?parent \<noteq> None" by (simp add: map_of_kept)
  qed
  then show ?thesis
    using assms distinct by (auto simp: stateOk_def map_of_kept split: if_splits)
qed

section \<open>The methods keep the invariant\<close>

lemma catalogOk_setState: "catalogOk I U m \<Longrightarrow> stateOk I U st \<Longrightarrow> catalogOk I U (setState a st m)"
  by (auto simp: catalogOk_def setState_def update_conv' split: if_splits)

lemma catalogOk_state: "catalogOk I U m \<Longrightarrow> state m a = Inr st \<Longrightarrow> stateOk I U st"
  by (auto simp: catalogOk_def state_def split: option.splits)

lemma stateOk_schema:
  "stateOk I U st \<Longrightarrow> map_of (mSchemas st) key = Some s \<Longrightarrow> schemaOk I U key s \<and> parentIn U st (msPath s)"
  by (auto simp: stateOk_def)

lemma schemaCreate_cases:
  assumes "schemaCreate U m req = Inr m'"
  obtains "m' = m"
    | st comment tags where "state m (scrAttach req) = Inr st" "parentIn U st (scrPath req)" "scrPath req \<noteq> []"
        "m' = setState (scrAttach req) (bump (setSchema (schemaPathKey U (scrPath req))
          (newMemorySchema (scrPath req) comment tags) st)) m"
  using assms by (auto simp: schemaCreate_def rbind_Inr_iff schema_Inr_iff parentIn_def split: if_splits)

lemma schemaCreate_ok:
  assumes "catalogOk I U m" "named U (scrPath req)" "schemaCreate U m req = Inr m'"
  shows "catalogOk I U m'"
  using assms(3)
proof (cases rule: schemaCreate_cases)
  case (2 st comment tags)
  then show ?thesis
    using assms(1) catalogOk_state [OF assms(1) 2(1)] schemaOk_new [OF assms(2)]
    by (auto intro!: catalogOk_setState stateOk_setSchema simp: newMemorySchema_def)
qed (simp add: assms(1))

lemma schemaDrop_cases:
  assumes "schemaDrop U m a path ignore cascade = Inr m'"
  obtains "m' = m"
    | st s where "state m a = Inr st" "map_of (mSchemas st) (schemaPathKey U path) = Some s"
        "m' = setState a (bump (st\<lparr>mSchemas := AList.delete (schemaPathKey U path)
          (fold AList.delete (childKeys (schemaPathKey U path) (mSchemas st)) (mSchemas st))\<rparr>)) m"
  using assms by (auto simp: schemaDrop_def rbind_Inr_iff schema_Inr_iff Let_def split: if_splits option.splits)

lemma schemaDrop_ok:
  assumes "catalogOk I U m" "schemaDrop U m a path ignore cascade = Inr m'"
  shows "catalogOk I U m'"
  using assms(2)
proof (cases rule: schemaDrop_cases)
  case (2 st s)
  then show ?thesis using catalogOk_state [OF assms(1) 2(1)] by (simp add: catalogOk_setState assms(1) stateOk_drop)
qed (simp add: assms(1))

text \<open>Changing the objects of an existing schema.\<close>

lemma setObjects_ok:
  assumes "catalogOk I U m" "state m a = Inr st" "map_of (mSchemas st) key = Some s"
    and "objectsOk I U (catalogCollectionPathKey U (msPath s)) views objs"
  shows "catalogOk I U (setState a (bump (setSchema key (setObjects views objs s) st)) m)"
proof -
  have st: "stateOk I U st" by (rule catalogOk_state [OF assms(1,2)])
  then have "schemaOk I U key s" "parentIn U st (msPath s)"
    using stateOk_schema [OF st assms(3)] by simp_all
  then show ?thesis
    using assms(4) by (intro catalogOk_setState [OF assms(1)] stateOk_setSchema [OF st] schemaOk_setObjects) simp_all
qed

lemma objects_ok:
  assumes "catalogOk I U m" "state m a = Inr st" "map_of (mSchemas st) key = Some s"
  shows "objectsOk I U (catalogCollectionPathKey U (msPath s)) views (objects views s)"
    and "key = schemaPathKey U (msPath s)" "named U (msPath s)"
  using stateOk_schema [OF catalogOk_state [OF assms(1,2)] assms(3)] by (auto simp: schemaOk_def)

lemma putObject_cases:
  assumes "putObject U m a path name kind onConflict views item = Inr m'"
  obtains "m' = m"
    | st s where "state m a = Inr st" "map_of (mSchemas st) (schemaPathKey U path) = Some s"
        "m' = setState a (bump (setSchema (schemaPathKey U path)
          (setObjects views (AList.update (ToLower U name) \<lparr>moName = name, moItem = item\<rparr> (objects views s)) s) st)) m"
  using assms by (auto simp: putObject_def rbind_Inr_iff schema_Inr_iff Let_def split: if_splits option.splits)

lemma putObject_ok:
  assumes "catalogOk I U m" "named U path" "itemOf I U (if views then 2 else 1) (catalogCollectionPathKey U path) item"
    and "putObject U m a path name kind onConflict views item = Inr m'"
  shows "catalogOk I U m'"
  using assms(4)
proof (cases rule: putObject_cases)
  case (2 st s)
  note s = objects_ok [OF assms(1) 2(1,2)]
  have "catalogCollectionPathKey U path = catalogCollectionPathKey U (msPath s)"
    by (rule named_keys(1) [OF assms(2) s(3) s(2)])
  then show ?thesis
    using assms(3) s(1) unfolding 2(3) by (intro setObjects_ok [OF assms(1) 2(1,2)] objectsOk_update) simp_all
qed (simp add: assms(1))

lemma dropObject_cases:
  assumes "dropObject U m a path name kind ignore views = Inr m'"
  obtains "m' = m"
    | st s ob where "state m a = Inr st" "map_of (mSchemas st) (schemaPathKey U path) = Some s"
        "map_of (objects views s) (ToLower U name) = Some ob"
        "m' = setState a (bump (setSchema (schemaPathKey U path)
          (setObjects views (AList.delete (ToLower U name) (objects views s)) s) st)) m"
  using assms by (auto simp: dropObject_def rbind_Inr_iff schema_Inr_iff Let_def split: if_splits option.splits)

lemma dropObject_ok:
  assumes "catalogOk I U m" "dropObject U m a path name kind ignore views = Inr m'"
  shows "catalogOk I U m'"
  using assms(2)
proof (cases rule: dropObject_cases)
  case (2 st s ob)
  then show ?thesis
    using objects_ok(1) [OF assms(1) 2(1,2), of views]
    by (simp add: setObjects_ok [OF assms(1) 2(1,2)] objectsOk_delete)
qed (simp add: assms(1))

lemma changeViewComment_cases:
  assumes "changeViewComment I U m a path name column comment ignore = Inr m'"
  obtains "m' = m"
    | st s view item where "state m a = Inr st" "map_of (mSchemas st) (schemaPathKey U path) = Some s"
        "map_of (msViews s) (ToLower U name) = Some view" "changedItem I (moItem view) column comment = Inr item"
        "m' = setState a (bump (setSchema (schemaPathKey U path)
          (setObjects True (AList.update (ToLower U name) (view\<lparr>moItem := item\<rparr>) (msViews s)) s) st)) m"
proof -
  obtain found st where found: "schema U m a path = Inr (found, st)"
    using assms by (cases "schema U m a path") (auto simp: changeViewComment_def)
  then have st: "state m a = Inr st" "found = map_of (mSchemas st) (schemaPathKey U path)"
    by (simp_all add: schema_Inr_iff)
  show thesis
  proof (cases "\<exists>s view. found = Some s \<and> map_of (msViews s) (ToLower U name) = Some view")
    case True
    then obtain s view where s: "found = Some s" "map_of (msViews s) (ToLower U name) = Some view" by blast
    then show thesis
      using assms that(2) st by (cases "changedItem I (moItem view) column comment") (simp_all add: changeViewComment_def found)
  next
    case False
    then have "m' = m"
      using assms by (cases found) (simp_all add: changeViewComment_def found split: if_splits)
    then show thesis by (rule that(1))
  qed
qed

lemma changeViewComment_ok:
  assumes "ipc_laws I" "catalogOk I U m" "changeViewComment I U m a path name column comment ignore = Inr m'"
  shows "catalogOk I U m'"
  using assms(3)
proof (cases rule: changeViewComment_cases)
  case (2 st s view item)
  have views: "objectsOk I U (catalogCollectionPathKey U (msPath s)) True (msViews s)"
    using objects_ok(1) [OF assms(2) 2(1,2), of True] by (simp add: objects_def)
  then have "itemOf I U 2 (catalogCollectionPathKey U (msPath s)) item"
    using changed_item [OF assms(1) _ 2(4)] 2(3) by (auto simp: objectsOk_def)
  then show ?thesis
    using views unfolding 2(5) by (intro setObjects_ok [OF assms(2) 2(1,2)] objectsOk_update) simp_all
qed (simp add: assms(2))

fun requestNamed :: "unicode \<Rightarrow> memory_request \<Rightarrow> bool" where
  "requestNamed U (CatalogSchemaCreate req) = named U (scrPath req)"
| "requestNamed U (CatalogTableCreate req) = named U (tcrSchemaPath req)"
| "requestNamed U (CatalogViewCreate req) = named U (vcrSchemaPath req)"
| "requestNamed U req = True"

lemma tableCreate_ok:
  assumes "ipc_laws I" "catalogOk I U m" "named U (tcrSchemaPath req)" "tableCreate I S U R m req = Inr m'"
  shows "catalogOk I U m'"
proof -
  obtain item columns records where item: "SerializeTableInfo I S U R
        (plainTableInfo (tcrName req) (tcrSchemaPath req) (Some columns) records) = Inr item"
    and put: "putObject U m (tcrAttach req) (tcrSchemaPath req) (tcrName req) ''Table'' (tcrOnConflict req) False item = Inr m'"
    using assms(4) by (auto simp: tableCreate_def tableItem_def rbind_Inr_iff rmap_err_Inr_iff split: if_splits)
  have "itemOf I U 1 (catalogCollectionPathKey U (tcrSchemaPath req)) item"
    using table_item [OF assms(1) item] assms(3) by (simp add: plainTableInfo_def named_def)
  then show ?thesis using putObject_ok [OF assms(2,3) _ put] by simp
qed

lemma viewCreate_ok:
  assumes "ipc_laws I" "catalogOk I U m" "named U (vcrSchemaPath req)" "viewCreate I U m req = Inr m'"
  shows "catalogOk I U m'"
proof -
  obtain item info where item: "SerializeViewInfo I info = Inr item" "viSchemaPath info = vcrSchemaPath req"
    and put: "putObject U m (vcrAttach req) (vcrSchemaPath req) (vcrName req) ''View'' (vcrOnConflict req) True item = Inr m'"
    using assms(4) by (auto simp: viewCreate_def viewItem_def rbind_Inr_iff rmap_err_Inr_iff split: if_splits)
  have "itemOf I U 2 (catalogCollectionPathKey U (vcrSchemaPath req)) item"
    using view_item [OF assms(1) item(1)] item(2) assms(3) by (simp add: named_def)
  then show ?thesis using putObject_ok [OF assms(2,3) _ put] by simp
qed

lemma changes_ok:
  "catalogOk I U m \<Longrightarrow> (\<And>m'. r = Inr m' \<Longrightarrow> catalogOk I U m') \<Longrightarrow> catalogOk I U (snd (changes m r))"
  by (cases r) (simp_all add: changes_def)

lemma main_key: "schemaPathKey U [''main''] = ''main''" "named U [''main'']"
  by (simp_all add: schemaPathKey_def named_def ToLower_def ascii_def ascii_lower_def)

lemma initialState_ok: "stateOk I U initialState"
  using schemaOk_new [OF main_key(2), where comment = None and tags = "[]"]
  by (simp add: initialState_def stateOk_def parentIn_def main_key newMemorySchema_def)

lemma serve_ok:
  assumes "ipc_laws I" "catalogOk I U m" "requestNamed U req"
  shows "catalogOk I U (snd (serve I S U R m req))"
proof (cases req)
  case (CatalogAttach rnd name caps)
  then show ?thesis
    using assms(2) by (auto simp: attach_def Let_def initialState_ok catalogOk_setState split: option.splits)
next
  case (CatalogDetach a)
  then show ?thesis using assms(2) by (auto simp: detach_def catalogOk_def delete_conv')
next
  case (CatalogViewColumnCommentSet a path name column comment ignore)
  then show ?thesis
    using changeViewComment_ok [OF assms(1,2)]
    by (auto intro!: changes_ok assms(2) simp: viewColumnCommentSet_def split: if_splits)
qed (use assms in \<open>auto intro!: changes_ok dest: schemaCreate_ok schemaDrop_ok dropObject_ok changeViewComment_ok
      tableCreate_ok viewCreate_ok\<close>)

section \<open>Reachable catalogs\<close>

inductive memory_reachable :: "ipc \<Rightarrow> schema_codec \<Rightarrow> unicode \<Rightarrow> rune_tables \<Rightarrow> memory_catalog \<Rightarrow> bool"
  for I :: ipc and S :: schema_codec and U :: unicode and R :: rune_tables where
  start: "mcAttaches m = [] \<Longrightarrow> memory_reachable I S U R m"
| request: "memory_reachable I S U R m \<Longrightarrow> requestNamed U req \<Longrightarrow> memory_reachable I S U R (snd (serve I S U R m req))"

lemma reachable_catalogOk:
  assumes "ipc_laws I" "memory_reachable I S U R m"
  shows "catalogOk I U m"
  using assms(2)
proof (induction rule: memory_reachable.induct)
  case (start m)
  then show ?case by (simp add: catalogOk_def)
next
  case (request m req)
  then show ?case using serve_ok [OF assms(1)] by blast
qed

section \<open>Snapshots\<close>

lemma unique_filter: "distinct (map f xs) \<Longrightarrow> x \<in> set xs \<Longrightarrow> filter (\<lambda>y. f y = f x) xs = [x]"
  by (induction xs) (auto simp: filter_empty_conv image_iff)

lemma list_all2_partner:
  "list_all2 P xs ys \<Longrightarrow> y \<in> set ys \<Longrightarrow> \<exists>x \<in> set xs. P x y"
  "list_all2 P xs ys \<Longrightarrow> x \<in> set xs \<Longrightarrow> \<exists>y \<in> set ys. P x y"
  by (induction rule: list_all2_induct) auto

lemma set_sortedSchemas: "set (sortedSchemas U st) = snd ` set (mSchemas st)"
  by (simp add: sortedSchemas_def)

lemma distinct_sortedSchemas:
  assumes "stateOk I U st"
  shows "distinct (map (\<lambda>s. schemaPathKey U (msPath s)) (sortedSchemas U st))"
proof -
  have key: "schemaPathKey U (msPath (snd x)) = fst x" if "x \<in> set (mSchemas st)" for x
    using assms that by (cases x) (auto simp: stateOk_def schemaOk_def)
  have "mset (map (\<lambda>s. schemaPathKey U (msPath s)) (sortedSchemas U st)) = mset (map (\<lambda>x. schemaPathKey U (msPath (snd x))) (mSchemas st))"
    by (simp add: sortedSchemas_def image_mset.compositionality comp_def)
  also have "map (\<lambda>x. schemaPathKey U (msPath (snd x))) (mSchemas st) = map fst (mSchemas st)"
    using key by simp
  finally show ?thesis
    using assms by (metis mset_eq_imp_distinct_iff stateOk_def)
qed

lemma set_objectItems: "set (objectItems objs) = (\<lambda>(n, ob). moItem ob) ` set objs"
  by (simp add: objectItems_def)

lemma objectItems_ok:
  assumes "objectsOk I U key views objs"
  shows "list_all (itemOf I U (if views then 2 else 1) key) (objectItems objs)"
  using assms by (auto simp: list_all_iff set_objectItems objectsOk_def)

lemma schemaSnapshot_Inr:
  assumes "schemaSnapshot I s = Inr e"
  shows "schemaItem I s = Inr (scSchema e)" "scPath e = msPath s" "scTables e = objectItems (msTables s)"
    "scViews e = objectItems (msViews s)"
  using assms by (auto simp: schemaSnapshot_def rbind_Inr_iff emptyContents_def)

lemma schemaSnapshot_ok:
  assumes "ipc_laws I" "schemaOk I U key s" "schemaSnapshot I s = Inr e"
  shows "contentsOk I U e"
proof -
  obtain item where item: "schemaItem I s = Inr item"
    and e: "e = (emptyContents (msPath s))\<lparr>scSchema := item, scTables := objectItems (msTables s), scViews := objectItems (msViews s)\<rparr>"
    using assms(3) by (auto simp: schemaSnapshot_def rbind_Inr_iff)
  let ?key = "catalogCollectionPathKey U (msPath s)"
  have "itemOf I U 0 ?key item \<and> pathOfRow 0 (rowOf I 0 item) = Inr (msPath s)"
    using schema_item [OF assms(1) item [unfolded schemaItem_def rmap_err_Inr_iff], of U] assms(2)
    by (simp add: schemaOk_def named_def)
  moreover have "list_all (itemOf I U 1 ?key) (objectItems (msTables s))" "list_all (itemOf I U 2 ?key) (objectItems (msViews s))"
    using assms(2) objectItems_ok [of I U ?key False "msTables s"] objectItems_ok [of I U ?key True "msViews s"]
    by (auto simp: schemaOk_def objects_def split: if_splits)
  ultimately show ?thesis by (simp add: e contentsOk_def emptyContents_def)
qed

lemma snapshot_ok:
  assumes "ipc_laws I" "stateOk I U st" "state m a = Inr st" "snapshot I U m a = Inr snap"
  shows "list_all (contentsOk I U) snap"
    and "list_all2 (\<lambda>s e. schemaSnapshot I s = Inr e) (sortedSchemas U st) snap"
proof -
  show pairs: "list_all2 (\<lambda>s e. schemaSnapshot I s = Inr e) (sortedSchemas U st) snap"
    using assms(3,4) by (simp add: snapshot_def mapResult_Inr_iff)
  have "contentsOk I U e" if e: "e \<in> set snap" for e
  proof -
    obtain s where "s \<in> set (sortedSchemas U st)" "schemaSnapshot I s = Inr e"
      using list_all2_partner(1) [OF pairs e] by blast
    then obtain key where "map_of (mSchemas st) key = Some s" "schemaSnapshot I s = Inr e"
      using assms(2) by (auto simp: set_sortedSchemas stateOk_def)
    then show ?thesis using schemaSnapshot_ok [OF assms(1)] stateOk_schema [OF assms(2)] by blast
  qed
  then show "list_all (contentsOk I U) snap" by (simp add: list_all_iff)
qed

text \<open>What a snapshot holds under a path is what the methods list there.\<close>

definition listedAs :: "ipc \<Rightarrow> unicode \<Rightarrow> memory_catalog \<Rightarrow> bytes \<Rightarrow> schema_contents list \<Rightarrow> bool" where
  "listedAs I U m a entries \<longleftrightarrow>
     (\<forall>path. let found = filter (\<lambda>e. schemaPathKey U (scPath e) = schemaPathKey U path) entries in
        schemaGet I U m a path = Inr (map scSchema found) \<and>
        listObjects U m a path False = Inr (concat (map scTables found)) \<and>
        listObjects U m a path True = Inr (concat (map scViews found)))"

lemma snapshot_listed:
  assumes "ipc_laws I" "stateOk I U st" "state m a = Inr st" "snapshot I U m a = Inr snap" "mset entries = mset snap"
  shows "listedAs I U m a entries"
  unfolding listedAs_def Let_def
proof (rule allI)
  fix path
  let ?key = "schemaPathKey U path"
  let ?found = "filter (\<lambda>e. schemaPathKey U (scPath e) = ?key) entries"
  note pairs = snapshot_ok(2) [OF assms(1-4)]
  have "map (\<lambda>e. schemaPathKey U (scPath e)) snap = map (\<lambda>s. schemaPathKey U (msPath s)) (sortedSchemas U st)"
    using pairs by (induction rule: list_all2_induct) (simp_all add: schemaSnapshot_Inr(2))
  then have distinct: "distinct (map (\<lambda>e. schemaPathKey U (scPath e)) entries)"
    using distinct_sortedSchemas [OF assms(2)] assms(5) by (metis mset_eq_imp_distinct_iff mset_map)
  have same: "set entries = set snap" using assms(5) by (rule mset_eq_setD)
  show "schemaGet I U m a path = Inr (map scSchema ?found) \<and>
        listObjects U m a path False = Inr (concat (map scTables ?found)) \<and>
        listObjects U m a path True = Inr (concat (map scViews ?found))"
  proof (cases "map_of (mSchemas st) ?key")
    case None
    have "schemaPathKey U (scPath e) \<noteq> ?key" if e: "e \<in> set snap" for e
    proof -
      obtain s where s: "s \<in> set (sortedSchemas U st)" "schemaSnapshot I s = Inr e"
        using list_all2_partner(1) [OF pairs e] by blast
      then obtain k where "(k, s) \<in> set (mSchemas st)" by (auto simp: set_sortedSchemas)
      then have "k = schemaPathKey U (msPath s)" "k \<noteq> ?key"
        using assms(2) None by (auto simp: stateOk_def schemaOk_def map_of_eq_None_iff image_iff)
      then show ?thesis using schemaSnapshot_Inr(2) [OF s(2)] by simp
    qed
    then have "?found = []" using same by (simp add: filter_empty_conv)
    then show ?thesis using None assms(3) by (simp add: schemaGet_def listObjects_def schema_def)
  next
    case (Some s)
    then have s: "s \<in> set (sortedSchemas U st)" "?key = schemaPathKey U (msPath s)"
      using stateOk_schema [OF assms(2) Some] map_of_SomeD [OF Some]
      by (force simp: set_sortedSchemas, simp add: schemaOk_def)
    obtain e where e: "e \<in> set entries" "schemaSnapshot I s = Inr e" "?key = schemaPathKey U (scPath e)"
      using list_all2_partner(2) [OF pairs s(1)] same s(2) schemaSnapshot_Inr(2) by metis
    have "?found = [e]" using unique_filter [OF distinct e(1)] e(3) by simp
    then show ?thesis
      using Some assms(3) schemaSnapshot_Inr [OF e(2)] by (simp add: schemaGet_def listObjects_def schema_def objects_def)
  qed
qed

section \<open>A sample session\<close>

definition no_codec :: schema_codec where
  "no_codec = \<lparr>sc_write = (\<lambda>_. Inl RecordMissing), sc_read = (\<lambda>_. Inl RecordMissing)\<rparr>"

definition sampleToken :: bytes where
  "sampleToken = attachToken ''c'' []"

definition sampleView :: view_create where
  "sampleView =
     \<lparr>vcrAttach = sampleToken, vcrSchemaPath = [''main''], vcrName = ''v'', vcrDefinition = ''SELECT 1'', vcrOnConflict = ''ERROR'',
      vcrAliases = None, vcrSecurity = ''regular'', vcrComment = None, vcrTags = None, vcrColumnComments = None\<rparr>"

definition sampleAttached :: memory_catalog where
  "sampleAttached = setState sampleToken initialState (NewMemoryCatalog ''c'')"

definition sampleState :: memory_state where
  "sampleState =
     \<lparr>mVersion = 2, mSchemas = [(''main'',
        (newMemorySchema [''main''] None [])\<lparr>msViews := [(''v'', \<lparr>moName = ''v'', moItem = [1]\<rparr>)]\<rparr>)]\<rparr>"

definition sampleCatalog :: memory_catalog where
  "sampleCatalog = setState sampleToken sampleState (NewMemoryCatalog ''c'')"

lemma sample_attach:
  "snd (serve contents_ipc S plain_unicode R (NewMemoryCatalog ''c'') (CatalogAttach (Some []) ''c'' None)) = sampleAttached"
  by (simp add: attach_def sampleAttached_def sampleToken_def NewMemoryCatalog_def Let_def)

lemma sample_lower: "ToLower U ''v'' = ''v''"
  by (simp add: ToLower_def ascii_def ascii_lower_def)

lemma sample_view_item: "viewItem contents_ipc sampleView = Inr [1]"
proof -
  have "ipc_write contents_ipc ViewInfoSchema sampleViewCells = Inr [1]" by (simp add: ipc_write_def)
  then show ?thesis
    by (simp add: viewItem_def sampleView_def optionalMetadataMap_def SerializeViewInfo_def viewInfoCells_def sampleViewCells_def
        optionalString_def mapCell_def pathCell_def)
qed

lemma sample_view_create:
  "serve contents_ipc S plain_unicode R sampleAttached (CatalogViewCreate sampleView) = (Inr Void, sampleCatalog)"
  using sample_view_item
  by (simp add: viewCreate_def putObject_def schema_def state_def sampleAttached_def sampleView_def setState_def NewMemoryCatalog_def
      initialState_def main_key newMemorySchema_def objects_def setObjects_def sample_lower bump_def setSchema_def changes_def
      sampleCatalog_def sampleState_def Let_def)

lemma sample_reachable: "memory_reachable contents_ipc S plain_unicode R sampleCatalog"
proof -
  have "memory_reachable contents_ipc S plain_unicode R (NewMemoryCatalog ''c'')"
    by (rule memory_reachable.start) (simp add: NewMemoryCatalog_def)
  then have "memory_reachable contents_ipc S plain_unicode R sampleAttached"
    using memory_reachable.request [of contents_ipc S plain_unicode R _ "CatalogAttach (Some []) ''c'' None"] sample_attach by fastforce
  then show ?thesis
    using memory_reachable.request [of contents_ipc S plain_unicode R sampleAttached "CatalogViewCreate sampleView"]
      sample_view_create [of S R] main_key(2) [of plain_unicode]
    by (simp add: sampleView_def)
qed

lemma sample_schema_item:
  "SerializeSchemaInfo contents_ipc \<lparr>siPath = [''main''], siComment = None, siTags = [], siEstimates = None, siOptions = None\<rparr> = Inr [0]"
proof -
  have "ipc_write contents_ipc SchemaInfoSchema sampleSchemaCells = Inr [0]" by (simp add: ipc_write_def)
  then show ?thesis
    by (simp add: SerializeSchemaInfo_def schemaInfoCells_def sampleSchemaCells_def optionalString_def optionalBinary_def mapCell_def
        pathCell_def)
qed

lemma sample_snapshot: "snapshot contents_ipc U sampleCatalog sampleToken = Inr [sampleContents]"
  using sample_schema_item
  by (simp add: snapshot_def state_def sampleCatalog_def setState_def NewMemoryCatalog_def sampleState_def sortedSchemas_def
      schemaSnapshot_def schemaItem_def objectItems_def newMemorySchema_def sampleContents_def emptyContents_def)

lemma sample_contents:
  "serve contents_ipc S plain_unicode R sampleCatalog (CatalogContents sampleToken None) = (Inr (Contents (sampleResponse 2)), sampleCatalog)"
  using sample_streams [of 2] sample_snapshot [of plain_unicode]
  by (simp add: contents_def state_def sampleCatalog_def setState_def NewMemoryCatalog_def sampleState_def answerCatalogContents_def
      reportedVersion_def sample_path sampleResponse_def Let_def)

section \<open>Properties\<close>

text \<open>
  C6. \<open>catalog_contents\<close> of a memory catalog agrees with its other methods: after any sequence of requests whose schema
  paths are non-empty and free of NUL, the streams of a full default answer decode, and what they hold under any path is
  what the schema, table and view listings return for that path, each item once and in their order.
\<close>
theorem memory_contents_listed:
  assumes "ipc_laws I" "memory_reachable I S U R m" "mcHandler m = None"
    and "serve I S U R m (CatalogContents a tag) = (Inr (Contents r), m)" "\<not> crNotModified r"
  shows "\<exists>entries. DecodeCatalogStreams I U r = Inr entries \<and> listedAs I U m a entries"
proof -
  obtain st where st: "state m a = Inr st" and answered: "answerCatalogContents I U None (mcContentHash m)
      \<lparr>callAttach = a, callCatalogName = mcName m, callIfNoneMatch = tag, callVersion = reportedVersion m st,
       callBuild = snapshot I U m a\<rparr> = Inr r"
    using assms(3,4) by (auto simp: contents_def rbind_Inr_iff rmap_err_Inr_iff)
  obtain snap where snap: "snapshot I U m a = Inr snap"
    using answered assms(5) by (auto simp: answerCatalogContents_def rbind_Inr_iff rmap_err_Inr_iff)
  have ok: "stateOk I U st" by (rule catalogOk_state [OF reachable_catalogOk [OF assms(1,2)] st])
  have "DecodeCatalogStreams I U r = Inr (sort_key (\<lambda>s. length (scPath s)) snap)"
    using answer_decodes [OF assms(1) _ snapshot_ok(1) [OF assms(1) ok st snap] answered assms(5)] snap by simp
  moreover have "listedAs I U m a (sort_key (\<lambda>s. length (scPath s)) snap)"
    by (rule snapshot_listed [OF assms(1) ok st snap]) simp
  ultimately show ?thesis by blast
qed

theorem memory_contents_listed_witness:
  "\<exists>entries. DecodeCatalogStreams contents_ipc plain_unicode (sampleResponse 2) = Inr entries \<and>
    listedAs contents_ipc plain_unicode sampleCatalog sampleToken entries"
proof (rule memory_contents_listed [OF contents_ipc_laws sample_reachable [of no_codec plain_runes] _ sample_contents])
qed (simp_all add: sampleCatalog_def setState_def NewMemoryCatalog_def sampleResponse_def)

end
