(* ===== verification/MemorySpec.thy ===== *)
theory MemorySpec
  imports MemoryContents
begin

text \<open>
  What a memory catalog promises its clients: attaches do not see each other, an attach whose version has not changed has
  not changed, and its objects behave as an abstract catalog (a set of schema keys and a map from schema, kind and name
  to an item) would.
\<close>

section \<open>Attaches are private\<close>

text \<open>The attach a request is addressed to.\<close>

fun addressee :: "memory_request \<Rightarrow> bytes option" where
  "addressee (CatalogDetach a) = Some a"
| "addressee (CatalogVersion a) = Some a"
| "addressee (CatalogContents a tag) = Some a"
| "addressee (CatalogSchemas a) = Some a"
| "addressee (CatalogSchemaGet a path) = Some a"
| "addressee (CatalogSchemaCreate req) = Some (scrAttach req)"
| "addressee (CatalogSchemaDrop a path ignore cascade) = Some a"
| "addressee (CatalogSchemaContentsTables a path) = Some a"
| "addressee (CatalogSchemaContentsViews a path) = Some a"
| "addressee (CatalogTableGet a path name) = Some a"
| "addressee (CatalogTableCreate req) = Some (tcrAttach req)"
| "addressee (CatalogTableDrop a path name ignore) = Some a"
| "addressee (CatalogViewGet a path name) = Some a"
| "addressee (CatalogViewCreate req) = Some (vcrAttach req)"
| "addressee (CatalogViewDrop a path name ignore) = Some a"
| "addressee (CatalogViewCommentSet a path name comment ignore) = Some a"
| "addressee (CatalogViewColumnCommentSet a path name column comment ignore) = Some a"
| "addressee req = None"

lemma serve_config: "\<exists>attaches. snd (serve I S U R m req) = m\<lparr>mcAttaches := attaches\<rparr>"
proof -
  have same: "\<exists>attaches. m = m\<lparr>mcAttaches := attaches\<rparr>" by (rule exI [of _ "mcAttaches m"]) simp
  have step: "\<exists>attaches. m' = m\<lparr>mcAttaches := attaches\<rparr>" if "stepped m a m'" for a m'
    using that same by (auto simp: stepped_def setState_def)
  consider rnd name caps where "req = CatalogAttach rnd name caps" | a where "req = CatalogDetach a"
    | a where "stepped m a (snd (serve I S U R m req))" | "snd (serve I S U R m req) = m"
    using serve_stepped [of req m I S U R] by blast
  then show ?thesis
  proof cases
    case 1
    then show ?thesis using same by (auto simp: attach_def Let_def setState_def split: option.splits)
  next
    case 2
    then show ?thesis by (auto simp: detach_def)
  next
    case 3
    then show ?thesis by (rule step)
  next
    case 4
    then show ?thesis using same by simp
  qed
qed

text \<open>A method sees of the catalog its options and the addressed attach.\<close>

lemma fst_changes: "fst (changes m r) = rmap_err CatalogError (rbind r (\<lambda>_. Inr Void))"
  by (cases r) (simp_all add: changes_def)

lemma fst_reads [simp]: "fst (reads m r) = rmap_err CatalogError r"
  by (simp add: reads_def)

text \<open>Two results that differ in the catalog only.\<close>

definition alike :: "memory_err + memory_catalog \<Rightarrow> memory_err + memory_catalog \<Rightarrow> bool" where
  "alike r r' \<longleftrightarrow> rbind r (\<lambda>_. Inr ()) = rbind r' (\<lambda>_. Inr ())"

lemma alike_simps [simp]: "alike (Inl e) (Inl e)" "alike (Inr m) (Inr m')"
  by (simp_all add: alike_def)

lemma alike_changes: "alike r r' \<Longrightarrow> fst (changes m r) = fst (changes m' r')"
  by (cases r; cases r') (simp_all add: alike_def changes_def)

lemma alike_rbind: "(\<And>x. alike (f x) (g x)) \<Longrightarrow> alike (rbind r f) (rbind r g)"
  by (cases r) simp_all

lemma alike_if: "alike r s \<Longrightarrow> alike r' s' \<Longrightarrow> alike (if b then r else r') (if b then s else s')"
  by simp

lemma alike_prod: "(\<And>x y. alike (f x y) (g x y)) \<Longrightarrow> alike (case p of (x, y) \<Rightarrow> f x y) (case p of (x, y) \<Rightarrow> g x y)"
  by (cases p) simp

lemma alike_option:
  "alike r r' \<Longrightarrow> (\<And>x. alike (f x) (g x)) \<Longrightarrow>
    alike (case opt of None \<Rightarrow> r | Some x \<Rightarrow> f x) (case opt of None \<Rightarrow> r' | Some x \<Rightarrow> g x)"
  by (cases opt) simp_all

lemmas alike_intros = alike_rbind alike_if alike_prod alike_option alike_simps

lemma serve_local:
  assumes "map_of attaches b = map_of (mcAttaches m) b" "addressee q = Some b"
  shows "fst (serve I S U R (m\<lparr>mcAttaches := attaches\<rparr>) q) = fst (serve I S U R m q)"
proof -
  let ?m = "m\<lparr>mcAttaches := attaches\<rparr>"
  have st: "state ?m b = state m b" using assms(1) by (simp add: state_def)
  then have schema: "schema U ?m b path = schema U m b path" for path by (simp add: schema_def)
  have version: "reportedVersion ?m = reportedVersion m" by (simp add: reportedVersion_def fun_eq_iff)
  have put: "alike (putObject U ?m b path name kind onConflict views item) (putObject U m b path name kind onConflict views item)"
    for path name kind onConflict views item
    unfolding putObject_def schema Let_def by (intro alike_intros)
  have drop: "alike (dropObject U ?m b path name kind ignore views) (dropObject U m b path name kind ignore views)"
    for path name kind ignore views
    unfolding dropObject_def schema Let_def by (intro alike_intros)
  have comment: "alike (changeViewComment I U ?m b path name column comment ignore) (changeViewComment I U m b path name column comment ignore)"
    for path name column comment ignore
    unfolding changeViewComment_def schema Let_def by (intro alike_intros)
  have create: "alike (schemaCreate U ?m req) (schemaCreate U m req)" if "scrAttach req = b" for req
    unfolding schemaCreate_def that schema by (intro alike_intros)
  have dropped: "alike (schemaDrop U ?m b path ignore cascade) (schemaDrop U m b path ignore cascade)" for path ignore cascade
    unfolding schemaDrop_def schema Let_def by (intro alike_intros)
  have table: "alike (tableCreate I S U R ?m req) (tableCreate I S U R m req)" if "tcrAttach req = b" for req
    unfolding tableCreate_def that by (intro alike_rbind put)
  have view: "alike (viewCreate I U ?m req) (viewCreate I U m req)" if "vcrAttach req = b" for req
    unfolding viewCreate_def that by (intro alike_rbind put)
  have column: "alike (viewColumnCommentSet I U ?m b path name column c ignore) (viewColumnCommentSet I U m b path name column c ignore)"
    for path name column c ignore
    unfolding viewColumnCommentSet_def by (intro alike_if comment alike_simps)
  have snap: "snapshot I U ?m b = snapshot I U m b" by (simp add: snapshot_def st)
  then have contents: "contents I U ?m ?m b tag = contents I U m m b tag" for tag by (simp add: contents_def st version)
  show ?thesis
    using assms(2)
    by (cases q) (auto simp: st schema version contents versionRPC_def schemasRPC_def schemaGet_def listObjects_def getObject_def
        intro!: alike_changes create dropped table view drop comment column)
qed

section \<open>Versions\<close>


definition run :: "ipc \<Rightarrow> schema_codec \<Rightarrow> unicode \<Rightarrow> rune_tables \<Rightarrow> memory_request list \<Rightarrow> memory_catalog \<Rightarrow> memory_catalog" where
  "run I S U R reqs m = fold (\<lambda>req m. snd (serve I S U R m req)) reqs m"

lemma run_simps [simp]:
  "run I S U R [] m = m" "run I S U R (req # reqs) m = run I S U R reqs (snd (serve I S U R m req))"
  by (simp_all add: run_def)



section \<open>The abstract catalog\<close>

text \<open>
  A catalog as its clients know it: the keys of its schemas, and the item of a table or view under its schema's key and
  its lower-cased name. A schema is created empty under an existing parent and dropped with everything below it.
\<close>

type_synonym spec_catalog = "string set \<times> (bool \<times> string \<times> string \<rightharpoonup> bytes)"

definition below :: "string \<Rightarrow> string \<Rightarrow> bool" where
  "below key k \<longleftrightarrow> k = key \<or> (\<exists>q. k = key @ CHR 0x00 # q)"

inductive spec_step :: "unicode \<Rightarrow> spec_catalog \<Rightarrow> spec_catalog \<Rightarrow> bool" for U :: unicode where
  create_schema: "(length path > 1 \<longrightarrow> schemaPathKey U (butlast path) \<in> schemas) \<Longrightarrow> key = schemaPathKey U path \<Longrightarrow> path \<noteq> [] \<Longrightarrow>
    spec_step U (schemas, objs) (insert key schemas, \<lambda>(views, k, n). if k = key then None else objs (views, k, n))"
| drop_schema: "key \<in> schemas \<Longrightarrow>
    spec_step U (schemas, objs) ({k \<in> schemas. \<not> below key k}, \<lambda>(views, k, n). if below key k then None else objs (views, k, n))"
| put: "key \<in> schemas \<Longrightarrow> spec_step U (schemas, objs) (schemas, objs((views, key, n) \<mapsto> item))"
| remove: "objs (views, key, n) \<noteq> None \<Longrightarrow> spec_step U (schemas, objs) (schemas, objs((views, key, n) := None))"

definition spec_of :: "memory_state \<Rightarrow> spec_catalog" where
  "spec_of st =
     (dom (map_of (mSchemas st)),
      \<lambda>(views, k, n). case map_of (mSchemas st) k of
        None \<Rightarrow> None
      | Some s \<Rightarrow> map_option moItem (map_of (objects views s) n))"

lemma spec_of_bump [simp]: "spec_of (bump st) = spec_of st"
  by (simp add: spec_of_def)





definition refines :: "unicode \<Rightarrow> memory_catalog \<Rightarrow> bytes \<Rightarrow> memory_catalog \<Rightarrow> bool" where
  "refines U m a m' \<longleftrightarrow>
     m' = m \<or> (\<exists>st st'. state m a = Inr st \<and> spec_step U (spec_of st) (spec_of st') \<and> m' = setState a (bump st') m)"


lemma refines_refl [simp]: "refines U m a m"
  by (simp add: refines_def)














section \<open>Properties\<close>

text \<open>
  C14. Attaches are private: a request that works on another attach, or mints another token, changes no answer that any
  request addressed to this attach gets.
\<close>
theorem memory_attaches_private:
  assumes "requestAttach m req \<noteq> Some b" "addressee q = Some b"
  shows "fst (serve I S U R (snd (serve I S U R m req)) q) = fst (serve I S U R m q)"
proof -
  obtain attaches where after: "snd (serve I S U R m req) = m\<lparr>mcAttaches := attaches\<rparr>"
    using serve_config by blast
  have "map_of attaches b = map_of (mcAttaches m) b"
    using serve_other [OF assms(1), of I S U R] by (simp add: after)
  then show ?thesis unfolding after by (rule serve_local [OF _ assms(2)])
qed

lemma sample_tokens: "attachToken ''c'' [] \<noteq> attachToken ''c'' [7]"
  by (simp add: attachToken_def)

theorem memory_attaches_private_witness:
  "fst (serve contents_ipc no_codec plain_unicode plain_runes
      (snd (serve contents_ipc no_codec plain_unicode plain_runes sampleCatalog
        (CatalogSchemaDrop (attachToken ''c'' [7]) [''main''] False True))) (CatalogContents sampleToken None)) =
    Inr (Contents (sampleResponse 2))"
  using memory_attaches_private [of sampleCatalog "CatalogSchemaDrop (attachToken ''c'' [7]) [''main''] False True" sampleToken
      "CatalogContents sampleToken None" contents_ipc no_codec plain_unicode plain_runes]
    sample_contents [of no_codec plain_runes] sample_tokens
  by (simp add: sampleToken_def del: serve.simps)





end
