(* ===== verification/WritableRows.thy ===== *)
theory WritableRows
  imports WritableConstraints
begin

text \<open>
  Record batches and stored rows (the helpers at the end of \<open>vgi/writable_handlers.go\<close>): \<open>batchToRows\<close> turns the rows
  of a batch into Go maps, \<open>rowsToBatch\<close> builds the batch of a scan from them. A batch has the fields of its schema and a
  list of cells per column, \<open>None\<close> for NULL; the constructor of a value is the type of its array.

  Floats are their IEEE bits and Go's conversions work on the bits. \<open>floats\<close> has the two things this does not determine:
  the text \<open>%v\<close> prints for a \<open>float64\<close> and the integer a conversion gives for a float out of its range.
\<close>

section \<open>Conversions of floats\<close>

record floats =
  fl_text :: "64 word \<Rightarrow> string"
  fl_range :: "64 word \<Rightarrow> int64"

fun msb_index :: "nat \<Rightarrow> nat" where
  "msb_index n = (if n \<le> 1 then 0 else Suc (msb_index (n div 2)))"

declare msb_index.simps [simp del]

definition float64_bits :: "bool \<Rightarrow> nat \<Rightarrow> nat \<Rightarrow> 64 word" where
  "float64_bits negative biased mantissa = of_nat ((if negative then 2 ^ 63 else 0) + biased * 2 ^ 52 + mantissa)"

text \<open>\<open>int64\<close> of a \<open>float64\<close>: towards zero.\<close>

definition int64_of_float64 :: "floats \<Rightarrow> 64 word \<Rightarrow> int64" where
  "int64_of_float64 F w =
     (let n = unat w; negative = 2 ^ 63 \<le> n; biased = n div 2 ^ 52 mod 2 ^ 11; mantissa = n mod 2 ^ 52;
          significand = 2 ^ 52 + mantissa
      in if biased < 1023 then 0
         else if 1023 + 62 < biased then (if negative \<and> biased = 1023 + 63 \<and> mantissa = 0 then - (2 ^ 63) else fl_range F w)
         else let magnitude = (if biased \<le> 1075 then significand div 2 ^ (1075 - biased) else significand * 2 ^ (biased - 1075))
              in if negative then - of_nat magnitude else of_nat magnitude)"

text \<open>\<open>float64\<close> of an \<open>int64\<close>: to the nearest, ties to even.\<close>

definition float64_of_int64 :: "int64 \<Rightarrow> 64 word" where
  "float64_of_int64 w =
     (if w = 0 then 0
      else let magnitude = nat \<bar>sint w\<bar>; k = msb_index magnitude in
        if k \<le> 52 then float64_bits (sint w < 0) (k + 1023) (magnitude * 2 ^ (52 - k) - 2 ^ 52)
        else let shift = k - 52; q = magnitude div 2 ^ shift; r = magnitude mod 2 ^ shift; half = 2 ^ (shift - 1);
                 rounded = (if half < r \<or> half = r \<and> odd q then q + 1 else q)
             in float64_bits (sint w < 0) (k + 1023) (rounded - 2 ^ 52))"

text \<open>\<open>float64\<close> of a \<open>float32\<close>: exact; a NaN stays a NaN.\<close>

definition float64_of_float32 :: "32 word \<Rightarrow> 64 word" where
  "float64_of_float32 w =
     (let n = unat w; negative = 2 ^ 31 \<le> n; biased = n div 2 ^ 23 mod 2 ^ 8; mantissa = n mod 2 ^ 23 in
      if biased = 255 then float64_bits negative 2047 (if mantissa = 0 then 0 else mantissa mod 2 ^ 22 * 2 ^ 29 + 2 ^ 51)
      else if biased = 0 then
        (if mantissa = 0 then float64_bits negative 0 0
         else let k = msb_index mantissa in float64_bits negative (k + 1023 - 149) (mantissa * 2 ^ (52 - k) - 2 ^ 52))
      else float64_bits negative (biased + 1023 - 127) (mantissa * 2 ^ 29))"

section \<open>Batches\<close>

datatype arrow_value =
    Int64V int64
  | Int32V "32 word"
  | Int16V "16 word"
  | Int8V "8 word"
  | Uint64V "64 word"
  | Uint32V "32 word"
  | Float64V "64 word"
  | Float32V "32 word"
  | StringV string
  | BooleanV bool
  | BinaryV bytes
  | OtherV string

record record_batch =
  rbFields :: "arrow_field list"
  rbColumns :: "arrow_value option list list"
  rbRows :: nat

datatype batch_err =
    UnsupportedType string arrow_type
  | UnsupportedBinary string
  | TypeAssertionPanic string

fun arrowValueAccessor :: "arrow_value \<Rightarrow> go_any" where
  "arrowValueAccessor (Int64V n) = AnyInt n"
| "arrowValueAccessor (Int32V n) = AnyInt (scast n)"
| "arrowValueAccessor (Int16V n) = AnyInt (scast n)"
| "arrowValueAccessor (Int8V n) = AnyInt (scast n)"
| "arrowValueAccessor (Uint64V n) = AnyInt n"
| "arrowValueAccessor (Uint32V n) = AnyInt (ucast n)"
| "arrowValueAccessor (Float64V f) = AnyFloat f"
| "arrowValueAccessor (Float32V f) = AnyFloat (float64_of_float32 f)"
| "arrowValueAccessor (StringV s) = AnyString s"
| "arrowValueAccessor (BooleanV b) = AnyBool b"
| "arrowValueAccessor (BinaryV b) = AnyBytes b"
| "arrowValueAccessor (OtherV _) = AnyNil"

definition cellValue :: "arrow_value option \<Rightarrow> go_any" where
  "cellValue c = (case c of None \<Rightarrow> AnyNil | Some v \<Rightarrow> arrowValueAccessor v)"

definition batchToRows :: "record_batch \<Rightarrow> go_row list" where
  "batchToRows batch =
     map (\<lambda>i. fold (\<lambda>(f, column). AList.update (fieldName f) (cellValue (column ! i))) (zip (rbFields batch) (rbColumns batch)) [])
       [0..<rbRows batch]"

section \<open>Columns of a scan\<close>

fun toInt64 :: "floats \<Rightarrow> go_any \<Rightarrow> int64" where
  "toInt64 F (AnyInt n) = n"
| "toInt64 F (AnyFloat f) = int64_of_float64 F f"
| "toInt64 F v = 0"

fun toFloat64 :: "go_any \<Rightarrow> 64 word" where
  "toFloat64 (AnyFloat f) = f"
| "toFloat64 (AnyInt n) = float64_of_int64 n"
| "toFloat64 v = 0"

fun toString :: "floats \<Rightarrow> go_any \<Rightarrow> string" where
  "toString F (AnyString s) = s"
| "toString F (AnyBytes b) = unstr b"
| "toString F (AnyInt n) = itoa (sint n)"
| "toString F (AnyFloat f) = fl_text F f"
| "toString F (AnyBool b) = (if b then ''true'' else ''false'')"
| "toString F AnyNil = ''<nil>''"

text \<open>A non-nil value appended to the builder of a column; a \<open>bool\<close> column asserts the dynamic type.\<close>

fun appendTo :: "floats \<Rightarrow> string \<Rightarrow> arrow_type \<Rightarrow> go_any \<Rightarrow> batch_err + arrow_value" where
  "appendTo F name INT64 v = Inr (Int64V (toInt64 F v))"
| "appendTo F name INT32 v = Inr (Int32V (ucast (toInt64 F v)))"
| "appendTo F name FLOAT64 v = Inr (Float64V (toFloat64 v))"
| "appendTo F name STRING v = Inr (StringV (toString F v))"
| "appendTo F name BOOL v = (case v of AnyBool b \<Rightarrow> Inr (BooleanV b) | _ \<Rightarrow> Inl (TypeAssertionPanic name))"
| "appendTo F name BINARY v =
     (case v of
        AnyBytes b \<Rightarrow> Inr (BinaryV b)
      | AnyString s \<Rightarrow> Inr (BinaryV (str s))
      | _ \<Rightarrow> Inl (UnsupportedBinary name))"
| "appendTo F name t v = Inl (UnsupportedType name t)"

fun supportedType :: "arrow_type \<Rightarrow> bool" where
  "supportedType INT64 = True"
| "supportedType INT32 = True"
| "supportedType FLOAT64 = True"
| "supportedType STRING = True"
| "supportedType BOOL = True"
| "supportedType BINARY = True"
| "supportedType t = False"

definition buildCell :: "floats \<Rightarrow> arrow_field \<Rightarrow> go_row \<Rightarrow> batch_err + arrow_value option" where
  "buildCell F f r =
     (if map_of r (fieldName f) = None \<or> map_of r (fieldName f) = Some AnyNil then Inr None
      else rbind (appendTo F (fieldName f) (fieldType f) (the (map_of r (fieldName f)))) (\<lambda>v. Inr (Some v)))"

definition buildColumnFromValues :: "floats \<Rightarrow> arrow_field \<Rightarrow> go_row list \<Rightarrow> batch_err + arrow_value option list" where
  "buildColumnFromValues F f rows =
     (if supportedType (fieldType f) then mapResult (buildCell F f) rows
      else Inl (UnsupportedType (fieldName f) (fieldType f)))"

definition rowsToBatch :: "floats \<Rightarrow> arrow_schema \<Rightarrow> go_row list \<Rightarrow> batch_err + record_batch" where
  "rowsToBatch F sch rows =
     rbind (mapResult (\<lambda>f. buildColumnFromValues F f rows) (schemaFields sch)) (\<lambda>columns.
       Inr \<lparr>rbFields = schemaFields sch, rbColumns = columns, rbRows = length rows\<rparr>)"

section \<open>Types\<close>

text \<open>A value of a scannable type, and the stored values a column of a type accepts.\<close>

fun typeOf :: "arrow_value \<Rightarrow> arrow_type" where
  "typeOf (Int64V _) = INT64"
| "typeOf (Int32V _) = INT32"
| "typeOf (Int16V _) = INT16"
| "typeOf (Int8V _) = INT8"
| "typeOf (Uint64V _) = UINT64"
| "typeOf (Uint32V _) = UINT32"
| "typeOf (Float64V _) = FLOAT64"
| "typeOf (Float32V _) = FLOAT32"
| "typeOf (StringV _) = STRING"
| "typeOf (BooleanV _) = BOOL"
| "typeOf (BinaryV _) = BINARY"
| "typeOf (OtherV s) = OTHER s"

definition hasType :: "arrow_type \<Rightarrow> arrow_value \<Rightarrow> bool" where
  "hasType t v \<longleftrightarrow> supportedType t \<and> typeOf v = t"

definition storable :: "arrow_type \<Rightarrow> go_any \<Rightarrow> bool" where
  "storable t v \<longleftrightarrow>
     v = AnyNil \<or>
     supportedType t \<and>
     (case v of
        AnyBool _ \<Rightarrow> t \<noteq> BINARY
      | AnyBytes _ \<Rightarrow> t \<noteq> BOOL
      | AnyString _ \<Rightarrow> t \<noteq> BOOL
      | _ \<Rightarrow> t \<noteq> BOOL \<and> t \<noteq> BINARY)"

text \<open>A batch whose columns have its number of rows and the types of its fields.\<close>

definition batchTyped :: "record_batch \<Rightarrow> bool" where
  "batchTyped batch \<longleftrightarrow>
     list_all2 (\<lambda>f column. length column = rbRows batch \<and>
         list_all (\<lambda>c. case c of None \<Rightarrow> True | Some v \<Rightarrow> hasType (fieldType f) v) column)
       (rbFields batch) (rbColumns batch)"

definition rowTyped :: "arrow_field list \<Rightarrow> go_row \<Rightarrow> bool" where
  "rowTyped fs r \<longleftrightarrow> list_all (\<lambda>f. case map_of r (fieldName f) of None \<Rightarrow> True | Some v \<Rightarrow> storable (fieldType f) v) fs"

section \<open>Lemmas\<close>

lemma narrow_widen [simp]: "(ucast (scast (w :: 32 word) :: 64 word) :: 32 word) = w"
  by (rule bit_word_eqI) (simp add: bit_simps)

lemma hasType_supported: "hasType t v \<Longrightarrow> supportedType t"
  by (simp add: hasType_def)

text \<open>What a typed value is stored as is appended as the value it was.\<close>

lemma append_accessor: "hasType t v \<Longrightarrow> arrowValueAccessor v \<noteq> AnyNil \<and> appendTo F name t (arrowValueAccessor v) = Inr v"
  unfolding hasType_def by (cases v) auto

lemma storable_accessor: "hasType t v \<Longrightarrow> storable t (arrowValueAccessor v)"
  unfolding hasType_def storable_def by (cases v) auto

lemma storable_nil [simp]: "storable t AnyNil"
  by (simp add: storable_def)

lemma append_storable: "supportedType t \<Longrightarrow> storable t v \<Longrightarrow> v \<noteq> AnyNil \<Longrightarrow> \<exists>x. appendTo F name t v = Inr x \<and> hasType t x"
  unfolding hasType_def storable_def by (cases t; cases v; simp)

lemma buildCell_cell:
  assumes "map_of r (fieldName f) = Some (cellValue c)" "case c of None \<Rightarrow> True | Some v \<Rightarrow> hasType (fieldType f) v"
  shows "buildCell F f r = Inr c"
proof (cases c)
  case None
  then show ?thesis using assms(1) by (simp add: buildCell_def cellValue_def)
next
  case (Some v)
  then have "hasType (fieldType f) v" using assms(2) by simp
  note this [THEN append_accessor]
  then show ?thesis using assms(1) Some by (simp add: buildCell_def cellValue_def)
qed

lemma buildCell_typed:
  assumes "supportedType (fieldType f)" "case map_of r (fieldName f) of None \<Rightarrow> True | Some v \<Rightarrow> storable (fieldType f) v"
  obtains c where "buildCell F f r = Inr c" "case c of None \<Rightarrow> True | Some v \<Rightarrow> hasType (fieldType f) v"
proof (cases "map_of r (fieldName f) = None \<or> map_of r (fieldName f) = Some AnyNil")
  case True
  then show ?thesis using that [of None] by (simp add: buildCell_def)
next
  case False
  then obtain v where v: "map_of r (fieldName f) = Some v" "v \<noteq> AnyNil" by auto
  then obtain x where "appendTo F (fieldName f) (fieldType f) v = Inr x" "hasType (fieldType f) x"
    using append_storable [OF assms(1)] assms(2) by fastforce
  then show ?thesis using that [of "Some x"] v by (simp add: buildCell_def)
qed

lemma map_of_columns:
  "distinct (map (fieldName \<circ> fst) cs) \<Longrightarrow>
   map_of (fold (\<lambda>(f, column). AList.update (fieldName f) (g column)) cs r) name =
     (case map_of (map (\<lambda>(f, column). (fieldName f, g column)) cs) name of None \<Rightarrow> map_of r name | Some v \<Rightarrow> Some v)"
proof (induction cs arbitrary: r)
  case (Cons c cs)
  obtain f column where c: "c = (f, column)" by (cases c)
  have "map_of (map (\<lambda>(f, column). (fieldName f, g column)) cs) (fieldName f) = None"
    using Cons(2) c by (force simp: map_of_eq_None_iff)
  then show ?case
    using Cons c by (auto simp: update_conv' split: option.split)
qed simp

lemma batchToRows_map_of:
  assumes "distinct (map fieldName (rbFields batch))" "length (rbFields batch) = length (rbColumns batch)" "i < rbRows batch"
  shows "map_of (batchToRows batch ! i) name =
    map_of (map (\<lambda>(f, column). (fieldName f, cellValue (column ! i))) (zip (rbFields batch) (rbColumns batch))) name"
proof -
  have "map (fieldName \<circ> fst) (zip (rbFields batch) (rbColumns batch)) = map fieldName (rbFields batch)"
    unfolding map_map [symmetric] map_fst_zip [OF assms(2)] ..
  then have "distinct (map (fieldName \<circ> fst) (zip (rbFields batch) (rbColumns batch)))"
    using assms(1) by (simp only:)
  note this [THEN map_of_columns, of "\<lambda>column. cellValue (column ! i)" "[]" name]
  then show ?thesis
    using assms(3) by (simp add: batchToRows_def split: option.splits)
qed

lemma length_batchToRows [simp]: "length (batchToRows batch) = rbRows batch"
  by (simp add: batchToRows_def)

lemma batchTyped_length: "batchTyped batch \<Longrightarrow> length (rbFields batch) = length (rbColumns batch)"
  by (simp add: batchTyped_def list_all2_lengthD)

lemma batchTypedD:
  assumes "batchTyped batch" "j < length (rbFields batch)"
  shows "length (rbColumns batch ! j) = rbRows batch"
    and "i < rbRows batch \<Longrightarrow> case rbColumns batch ! j ! i of None \<Rightarrow> True | Some v \<Rightarrow> hasType (fieldType (rbFields batch ! j)) v"
  using list_all2_nthD [OF assms(1) [unfolded batchTyped_def] assms(2)] by (auto simp: list_all_length)

lemma batchToRows_nth:
  assumes "batchTyped batch" "distinct (map fieldName (rbFields batch))" "i < rbRows batch" "j < length (rbFields batch)"
  shows "map_of (batchToRows batch ! i) (fieldName (rbFields batch ! j)) = Some (cellValue (rbColumns batch ! j ! i))"
proof -
  let ?cs = "zip (rbFields batch) (rbColumns batch)"
  have len: "length (rbFields batch) = length (rbColumns batch)" using assms(1) by (rule batchTyped_length)
  have names: "map fst (map (\<lambda>(f, column). (fieldName f, cellValue (column ! i))) ?cs) = map fieldName (rbFields batch)"
    using len by (auto simp: list_eq_iff_nth_eq)
  have "?cs ! j \<in> set ?cs" using assms(4) len by (intro nth_mem) simp
  then have "(fieldName (rbFields batch ! j), cellValue (rbColumns batch ! j ! i)) \<in>
      set (map (\<lambda>(f, column). (fieldName f, cellValue (column ! i))) ?cs)"
    using assms(4) len by (force simp: image_iff)
  then show ?thesis
    unfolding batchToRows_map_of [OF assms(2) len assms(3)] using assms(2) names by (intro map_of_is_SomeI) simp_all
qed

section \<open>Round trip and totality\<close>

lemma buildColumn_cells:
  assumes "length column = length rows" "supportedType (fieldType f)"
    and "\<And>i. i < length rows \<Longrightarrow> map_of (rows ! i) (fieldName f) = Some (cellValue (column ! i))"
    and "\<And>i. i < length rows \<Longrightarrow> case column ! i of None \<Rightarrow> True | Some v \<Rightarrow> hasType (fieldType f) v"
  shows "buildColumnFromValues F f rows = Inr column"
proof -
  have "list_all2 (\<lambda>r c. buildCell F f r = Inr c) rows column"
    using assms by (intro list_all2_all_nthI buildCell_cell) simp_all
  then show ?thesis
    using assms(2) by (simp add: buildColumnFromValues_def mapResult_Inr_iff)
qed

lemma rowsToBatch_columns:
  assumes "length columns = length (schemaFields sch)"
    and "\<And>j. j < length columns \<Longrightarrow> buildColumnFromValues F (schemaFields sch ! j) rows = Inr (columns ! j)"
  shows "rowsToBatch F sch rows = Inr \<lparr>rbFields = schemaFields sch, rbColumns = columns, rbRows = length rows\<rparr>"
proof -
  have "mapResult (\<lambda>f. buildColumnFromValues F f rows) (schemaFields sch) = Inr columns"
    unfolding mapResult_Inr_iff using assms by (intro list_all2_all_nthI) simp_all
  then show ?thesis by (simp add: rowsToBatch_def)
qed

lemma batchToRows_column:
  assumes "batchTyped batch" "distinct (map fieldName (rbFields batch))" "j < length (rbFields batch)"
    and "supportedType (fieldType (rbFields batch ! j))" "length rows = rbRows batch"
    and "\<And>i. i < rbRows batch \<Longrightarrow>
      map_of (rows ! i) (fieldName (rbFields batch ! j)) = map_of (batchToRows batch ! i) (fieldName (rbFields batch ! j))"
  shows "buildColumnFromValues F (rbFields batch ! j) rows = Inr (rbColumns batch ! j)"
proof (rule buildColumn_cells)
  show "length (rbColumns batch ! j) = length rows"
    using batchTypedD(1) [OF assms(1,3)] assms(5) by simp
  show "case rbColumns batch ! j ! i of None \<Rightarrow> True | Some v \<Rightarrow> hasType (fieldType (rbFields batch ! j)) v" if "i < length rows" for i
    using batchTypedD(2) [OF assms(1,3)] that assms(5) by simp
  show "map_of (rows ! i) (fieldName (rbFields batch ! j)) = Some (cellValue (rbColumns batch ! j ! i))" if "i < length rows" for i
    using assms(6) batchToRows_nth [OF assms(1,2) _ assms(3)] that assms(5) by simp
qed (rule assms(4))

text \<open>Rows of the types of a schema of scannable types always make a batch of that schema.\<close>

lemma rowsToBatch_total:
  assumes "list_all (supportedType \<circ> fieldType) (schemaFields sch)" "\<And>r. r \<in> set rows \<Longrightarrow> rowTyped (schemaFields sch) r"
  obtains batch where "rowsToBatch F sch rows = Inr batch" "batchTyped batch" "rbFields batch = schemaFields sch"
    "rbRows batch = length rows"
proof -
  let ?typed = "\<lambda>f c. case c of None \<Rightarrow> True | Some v \<Rightarrow> hasType (fieldType f) v"
  have cell: "\<exists>c. buildCell F f r = Inr c \<and> ?typed f c" if f: "f \<in> set (schemaFields sch)" and r: "r \<in> set rows" for f r
  proof -
    have "case map_of r (fieldName f) of None \<Rightarrow> True | Some v \<Rightarrow> storable (fieldType f) v"
      using assms(2) [OF r] f by (simp add: rowTyped_def list_all_iff)
    moreover have "supportedType (fieldType f)" using assms(1) f by (simp add: list_all_iff)
    ultimately show ?thesis using buildCell_typed by metis
  qed
  have column: "\<exists>column. buildColumnFromValues F f rows = Inr column \<and> length column = length rows \<and> list_all (?typed f) column"
    if f: "f \<in> set (schemaFields sch)" for f
  proof -
    let ?c = "\<lambda>r. SOME c. buildCell F f r = Inr c \<and> ?typed f c"
    have c: "buildCell F f r = Inr (?c r) \<and> ?typed f (?c r)" if "r \<in> set rows" for r
      by (rule someI_ex) (rule cell [OF f that])
    have "mapResult (buildCell F f) rows = Inr (map ?c rows)"
      unfolding mapResult_Inr_iff list_all2_map2 using c by (simp add: list_all2_same)
    moreover have "supportedType (fieldType f)" using assms(1) f by (simp add: list_all_iff)
    ultimately show ?thesis using c by (auto simp: buildColumnFromValues_def list_all_iff)
  qed
  let ?column = "\<lambda>f. SOME column. buildColumnFromValues F f rows = Inr column \<and> length column = length rows \<and> list_all (?typed f) column"
  have columns: "buildColumnFromValues F f rows = Inr (?column f) \<and> length (?column f) = length rows \<and> list_all (?typed f) (?column f)"
    if "f \<in> set (schemaFields sch)" for f
    by (rule someI_ex) (rule column [OF that])
  have built: "rowsToBatch F sch rows =
      Inr \<lparr>rbFields = schemaFields sch, rbColumns = map ?column (schemaFields sch), rbRows = length rows\<rparr>"
    using columns by (intro rowsToBatch_columns) simp_all
  have "batchTyped \<lparr>rbFields = schemaFields sch, rbColumns = map ?column (schemaFields sch), rbRows = length rows\<rparr>"
    using columns by (simp add: batchTyped_def list_all2_map2 list_all2_same)
  then show ?thesis using that [OF built] by simp
qed

text \<open>A column of another type fails the scan.\<close>

lemma rowsToBatch_unsupported:
  assumes "\<not> list_all (supportedType \<circ> fieldType) (schemaFields sch)"
  shows "\<not> is_ok (rowsToBatch F sch rows)"
proof
  assume "is_ok (rowsToBatch F sch rows)"
  then obtain columns where "list_all2 (\<lambda>f c. buildColumnFromValues F f rows = Inr c) (schemaFields sch) columns"
    by (auto simp: rowsToBatch_def is_ok_iff rbind_Inr_iff mapResult_Inr_iff)
  note columns = list_all2_nthD [OF this]
  obtain j where "j < length (schemaFields sch)" "\<not> supportedType (fieldType (schemaFields sch ! j))"
    using assms by (auto simp: list_all_length)
  then show False
    using columns [of j] by (simp add: buildColumnFromValues_def)
qed

lemma batch_rows_typed:
  assumes "batchTyped batch" "distinct (map fieldName (rbFields batch))" "r \<in> set (batchToRows batch)"
    and "\<And>f g. f \<in> set fs \<Longrightarrow> g \<in> set (rbFields batch) \<Longrightarrow> fieldName g = fieldName f \<Longrightarrow> fieldType g = fieldType f"
  shows "rowTyped fs r"
  unfolding rowTyped_def list_all_iff
proof
  fix f assume f: "f \<in> set fs"
  obtain i where i: "i < rbRows batch" "r = batchToRows batch ! i" using assms(3) by (auto simp: in_set_conv_nth)
  have len: "length (rbFields batch) = length (rbColumns batch)" using assms(1) by (rule batchTyped_length)
  show "case map_of r (fieldName f) of None \<Rightarrow> True | Some v \<Rightarrow> storable (fieldType f) v"
  proof (cases "map_of r (fieldName f)")
    case (Some v)
    then obtain j where j: "j < length (rbFields batch)" "fieldName (rbFields batch ! j) = fieldName f"
        "v = cellValue (rbColumns batch ! j ! i)"
      using len unfolding i(2) batchToRows_map_of [OF assms(2) len i(1)]
      by (auto dest!: map_of_SomeD simp: in_set_zip)
    have "fieldType (rbFields batch ! j) = fieldType f" using assms(4) [OF f] j by simp
    then have "case rbColumns batch ! j ! i of None \<Rightarrow> True | Some v \<Rightarrow> hasType (fieldType f) v"
      using batchTypedD(2) [OF assms(1) j(1) i(1)] by (simp split: option.splits)
    then have "storable (fieldType f) v"
      unfolding j(3) by (auto simp: cellValue_def storable_accessor split: option.splits)
    then show ?thesis using Some by simp
  qed simp
qed

end
