(* ===== verification/WritableStore.thy ===== *)
theory WritableStore
  imports SqliteDriver WritableRows CatalogItems
begin

text \<open>
  The SQLite tables of the writable catalogs (\<open>vgi/writable_storage.go\<close>), over the driver of \<open>SqliteDriver\<close>. Each SQL
  statement is a function on the three tables with its meaning. Rows and table metadata are stored as gob
  blobs; gob gives back the maps and structs it was given, so the model stores the values. A handle that could not be
  opened answers every call with that error; the model starts with an open one.

  The lists of names and the scan of a table's rows do not ask \<open>rows.Err\<close>; \<open>nextRows\<close> is that loop.
\<close>

section \<open>Tables\<close>

type_synonym wc_key = "string \<times> string \<times> string"

record foreign_key =
  fkColumns :: "string list"
  fkTable :: string
  fkReferenced :: "string list"
  fkSchemaPath :: "string list"

record table_meta =
  tmConstraints :: "bytes list"
  tmNotNull :: "string list"
  tmPrimaryKey :: "string list list"
  tmUnique :: "string list list"
  tmCheck :: "string list"
  tmForeignKey :: "foreign_key list"
  tmDefaults :: "(string \<times> default_value) list"
  tmColumnComment :: "(string \<times> string) list"

record stored_table =
  stSchemaIPC :: bytes
  stMeta :: table_meta
  stComment :: string

record wc_tables =
  wc_schema :: "((string \<times> string) \<times> string) list"
  wc_table :: "(wc_key \<times> stored_table) list"
  wc_row :: "((wc_key \<times> int64) \<times> go_row) list"

record writable_table =
  wtName :: string
  wtSchema :: arrow_schema
  wtComment :: string
  wtConstraints :: "bytes list"
  wtDefaults :: "(string \<times> default_value) list"
  wtLegacy :: "table_meta option"
  wtColumnComment :: "(string \<times> string) list"

datatype wc_err =
    NotNullFailed string string
  | SchemaCodec row_err
  | MissingTableColumns
  | DecodeColumns row_err
  | ColumnRefused col_err
  | ConstraintRefused con_err
  | RecordRefused row_err
  | CapabilityRefused row_err
  | ItemRefused row_err
  | SchemaAlreadyExists string
  | SchemaDoesNotExist string
  | SchemaHasTables string
  | TableAlreadyExists string string
  | TableDoesNotExist string string
  | WritableTableNotFound string string
  | BatchRefused batch_err
  | NotImplementedBy string
  | ReadOnlyCatalog string

type_synonym 'a wop = "(wc_err, wc_tables, 'a) dbop"

definition tableKey :: "unicode \<Rightarrow> string \<Rightarrow> string \<Rightarrow> string \<Rightarrow> wc_key" where
  "tableKey U catalog schemaPath table = (catalog, ToLower U schemaPath, ToLower U table)"

section \<open>Metadata\<close>

definition encodeTableMeta :: "writable_table \<Rightarrow> table_meta" where
  "encodeTableMeta t =
     \<lparr>tmConstraints = wtConstraints t, tmNotNull = [], tmPrimaryKey = [], tmUnique = [], tmCheck = [], tmForeignKey = [],
      tmDefaults = wtDefaults t, tmColumnComment = wtColumnComment t\<rparr>"

definition writableTableFromMeta :: "string \<Rightarrow> arrow_schema \<Rightarrow> string \<Rightarrow> table_meta \<Rightarrow> writable_table" where
  "writableTableFromMeta name sch comment meta =
     \<lparr>wtName = name, wtSchema = sch, wtComment = comment, wtConstraints = tmConstraints meta, wtDefaults = tmDefaults meta,
      wtLegacy =
        (if length (tmNotNull meta) + length (tmPrimaryKey meta) + length (tmUnique meta) + length (tmCheck meta) +
            length (tmForeignKey meta) > 0 then Some meta else None),
      wtColumnComment = tmColumnComment meta\<rparr>"

section \<open>Schemas\<close>

definition schemaUpsert :: "unicode \<Rightarrow> string \<Rightarrow> string \<Rightarrow> string \<Rightarrow> unit wop" where
  "schemaUpsert U catalog name comment =
     statement (\<lambda>t. ((), t\<lparr>wc_schema := AList.update (catalog, ToLower U name) comment (wc_schema t)\<rparr>))"

definition schemaExists :: "unicode \<Rightarrow> string \<Rightarrow> string \<Rightarrow> bool wop" where
  "schemaExists U catalog name = statement (\<lambda>t. (map_of (wc_schema t) (catalog, ToLower U name) \<noteq> None, t))"

definition deleteSchemaRows :: "unicode \<Rightarrow> string \<Rightarrow> string \<Rightarrow> wc_tables \<Rightarrow> wc_tables" where
  "deleteSchemaRows U catalog name t =
     t\<lparr>wc_row := filter (\<lambda>(((c, s, n), rid), r). \<not> (c = catalog \<and> s = ToLower U name)) (wc_row t)\<rparr>"

definition deleteSchemaTables :: "unicode \<Rightarrow> string \<Rightarrow> string \<Rightarrow> wc_tables \<Rightarrow> wc_tables" where
  "deleteSchemaTables U catalog name t =
     t\<lparr>wc_table := filter (\<lambda>((c, s, n), st). \<not> (c = catalog \<and> s = ToLower U name)) (wc_table t)\<rparr>"

definition schemaDrop :: "unicode \<Rightarrow> string \<Rightarrow> string \<Rightarrow> bool \<Rightarrow> unit wop" where
  "schemaDrop U catalog name cascade =
     transaction
       (obind (if cascade
               then obind (statement (\<lambda>t. ((), deleteSchemaRows U catalog name t)))
                      (\<lambda>_. statement (\<lambda>t. ((), deleteSchemaTables U catalog name t)))
               else oreturn ())
         (\<lambda>_. statement (\<lambda>t. ((), t\<lparr>wc_schema := AList.delete (catalog, ToLower U name) (wc_schema t)\<rparr>))))"

definition schemaList :: "string \<Rightarrow> (string \<times> string) list wop" where
  "schemaList catalog =
     obind (statement (\<lambda>t. (map (\<lambda>((c, name), comment). (name, comment)) (filter (\<lambda>((c, _), _). c = catalog) (wc_schema t)), t)))
       nextRows"

section \<open>Tables of a catalog\<close>

definition tableUpsert :: "schema_codec \<Rightarrow> unicode \<Rightarrow> string \<Rightarrow> string \<Rightarrow> writable_table \<Rightarrow> unit wop" where
  "tableUpsert S U catalog schemaPath t =
     obind (olift (rmap_err SchemaCodec (SerializeSchema S (wtSchema t)))) (\<lambda>ipc.
       statement (\<lambda>ts. ((), ts\<lparr>wc_table :=
         AList.update (tableKey U catalog schemaPath (wtName t))
           \<lparr>stSchemaIPC = ipc, stMeta = encodeTableMeta t, stComment = wtComment t\<rparr> (wc_table ts)\<rparr>)))"

definition deleteTableRows :: "wc_key \<Rightarrow> wc_tables \<Rightarrow> wc_tables" where
  "deleteTableRows key t = t\<lparr>wc_row := filter (\<lambda>((k, rid), r). k \<noteq> key) (wc_row t)\<rparr>"

definition tableDrop :: "unicode \<Rightarrow> string \<Rightarrow> string \<Rightarrow> string \<Rightarrow> unit wop" where
  "tableDrop U catalog schemaPath table =
     transaction
       (obind (statement (\<lambda>t. ((), deleteTableRows (tableKey U catalog schemaPath table) t)))
         (\<lambda>_. statement (\<lambda>t. ((), t\<lparr>wc_table := AList.delete (tableKey U catalog schemaPath table) (wc_table t)\<rparr>))))"

definition tableLoad :: "schema_codec \<Rightarrow> unicode \<Rightarrow> string \<Rightarrow> string \<Rightarrow> string \<Rightarrow> writable_table option wop" where
  "tableLoad S U catalog schemaPath table =
     obind (statement (\<lambda>t. (map_of (wc_table t) (tableKey U catalog schemaPath table), t))) (\<lambda>found.
       case found of
         None \<Rightarrow> oreturn None
       | Some st \<Rightarrow>
           obind (olift (rmap_err SchemaCodec (DeserializeSchema S (stSchemaIPC st)))) (\<lambda>sch.
             oreturn (Some (writableTableFromMeta table sch (stComment st) (stMeta st)))))"

definition tableList :: "unicode \<Rightarrow> string \<Rightarrow> string \<Rightarrow> string list wop" where
  "tableList U catalog schemaPath =
     obind (statement (\<lambda>t. (map (\<lambda>((c, s, n), st). n)
         (filter (\<lambda>((c, s, n), st). c = catalog \<and> s = ToLower U schemaPath) (wc_table t)), t)))
       nextRows"

section \<open>Rows\<close>

definition rowIDFieldName :: string where "rowIDFieldName = ''__row_id''"

definition rowsOf :: "wc_tables \<Rightarrow> wc_key \<Rightarrow> (int64 \<times> go_row) list" where
  "rowsOf t key = map (\<lambda>((k, rid), r). (rid, r)) (filter (\<lambda>((k, rid), r). k = key) (wc_row t))"

fun checkRows :: "string \<Rightarrow> string list \<Rightarrow> go_row list \<Rightarrow> wc_err + unit" where
  "checkRows table required [] = Inr ()"
| "checkRows table required (r # rows) =
     (case checkNotNullRow required r of
        Some column \<Rightarrow> Inl (NotNullFailed table column)
      | None \<Rightarrow> checkRows table required rows)"

text \<open>The largest signed row id, as \<open>MAX(row_id)\<close>.\<close>

definition maxRowID :: "wc_key \<Rightarrow> wc_tables \<Rightarrow> int64 option" where
  "maxRowID key t =
     (case map fst (rowsOf t key) of
        [] \<Rightarrow> None
      | rid # rids \<Rightarrow> Some (foldl (\<lambda>m rid. if sint m < sint rid then rid else m) rid rids))"

text \<open>\<open>INSERT\<close> with its primary key.\<close>

definition insertRow :: "wc_key \<Rightarrow> int64 \<Rightarrow> go_row \<Rightarrow> unit wop" where
  "insertRow key rid r =
     obind (statement (\<lambda>t. if map_of (wc_row t) (key, rid) \<noteq> None then (False, t)
                           else (True, t\<lparr>wc_row := wc_row t @ [((key, rid), r)]\<rparr>)))
       (\<lambda>inserted db. if inserted then (Inr (), db) else (Inl (DriverError ''UNIQUE constraint failed''), db))"

fun insertRows :: "wc_key \<Rightarrow> int64 \<Rightarrow> go_row list \<Rightarrow> unit wop" where
  "insertRows key rid [] = oreturn ()"
| "insertRows key rid (r # rows) = obind (insertRow key rid r) (\<lambda>_. insertRows key (rid + 1) rows)"

definition rowsAppend ::
  "unicode \<Rightarrow> string \<Rightarrow> string \<Rightarrow> string \<Rightarrow> go_row list \<Rightarrow> string list \<Rightarrow> int64 wop" where
  "rowsAppend U catalog schemaPath table rows required =
     (let key = tableKey U catalog schemaPath table in
      obind (olift (checkRows table required rows)) (\<lambda>_.
      transaction
        (obind (statement (\<lambda>t. (maxRowID key t, t))) (\<lambda>maxID.
          let rid = (case maxID of None \<Rightarrow> 0 | Some m \<Rightarrow> m + 1) in
          obind driver (\<lambda>_.
          obind (insertRows key rid rows) (\<lambda>_. oreturn rid))))))"

definition rowsScan :: "unicode \<Rightarrow> string \<Rightarrow> string \<Rightarrow> string \<Rightarrow> go_row list wop" where
  "rowsScan U catalog schemaPath table =
     obind (statement (\<lambda>t. (sort_key (sint \<circ> fst) (rowsOf t (tableKey U catalog schemaPath table)), t))) (\<lambda>rows.
     obind (nextRows rows) (\<lambda>out.
       oreturn (map (\<lambda>(rid, r). AList.update rowIDFieldName (AnyInt rid) r) out)))"

definition rowsCount :: "unicode \<Rightarrow> string \<Rightarrow> string \<Rightarrow> string \<Rightarrow> nat wop" where
  "rowsCount U catalog schemaPath table =
     statement (\<lambda>t. (length (rowsOf t (tableKey U catalog schemaPath table)), t))"

definition mergeRow :: "go_row \<Rightarrow> go_row \<Rightarrow> go_row" where
  "mergeRow u existing = fold (\<lambda>(k, v) r. if k = rowIDFieldName then r else AList.update k v r) u existing"

definition updateRow ::
  "floats \<Rightarrow> wc_key \<Rightarrow> string \<Rightarrow> string list \<Rightarrow> go_row \<Rightarrow> bool wop" where
  "updateRow F key table required u =
     (case map_of u rowIDFieldName of
        None \<Rightarrow> oreturn False
      | Some ridV \<Rightarrow>
          let rid = toInt64 F ridV in
          obind (statement (\<lambda>t. (map_of (wc_row t) (key, rid), t))) (\<lambda>found.
            case found of
              None \<Rightarrow> oreturn False
            | Some existing \<Rightarrow>
                let row = mergeRow u existing in
                (case checkNotNullRow required row of
                   Some column \<Rightarrow> ofail (NotNullFailed table column)
                 | None \<Rightarrow>
                     obind (statement (\<lambda>t. ((), t\<lparr>wc_row :=
                         map (\<lambda>(k, r). if k = (key, rid) then (k, row) else (k, r)) (wc_row t)\<rparr>))) (\<lambda>_.
                       oreturn True))))"

fun updateRows ::
  "floats \<Rightarrow> wc_key \<Rightarrow> string \<Rightarrow> string list \<Rightarrow> go_row list \<Rightarrow> int64 \<Rightarrow> int64 wop" where
  "updateRows F key table required [] count = oreturn count"
| "updateRows F key table required (u # updates) count =
     obind (updateRow F key table required u) (\<lambda>changed.
       updateRows F key table required updates (if changed then count + 1 else count))"

definition rowsUpdate ::
  "floats \<Rightarrow> unicode \<Rightarrow> string \<Rightarrow> string \<Rightarrow> string \<Rightarrow> go_row list \<Rightarrow> string list \<Rightarrow> int64 wop" where
  "rowsUpdate F U catalog schemaPath table updates required =
     transaction
       (obind driver (\<lambda>_. obind driver (\<lambda>_.
         updateRows F (tableKey U catalog schemaPath table) table required updates 0)))"

definition deleteRow :: "wc_key \<Rightarrow> int64 \<Rightarrow> bool wop" where
  "deleteRow key rid =
     statement (\<lambda>t. (map_of (wc_row t) (key, rid) \<noteq> None, t\<lparr>wc_row := AList.delete (key, rid) (wc_row t)\<rparr>))"

fun deleteRowIDs :: "wc_key \<Rightarrow> int64 list \<Rightarrow> int64 \<Rightarrow> int64 wop" where
  "deleteRowIDs key [] count = oreturn count"
| "deleteRowIDs key (rid # rids) count =
     obind (deleteRow key rid) (\<lambda>affected. deleteRowIDs key rids (if affected then count + 1 else count))"

definition rowsDelete :: "unicode \<Rightarrow> string \<Rightarrow> string \<Rightarrow> string \<Rightarrow> int64 list \<Rightarrow> int64 wop" where
  "rowsDelete U catalog schemaPath table rids =
     (if length rids = 0 then oreturn 0
      else transaction (obind driver (\<lambda>_. deleteRowIDs (tableKey U catalog schemaPath table) rids 0)))"

section \<open>What the operations keep\<close>

text \<open>
  Tables with distinct row keys, the definitions \<open>T\<close> and schemas \<open>S\<close>, and every row of a table \<open>k\<close> in \<open>Q k\<close>.
\<close>

definition holds :: "(wc_key \<Rightarrow> go_row \<Rightarrow> bool) \<Rightarrow> (wc_key \<times> stored_table) list \<Rightarrow> ((string \<times> string) \<times> string) list \<Rightarrow> wc_tables \<Rightarrow> bool" where
  "holds Q T S t \<longleftrightarrow>
     distinct (map fst (wc_row t)) \<and> list_all (\<lambda>((k, rid), r). Q k r) (wc_row t) \<and> wc_table t = T \<and> wc_schema t = S"

lemma holds_row: "holds Q T S t \<Longrightarrow> map_of (wc_row t) (k, rid) = Some r \<Longrightarrow> Q k r"
  by (auto dest!: map_of_SomeD simp: holds_def list_all_iff)

lemma checkRows_ok: "checkRows table required rows = Inr () \<longleftrightarrow> (\<forall>r\<in>set rows. checkNotNullRow required r = None)"
  by (induction rows) (auto split: option.splits)

lemma insertRow_triple:
  assumes "Q key r"
  shows "triple (holds Q T S) (insertRow key rid r) (\<lambda>_. holds Q T S) (\<lambda>_. True)"
  unfolding insertRow_def
proof (rule triple_obind [OF triple_statement])
  show "holds Q T S (snd (if map_of (wc_row t) (key, rid) \<noteq> None then (False, t)
      else (True, t\<lparr>wc_row := wc_row t @ [((key, rid), r)]\<rparr>)))" if "holds Q T S t" for t
    using that assms by (auto simp: holds_def map_of_eq_None_iff)
  show "triple (holds Q T S) (\<lambda>db. if inserted then (Inr (), db) else (Inl (DriverError ''UNIQUE constraint failed''), db))
      (\<lambda>_. holds Q T S) (\<lambda>_. True)" for inserted
    by (simp add: triple_def)
qed simp

lemma insertRows_triple:
  "(\<And>r. r \<in> set rows \<Longrightarrow> Q key r) \<Longrightarrow> triple (holds Q T S) (insertRows key rid rows) (\<lambda>_. holds Q T S) (\<lambda>_. True)"
proof (induction rows arbitrary: rid)
  case Nil
  show ?case unfolding insertRows.simps by (rule triple_oreturn)
next
  case (Cons r rows)
  show ?case
    unfolding insertRows.simps by (rule triple_obind [OF insertRow_triple]) (simp_all add: Cons)
qed

lemma rowsAppend_triple:
  assumes "\<And>r. r \<in> set rows \<Longrightarrow> checkNotNullRow required r = None \<Longrightarrow> Q (tableKey U catalog schemaPath table) r"
  shows "triple (holds Q T S) (rowsAppend U catalog schemaPath table rows required) (\<lambda>_. holds Q T S) (holds Q T S)"
proof (cases "checkRows table required rows")
  case (Inl e)
  then show ?thesis by (simp add: rowsAppend_def triple_def obind_def Let_def)
next
  case (Inr u)
  then have rows: "Q (tableKey U catalog schemaPath table) r" if "r \<in> set rows" for r
    using assms that by (simp add: checkRows_ok)
  show ?thesis
    unfolding rowsAppend_def Let_def Inr olift_simps
    by (rule triple_obind [OF triple_oreturn [where Q = "\<lambda>_. holds Q T S"]]; (assumption | rule triple_transaction)?;
        (assumption | rule triple_obind [OF triple_query] triple_obind [OF triple_driver] triple_obind [OF insertRows_triple]
          triple_oreturn rows TrueI)+)
qed

lemma holds_replace:
  assumes "holds Q T S t" "Q key row"
  shows "holds Q T S (t\<lparr>wc_row := map (\<lambda>(k, r). if k = (key, rid) then (k, row) else (k, r)) (wc_row t)\<rparr>)"
proof -
  have "map fst (map (\<lambda>(k, r). if k = (key, rid) then (k, row) else (k, r)) (wc_row t)) = map fst (wc_row t)"
    by auto
  then show ?thesis using assms unfolding holds_def by (auto simp: list_all_iff simp del: map_map split: if_splits)
qed

lemma triple_exec:
  "(\<And>t. P t \<Longrightarrow> Q x (snd (f t))) \<Longrightarrow> (\<And>t. P t \<Longrightarrow> E t) \<Longrightarrow> triple P (obind (statement f) (\<lambda>_. oreturn x)) Q E"
  by (rule triple_obind [OF triple_statement [where Q = "\<lambda>_. Q x"]]) (simp_all add: triple_oreturn)

lemma updateRow_triple:
  assumes "\<And>r. Q key r \<Longrightarrow> checkNotNullRow required (mergeRow u r) = None \<Longrightarrow> Q key (mergeRow u r)"
  shows "triple (holds Q T S) (updateRow F key table required u) (\<lambda>_. holds Q T S) (\<lambda>_. True)"
proof (cases "map_of u rowIDFieldName")
  case None
  then show ?thesis by (simp add: updateRow_def triple_oreturn)
next
  case (Some ridV)
  let ?load = "\<lambda>t. (map_of (wc_row t) (key, toInt64 F ridV), t)"
  show ?thesis
    unfolding updateRow_def Some option.case Let_def
  proof (rule triple_obind [OF triple_statement])
    show "holds Q T S (snd (?load t)) \<and> (\<forall>r. fst (?load t) = Some r \<longrightarrow> Q key r)" if "holds Q T S t" for t
      using that holds_row [OF that] by simp
    show "triple (\<lambda>t. holds Q T S t \<and> (\<forall>r. found = Some r \<longrightarrow> Q key r))
        (case found of None \<Rightarrow> oreturn False
         | Some existing \<Rightarrow>
             (case checkNotNullRow required (mergeRow u existing) of
                Some column \<Rightarrow> ofail (NotNullFailed table column)
              | None \<Rightarrow> obind (statement (\<lambda>t. ((), t\<lparr>wc_row :=
                  map (\<lambda>(k, r). if k = (key, toInt64 F ridV) then (k, mergeRow u existing) else (k, r)) (wc_row t)\<rparr>)))
                  (\<lambda>_. oreturn True)))
        (\<lambda>_. holds Q T S) (\<lambda>_. True)" for found
      by (cases found; cases "checkNotNullRow required (mergeRow u (the found))")
        (auto intro!: triple_oreturn triple_ofail triple_exec holds_replace assms)
  qed simp
qed

lemma updateRows_triple:
  assumes "\<And>u r. u \<in> set updates \<Longrightarrow> Q key r \<Longrightarrow> checkNotNullRow required (mergeRow u r) = None \<Longrightarrow> Q key (mergeRow u r)"
  shows "triple (holds Q T S) (updateRows F key table required updates count) (\<lambda>_. holds Q T S) (\<lambda>_. True)"
  using assms
proof (induction updates arbitrary: count)
  case Nil
  show ?case unfolding updateRows.simps by (rule triple_oreturn)
next
  case (Cons u updates)
  have rest: "triple (holds Q T S) (updateRows F key table required updates n) (\<lambda>_. holds Q T S) (\<lambda>_. True)" for n
    by (rule Cons(1)) (rule Cons(2), simp_all)
  show ?case
    unfolding updateRows.simps by (rule triple_obind [OF updateRow_triple rest]) (rule Cons(2), simp_all)
qed

lemma rowsUpdate_triple:
  assumes "\<And>u r. u \<in> set updates \<Longrightarrow> Q (tableKey U catalog schemaPath table) r \<Longrightarrow>
      checkNotNullRow required (mergeRow u r) = None \<Longrightarrow> Q (tableKey U catalog schemaPath table) (mergeRow u r)"
  shows "triple (holds Q T S) (rowsUpdate F U catalog schemaPath table updates required) (\<lambda>_. holds Q T S) (holds Q T S)"
  unfolding rowsUpdate_def
  by (intro triple_transaction triple_obind [OF triple_driver] updateRows_triple) (simp_all add: assms)

lemma deleteRow_triple: "triple (holds Q T S) (deleteRow key rid) (\<lambda>_. holds Q T S) (\<lambda>_. True)"
  unfolding deleteRow_def
proof (rule triple_statement)
  show "holds Q T S (snd (map_of (wc_row t) (key, rid) \<noteq> None, t\<lparr>wc_row := AList.delete (key, rid) (wc_row t)\<rparr>))"
    if "holds Q T S t" for t
    using that by (auto simp: holds_def list_all_iff AList.delete_eq distinct_map_filter)
qed simp

lemma deleteRowIDs_triple: "triple (holds Q T S) (deleteRowIDs key rids count) (\<lambda>_. holds Q T S) (\<lambda>_. True)"
proof (induction rids arbitrary: count)
  case Nil
  show ?case unfolding deleteRowIDs.simps by (rule triple_oreturn)
next
  case (Cons rid rids)
  show ?case unfolding deleteRowIDs.simps by (rule triple_obind [OF deleteRow_triple Cons])
qed

lemma rowsDelete_triple:
  "triple (holds Q T S) (rowsDelete U catalog schemaPath table rids) (\<lambda>_. holds Q T S) (holds Q T S)"
  unfolding rowsDelete_def
  by (simp add: triple_oreturn) (intro impI triple_transaction triple_obind [OF triple_driver] deleteRowIDs_triple, simp_all)

section \<open>Without driver failures\<close>

definition scanned :: "wc_tables \<Rightarrow> wc_key \<Rightarrow> go_row list" where
  "scanned t key = map (\<lambda>(rid, r). AList.update rowIDFieldName (AnyInt rid) r) (sort_key (sint \<circ> fst) (rowsOf t key))"

lemma rowsScan_ok [simp]:
  "faults db = [] \<Longrightarrow> rowsScan U c s n db = (Inr (scanned (tables db) (tableKey U c s n)), db)"
  by (simp add: rowsScan_def scanned_def obind_def)

lemma set_rowsOf: "set (rowsOf t key) = {(rid, r). ((key, rid), r) \<in> set (wc_row t)}"
  unfolding rowsOf_def by force

lemma scanned_row:
  assumes "((key, rid), r) \<in> set (wc_row t)"
  shows "AList.update rowIDFieldName (AnyInt rid) r \<in> set (scanned t key)"
  using assms by (force simp: scanned_def set_rowsOf)

text \<open>The stored table as it is loaded.\<close>

definition loaded :: "schema_codec \<Rightarrow> string \<Rightarrow> stored_table option \<Rightarrow> wc_err + writable_table option" where
  "loaded S table found =
     (case found of
        None \<Rightarrow> Inr None
      | Some st \<Rightarrow>
          rbind (rmap_err SchemaCodec (DeserializeSchema S (stSchemaIPC st))) (\<lambda>sch.
            Inr (Some (writableTableFromMeta table sch (stComment st) (stMeta st)))))"

lemma loaded_Some:
  "loaded S table found = Inr (Some t) \<Longrightarrow>
   \<exists>st sch. found = Some st \<and> DeserializeSchema S (stSchemaIPC st) = Inr sch \<and> t = writableTableFromMeta table sch (stComment st) (stMeta st)"
  by (auto simp: loaded_def res_simps split: option.splits)

lemma loaded_error: "loaded S table found = Inl e \<Longrightarrow> \<exists>x. e = SchemaCodec x"
  by (cases found; cases "DeserializeSchema S (stSchemaIPC (the found))") (auto simp: loaded_def)

lemma tableLoad_loaded:
  "tableLoad S U c s n = obind (statement (\<lambda>t. (map_of (wc_table t) (tableKey U c s n), t))) (\<lambda>found. olift (loaded S n found))"
proof -
  have "(case found of None \<Rightarrow> oreturn None
       | Some st \<Rightarrow> obind (olift (rmap_err SchemaCodec (DeserializeSchema S (stSchemaIPC st)))) (\<lambda>sch.
             oreturn (Some (writableTableFromMeta n sch (stComment st) (stMeta st))))) db = olift (loaded S n found) db" for found db
  proof (cases found)
    case (Some st)
    show ?thesis
      by (cases "DeserializeSchema S (stSchemaIPC st)") (simp_all add: Some loaded_def obind_def)
  qed (simp add: loaded_def)
  then show ?thesis unfolding tableLoad_def by (intro arg_cong2 [where f = obind] refl ext)
qed

lemma tableLoad_ok [simp]:
  "faults db = [] \<Longrightarrow> tableLoad S U c s n db =
     (case loaded S n (map_of (wc_table (tables db)) (tableKey U c s n)) of Inl e \<Rightarrow> Inl (Failure e) | Inr t \<Rightarrow> Inr t, db)"
  by (simp add: tableLoad_loaded split: sum.split)

lemma tableLoad_triple:
  assumes "\<And>t. P t \<Longrightarrow> E t"
  shows "triple P (tableLoad S U c s n)
    (\<lambda>r t. P t \<and> loaded S n (map_of (wc_table t) (tableKey U c s n)) = Inr r) E"
  unfolding tableLoad_loaded
proof (rule triple_obind [OF triple_statement])
  show "P (snd (map_of (wc_table t) (tableKey U c s n), t)) \<and>
      map_of (wc_table (snd (map_of (wc_table t) (tableKey U c s n), t))) (tableKey U c s n) =
        fst (map_of (wc_table t) (tableKey U c s n), t)" if "P t" for t
    using that by simp
  show "triple (\<lambda>t. P t \<and> map_of (wc_table t) (tableKey U c s n) = found) (olift (loaded S n found))
      (\<lambda>r t. P t \<and> loaded S n (map_of (wc_table t) (tableKey U c s n)) = Inr r) E" for found
    by (rule triple_olift) (auto simp: assms)
qed (rule assms)

lemma tableUpsert_triple:
  assumes "\<And>t ipc. P t \<Longrightarrow> SerializeSchema S (wtSchema w) = Inr ipc \<Longrightarrow> Q (t\<lparr>wc_table := AList.update (tableKey U c s (wtName w))
      \<lparr>stSchemaIPC = ipc, stMeta = encodeTableMeta w, stComment = wtComment w\<rparr> (wc_table t)\<rparr>)" "\<And>t. P t \<Longrightarrow> E t"
  shows "triple P (tableUpsert S U c s w) (\<lambda>_. Q) E"
  unfolding tableUpsert_def
proof (rule triple_obind [OF triple_olift [where Q = "\<lambda>ipc t. P t \<and> SerializeSchema S (wtSchema w) = Inr ipc"] triple_statement])
  fix ipc t
  assume "P t \<and> SerializeSchema S (wtSchema w) = Inr ipc"
  then show "Q (snd ((), t\<lparr>wc_table := AList.update (tableKey U c s (wtName w))
      \<lparr>stSchemaIPC = ipc, stMeta = encodeTableMeta w, stComment = wtComment w\<rparr> (wc_table t)\<rparr>))"
    using assms(1) by simp
qed (use assms(2) in \<open>auto simp: rmap_err_Inr_iff\<close>)

section \<open>Outcomes\<close>

lemma tableLoad_cases:
  assumes "tableLoad S U c s n db = (r, db')"
  shows "tables db' = tables db \<and>
    (case r of
       Inl (DriverError e) \<Rightarrow> True
     | Inl (Failure e) \<Rightarrow> \<exists>x. e = SchemaCodec x
     | Inr w \<Rightarrow> loaded S n (map_of (wc_table (tables db)) (tableKey U c s n)) = Inr w)"
  using assms unfolding tableLoad_loaded
proof (rule obind_cases)
  fix e assume "statement (\<lambda>t. (map_of (wc_table t) (tableKey U c s n), t)) db = (Inl e, db')" "r = Inl e"
  then show ?thesis by (auto dest: query_cases)
next
  fix found db''
  assume load: "statement (\<lambda>t. (map_of (wc_table t) (tableKey U c s n), t)) db = (Inr found, db'')"
    and rest: "olift (loaded S n found) db'' = (r, db')"
  have "tables db'' = tables db" "found = map_of (wc_table (tables db)) (tableKey U c s n)"
    using query_cases [OF load] by auto
  then show ?thesis
    using rest by (cases "loaded S n found") (auto dest: loaded_error)
qed

lemma rowsScan_cases:
  assumes "rowsScan U c s n db = (r, db')"
  shows "tables db' = tables db \<and>
    (case r of
       Inl (DriverError e) \<Rightarrow> True
     | Inl (Failure e) \<Rightarrow> False
     | Inr rows \<Rightarrow> prefix rows (scanned (tables db) (tableKey U c s n)))"
  using assms unfolding rowsScan_def
proof (rule obind_cases)
  fix e
  assume "statement (\<lambda>t. (sort_key (sint \<circ> fst) (rowsOf t (tableKey U c s n)), t)) db = (Inl e, db')" "r = Inl e"
  then show ?thesis by (auto dest: query_cases)
next
  fix rows db''
  assume query: "statement (\<lambda>t. (sort_key (sint \<circ> fst) (rowsOf t (tableKey U c s n)), t)) db = (Inr rows, db'')"
    and rest: "obind (nextRows rows) (\<lambda>out. oreturn (map (\<lambda>(rid, r). AList.update rowIDFieldName (AnyInt rid) r) out)) db'' = (r, db')"
  have same: "tables db'' = tables db" "rows = sort_key (sint \<circ> fst) (rowsOf (tables db) (tableKey U c s n))"
    using query_cases [OF query] by auto
  from rest show ?thesis
    by (rule obind_cases) (use same in \<open>auto dest!: nextRows_cases simp: scanned_def intro: map_mono_prefix\<close>)
qed

end
