(* ===== verification/WritableCatalog.thy ===== *)
theory WritableCatalog
  imports WritableStore Capabilities
begin

text \<open>
  The writable catalogs of a worker (\<open>vgi/writable_handlers.go\<close>, \<open>vgi/writable_functions.go\<close>, the migration of
  \<open>vgi/writable_constraints.go\<close>, and the writable branches of the catalog methods in \<open>vgi/catalog.go\<close> and
  \<open>vgi/catalog_contents.go\<close>), over the tables of \<open>WritableStore\<close>. All catalogs of a worker keep their data in one SQLite
  file, so a catalog is its name and one database serves them all.

  The worker's catalogs are a Go map; a definition that ranges over it takes the names in the order of that iteration.
  Log messages are left out.
\<close>

section \<open>Columns\<close>

definition rowIDField :: arrow_field where
  "rowIDField = Field rowIDFieldName INT64 False [(''is_row_id'', [])]"

definition withSynthesizedRowID :: "arrow_schema \<Rightarrow> arrow_schema" where
  "withSynthesizedRowID sch =
     (if list_ex isRowIDField (schemaFields sch) then sch
      else sch\<lparr>schemaFields := schemaFields sch @ [rowIDField]\<rparr>)"

text \<open>The default of a field is the first value under the key; a later field of the same name replaces it.\<close>

definition defaultsFromSchemaMetadata :: "arrow_schema \<Rightarrow> (string \<times> default_value) list" where
  "defaultsFromSchemaMetadata sch =
     fold (\<lambda>f out. case map_of (fieldMeta f) ''default'' of None \<Rightarrow> out | Some v \<Rightarrow> AList.update (fieldName f) (Sql v) out)
       (schemaFields sch) []"

section \<open>Schemas\<close>

text \<open>A new catalog stores its schema \<open>main\<close>; an error of that write is dropped.\<close>

definition NewWritableCatalog :: "unicode \<Rightarrow> string \<Rightarrow> string wop" where
  "NewWritableCatalog U name db = (Inr name, snd (schemaUpsert U name ''main'' [] db))"

definition writableSchemaCreate ::
  "unicode \<Rightarrow> string \<Rightarrow> schema_path \<Rightarrow> on_conflict \<Rightarrow> string option \<Rightarrow> unit wop" where
  "writableSchemaCreate U c path onConflict comment =
     (let name = schemaPathKey U path in
      obind (schemaExists U c name) (\<lambda>exists.
        if exists \<and> onConflict = OnConflictIgnore then oreturn ()
        else if exists \<and> onConflict = OnConflictError then ofail (SchemaAlreadyExists name)
        else schemaUpsert U c name (case comment of None \<Rightarrow> [] | Some s \<Rightarrow> s)))"

definition writableSchemaDrop :: "unicode \<Rightarrow> string \<Rightarrow> schema_path \<Rightarrow> bool \<Rightarrow> bool \<Rightarrow> unit wop" where
  "writableSchemaDrop U c path ignoreNotFound cascade =
     (let name = schemaPathKey U path in
      obind (schemaExists U c name) (\<lambda>exists.
        if \<not> exists then (if ignoreNotFound then oreturn () else ofail (SchemaDoesNotExist name))
        else obind (if cascade then oreturn ()
                    else obind (tableList U c name) (\<lambda>ts.
                      if length ts > 0 then ofail (SchemaHasTables name) else oreturn ()))
               (\<lambda>_. schemaDrop U c name cascade)))"

definition writableSchemaInfos :: "string \<Rightarrow> schema_info list wop" where
  "writableSchemaInfos c =
     obind (schemaList c) (\<lambda>list.
       oreturn (map (\<lambda>(name, comment).
         \<lparr>siPath = splitNUL name, siComment = descriptorComment comment, siTags = [], siEstimates = None, siOptions = None\<rparr>) list))"

text \<open>\<open>listSchemaInfos\<close> for a writable attach: shallower paths first, then by key.\<close>

definition listSchemaInfos :: "unicode \<Rightarrow> string \<Rightarrow> schema_info list wop" where
  "listSchemaInfos U c =
     obind (writableSchemaInfos c) (\<lambda>infos.
       oreturn (sort_key (\<lambda>i. length (siPath i)) (sort_key (\<lambda>i. schemaPathKey U (siPath i)) infos)))"

definition writableSchemaGet :: "ipc \<Rightarrow> unicode \<Rightarrow> string \<Rightarrow> schema_path \<Rightarrow> bytes list wop" where
  "writableSchemaGet I U c path =
     obind (schemaExists U c (schemaPathKey U path)) (\<lambda>exists.
       if \<not> exists then oreturn []
       else obind (olift (rmap_err ItemRefused (SerializeSchemaInfo I
              \<lparr>siPath = path, siComment = None, siTags = [], siEstimates = None, siOptions = None\<rparr>)))
            (\<lambda>data. oreturn [data]))"

section \<open>Tables\<close>

record writable_create =
  wcrSchemaPath :: schema_path
  wcrName :: string
  wcrColumns :: bytes
  wcrOnConflict :: string
  wcrConstraints :: "bytes list"

text \<open>The checks of CREATE TABLE that need no storage: the decoded schema and the constraint records.\<close>

definition checkedCreate ::
  "ipc \<Rightarrow> schema_codec \<Rightarrow> unicode \<Rightarrow> rune_tables \<Rightarrow> writable_create \<Rightarrow> wc_err + (arrow_schema \<times> bytes list)" where
  "checkedCreate I S U R req =
     (if length (wcrColumns req) = 0 then Inl MissingTableColumns
      else rbind (rmap_err DecodeColumns (DeserializeSchema S (wcrColumns req))) (\<lambda>sch.
      rbind (rmap_err ColumnRefused (ValidateColumnExpressions I U (Some sch) (wcrSchemaPath req) False)) (\<lambda>_.
      rbind (rmap_err ColumnRefused (ValidateColumnMetadata (Some sch))) (\<lambda>_.
      rbind (rmap_err ConstraintRefused (notNullRecords I U R (wcrSchemaPath req) (wcrName req) sch (wcrConstraints req)))
        (\<lambda>(records, required).
      rbind (rmap_err ConstraintRefused (requireUnconstrainedCreateSchema sch required)) (\<lambda>_.
        Inr (sch, records)))))))"

text \<open>The part of CREATE TABLE on the storage; REPLACE drops the old table before the new one is written.\<close>

definition placeTable :: "schema_codec \<Rightarrow> unicode \<Rightarrow> string \<Rightarrow> schema_path \<Rightarrow> on_conflict \<Rightarrow> writable_table \<Rightarrow> unit wop" where
  "placeTable S U c path onConflict t =
     (let schemaKey = schemaPathKey U path; create = tableUpsert S U c schemaKey t in
      obind (schemaExists U c schemaKey) (\<lambda>exists.
        if \<not> exists then ofail (SchemaDoesNotExist (schemaPathDisplay path))
        else obind (tableLoad S U c schemaKey (wtName t)) (\<lambda>existing.
          if existing = None then create
          else case onConflict of
            OnConflictReplace \<Rightarrow> obind (tableDrop U c schemaKey (wtName t)) (\<lambda>_. create)
          | OnConflictIgnore \<Rightarrow> oreturn ()
          | OnConflictError \<Rightarrow> ofail (TableAlreadyExists (schemaPathDisplay path) (wtName t)))))"

definition createdTable :: "string \<Rightarrow> arrow_schema \<Rightarrow> bytes list \<Rightarrow> writable_table" where
  "createdTable name sch records =
     \<lparr>wtName = name, wtSchema = sch, wtComment = [], wtConstraints = records, wtDefaults = defaultsFromSchemaMetadata sch,
      wtLegacy = None, wtColumnComment = []\<rparr>"

definition writableTableCreate ::
  "ipc \<Rightarrow> schema_codec \<Rightarrow> unicode \<Rightarrow> rune_tables \<Rightarrow> string \<Rightarrow> writable_create \<Rightarrow> unit wop" where
  "writableTableCreate I S U R c req =
     obind (olift (checkedCreate I S U R req)) (\<lambda>(sch, records).
       placeTable S U c (wcrSchemaPath req) (parseOnConflict U (wcrOnConflict req)) (createdTable (wcrName req) sch records))"

definition writableTableDrop :: "schema_codec \<Rightarrow> unicode \<Rightarrow> string \<Rightarrow> schema_path \<Rightarrow> string \<Rightarrow> bool \<Rightarrow> unit wop" where
  "writableTableDrop S U c path name ignoreNotFound =
     (let schemaKey = schemaPathKey U path in
      obind (tableLoad S U c schemaKey name) (\<lambda>existing.
        case existing of
          None \<Rightarrow> if ignoreNotFound then oreturn () else ofail (TableDoesNotExist (schemaPathDisplay path) name)
        | Some _ \<Rightarrow> tableDrop U c schemaKey name))"

definition tableInfoFromWritable ::
  "ipc \<Rightarrow> unicode \<Rightarrow> rune_tables \<Rightarrow> writable_table \<Rightarrow> schema_path \<Rightarrow> wc_err + table_info" where
  "tableInfoFromWritable I U R t path =
     (let cols = withSynthesizedRowID (wtSchema t) in
      rbind (if length (wtDefaults t) > 0 then rmap_err ColumnRefused (applyDefaults cols (wtDefaults t)) else Inr cols) (\<lambda>cols.
      rbind (rmap_err ConstraintRefused (rebindRecords I U R (wtConstraints t) path (wtName t))) (\<lambda>constraints.
        Inr ((plainTableInfo (wtName t) path (Some cols) constraints)
          \<lparr>tiComment := wtComment t,
           tiWriteModes := [(''insert'', ''count''), (''update'', ''count''), (''delete'', ''count'')]\<rparr>))))"

definition tableItemFromWritable ::
  "ipc \<Rightarrow> schema_codec \<Rightarrow> unicode \<Rightarrow> rune_tables \<Rightarrow> writable_table \<Rightarrow> schema_path \<Rightarrow> wc_err + bytes" where
  "tableItemFromWritable I S U R t path =
     rbind (tableInfoFromWritable I U R t path) (\<lambda>info. rmap_err ColumnRefused (SerializeTableInfo I S U R info))"

definition writableTableGet ::
  "ipc \<Rightarrow> schema_codec \<Rightarrow> unicode \<Rightarrow> rune_tables \<Rightarrow> string \<Rightarrow> schema_path \<Rightarrow> string \<Rightarrow> bytes list wop" where
  "writableTableGet I S U R c path name =
     obind (tableLoad S U c (schemaPathKey U path) name) (\<lambda>t.
       case t of
         None \<Rightarrow> oreturn []
       | Some t \<Rightarrow> obind (olift (tableItemFromWritable I S U R t path)) (\<lambda>data. oreturn [data]))"

fun listTables ::
  "ipc \<Rightarrow> schema_codec \<Rightarrow> unicode \<Rightarrow> rune_tables \<Rightarrow> string \<Rightarrow> schema_path \<Rightarrow> string list \<Rightarrow> bytes list wop" where
  "listTables I S U R c path [] = oreturn []"
| "listTables I S U R c path (name # names) =
     obind (tableLoad S U c (schemaPathKey U path) name) (\<lambda>t.
       case t of
         None \<Rightarrow> listTables I S U R c path names
       | Some t \<Rightarrow>
           obind (olift (tableItemFromWritable I S U R t path)) (\<lambda>data.
           obind (listTables I S U R c path names) (\<lambda>items. oreturn (data # items))))"

definition writableSchemaContentsTables ::
  "ipc \<Rightarrow> schema_codec \<Rightarrow> unicode \<Rightarrow> rune_tables \<Rightarrow> string \<Rightarrow> schema_path \<Rightarrow> bytes list wop" where
  "writableSchemaContentsTables I S U R c path =
     obind (tableList U c (schemaPathKey U path)) (listTables I S U R c path)"

section \<open>ATTACH and the migration of stored constraints\<close>

fun migrateColumns ::
  "ipc \<Rightarrow> unicode \<Rightarrow> rune_tables \<Rightarrow> schema_path \<Rightarrow> writable_table \<Rightarrow> go_row list \<Rightarrow> string list \<Rightarrow> string list \<Rightarrow> bytes list
    \<Rightarrow> con_err + bytes list" where
  "migrateColumns I U R path t rows existing [] constraints = Inr constraints"
| "migrateColumns I U R path t rows existing (column # columns) constraints =
     (if column \<in> set existing then migrateColumns I U R path t rows existing columns constraints
      else if topLevelIndex (schemaFields (wtSchema t)) column = None \<or> length path \<noteq> 1 \<or>
              list_ex (\<lambda>row. checkNotNullRow [column] row \<noteq> None) rows
      then migrateColumns I U R path t rows existing columns constraints
      else rbind (ConstraintRecord I U R (notNullSpec path (wtName t) column [])) (\<lambda>record'.
        migrateColumns I U R path t rows existing columns (constraints @ [record'])))"

definition migrateLegacyTable ::
  "ipc \<Rightarrow> schema_codec \<Rightarrow> unicode \<Rightarrow> rune_tables \<Rightarrow> string \<Rightarrow> schema_path \<Rightarrow> string \<Rightarrow> writable_table \<Rightarrow> table_meta \<Rightarrow> unit wop" where
  "migrateLegacyTable I S U R c path schemaKey t legacy =
     obind (if length (tmNotNull legacy) > 0
            then obind (rowsScan U c schemaKey (wtName t)) (\<lambda>rows.
                 obind (olift (rmap_err RecordRefused (requiredColumns I (wtConstraints t)))) (\<lambda>existing.
                   olift (rmap_err ConstraintRefused
                     (migrateColumns I U R path t rows existing (tmNotNull legacy) (wtConstraints t)))))
            else oreturn (wtConstraints t))
       (\<lambda>constraints. tableUpsert S U c schemaKey (t\<lparr>wtConstraints := constraints, wtLegacy := None\<rparr>))"

fun migrateTables ::
  "ipc \<Rightarrow> schema_codec \<Rightarrow> unicode \<Rightarrow> rune_tables \<Rightarrow> string \<Rightarrow> string \<Rightarrow> string list \<Rightarrow> unit wop" where
  "migrateTables I S U R c schemaName [] = oreturn ()"
| "migrateTables I S U R c schemaName (name # names) =
     obind (tableLoad S U c schemaName name) (\<lambda>t.
     obind (case t of
              None \<Rightarrow> oreturn ()
            | Some t \<Rightarrow>
                (case wtLegacy t of
                   None \<Rightarrow> oreturn ()
                 | Some legacy \<Rightarrow> migrateLegacyTable I S U R c (splitNUL schemaName) schemaName t legacy))
       (\<lambda>_. migrateTables I S U R c schemaName names))"

fun migrateSchemas ::
  "ipc \<Rightarrow> schema_codec \<Rightarrow> unicode \<Rightarrow> rune_tables \<Rightarrow> string \<Rightarrow> (string \<times> string) list \<Rightarrow> unit wop" where
  "migrateSchemas I S U R c [] = oreturn ()"
| "migrateSchemas I S U R c ((name, comment) # schemas) =
     obind (tableList U c name) (\<lambda>names.
     obind (migrateTables I S U R c name names) (\<lambda>_. migrateSchemas I S U R c schemas))"

definition migrateLegacyConstraints :: "ipc \<Rightarrow> schema_codec \<Rightarrow> unicode \<Rightarrow> rune_tables \<Rightarrow> string \<Rightarrow> unit wop" where
  "migrateLegacyConstraints I S U R c = obind (schemaList c) (migrateSchemas I S U R c)"

definition writablePrefix :: bytes where "writablePrefix = str ''writable:''"

definition writableByAttachOpaqueData :: "string list \<Rightarrow> bytes \<Rightarrow> string option" where
  "writableByAttachOpaqueData catalogs attach =
     (if length attach = 0 \<or> \<not> prefix writablePrefix attach then None
      else let name = unstr (drop (length writablePrefix) attach) in if name \<in> set catalogs then Some name else None)"

text \<open>The attach token and the capabilities; an error of the migration is only logged.\<close>

definition handleWritableAttach ::
  "ipc \<Rightarrow> schema_codec \<Rightarrow> unicode \<Rightarrow> rune_tables \<Rightarrow> string \<Rightarrow> bytes option \<Rightarrow> (bytes \<times> bytes option \<times> bytes option) wop" where
  "handleWritableAttach I S U R c clientCapabilities =
     (\<lambda>db. obind (olift (rmap_err CapabilityRefused (mergeCapabilities I writableCapabilities None None clientCapabilities)))
        (\<lambda>(available, selected). oreturn (writablePrefix @ str c, available, selected))
        (snd (migrateLegacyConstraints I S U R c db)))"

section \<open>Catalog methods\<close>

definition CatalogSchemaCreate ::
  "unicode \<Rightarrow> string list \<Rightarrow> bytes \<Rightarrow> schema_path \<Rightarrow> string \<Rightarrow> string option \<Rightarrow> (string \<times> string) list option \<Rightarrow> bytes option
    \<Rightarrow> unit wop" where
  "CatalogSchemaCreate U catalogs attach path onConflict comment tags options =
     (if options \<noteq> None then ofail (NotImplementedBy ''catalog_schema_create options require negotiated vgi.schema.options.create.v1'')
      else case writableByAttachOpaqueData catalogs attach of
        None \<Rightarrow> ofail (ReadOnlyCatalog ''catalog_schema_create'')
      | Some c \<Rightarrow>
          if (case tags of None \<Rightarrow> False | Some kvs \<Rightarrow> length kvs \<noteq> 0) \<or> comment = Some []
          then ofail (NotImplementedBy ''writable schema tags and empty comments are not supported'')
          else writableSchemaCreate U c path (parseOnConflict U onConflict) comment)"

definition CatalogSchemaDrop :: "unicode \<Rightarrow> string list \<Rightarrow> bytes \<Rightarrow> schema_path \<Rightarrow> bool \<Rightarrow> bool \<Rightarrow> unit wop" where
  "CatalogSchemaDrop U catalogs attach path ignoreNotFound cascade =
     (case writableByAttachOpaqueData catalogs attach of
        None \<Rightarrow> ofail (ReadOnlyCatalog ''catalog_schema_drop'')
      | Some c \<Rightarrow> writableSchemaDrop U c path ignoreNotFound cascade)"

text \<open>\<open>other\<close>: the request has a comment, tags, options or a layout.\<close>

definition CatalogTableCreate ::
  "ipc \<Rightarrow> schema_codec \<Rightarrow> unicode \<Rightarrow> rune_tables \<Rightarrow> string list \<Rightarrow> bytes \<Rightarrow> writable_create \<Rightarrow> bool \<Rightarrow> unit wop" where
  "CatalogTableCreate I S U R catalogs attach req other =
     (if length (wcrConstraints req) > 0 then ofail (NotImplementedBy ''catalog_table_create: canonical constraint enforcement'')
      else if other then ofail (NotImplementedBy ''catalog_table_create'')
      else case writableByAttachOpaqueData catalogs attach of
        None \<Rightarrow> ofail (ReadOnlyCatalog ''catalog_table_create'')
      | Some c \<Rightarrow> writableTableCreate I S U R c req)"

definition CatalogTableDrop ::
  "schema_codec \<Rightarrow> unicode \<Rightarrow> string list \<Rightarrow> bytes \<Rightarrow> schema_path \<Rightarrow> string \<Rightarrow> bool \<Rightarrow> unit wop" where
  "CatalogTableDrop S U catalogs attach path name ignoreNotFound =
     (case writableByAttachOpaqueData catalogs attach of
        None \<Rightarrow> ofail (ReadOnlyCatalog ''catalog_table_drop'')
      | Some c \<Rightarrow> writableTableDrop S U c path name ignoreNotFound)"

section \<open>Table functions\<close>

fun findWritableTable ::
  "schema_codec \<Rightarrow> unicode \<Rightarrow> string list \<Rightarrow> string \<Rightarrow> string \<Rightarrow> (string \<times> writable_table) wop" where
  "findWritableTable S U [] schemaPath table = ofail (WritableTableNotFound schemaPath table)"
| "findWritableTable S U (c # catalogs) schemaPath table =
     obind (tableLoad S U c schemaPath table) (\<lambda>t.
       case t of Some t \<Rightarrow> oreturn (c, t) | None \<Rightarrow> findWritableTable S U catalogs schemaPath table)"

text \<open>The scan: bind, cardinality (estimate and maximum), and \<open>Process\<close>, which takes and returns the \<open>Emitted\<close> flag of its state.\<close>

definition scanOnBind :: "schema_codec \<Rightarrow> unicode \<Rightarrow> string list \<Rightarrow> string \<Rightarrow> string \<Rightarrow> arrow_schema wop" where
  "scanOnBind S U catalogs schemaPath table =
     obind (findWritableTable S U catalogs schemaPath table) (\<lambda>(c, t). oreturn (withSynthesizedRowID (wtSchema t)))"

definition scanCardinality :: "schema_codec \<Rightarrow> unicode \<Rightarrow> string list \<Rightarrow> string \<Rightarrow> string \<Rightarrow> (nat \<times> nat) wop" where
  "scanCardinality S U catalogs schemaPath table db =
     (case obind (findWritableTable S U catalogs schemaPath table) (\<lambda>(c, t). rowsCount U c schemaPath table) db of
        (Inl _, db') \<Rightarrow> (Inr (0, 0), db')
      | (Inr n, db') \<Rightarrow> (Inr (n, n), db'))"

definition scanProcess ::
  "floats \<Rightarrow> schema_codec \<Rightarrow> unicode \<Rightarrow> string list \<Rightarrow> arrow_schema option \<Rightarrow> string \<Rightarrow> string \<Rightarrow> bool
    \<Rightarrow> (bool \<times> record_batch option) wop" where
  "scanProcess F S U catalogs outputSchema schemaPath table emitted =
     (if emitted then oreturn (True, None)
      else obind (findWritableTable S U catalogs schemaPath table) (\<lambda>(c, t).
      obind (rowsScan U c schemaPath table) (\<lambda>rows.
      if length rows = 0 then oreturn (True, None)
      else obind (olift (rmap_err BatchRefused
             (rowsToBatch F (case outputSchema of None \<Rightarrow> withSynthesizedRowID (wtSchema t) | Some sch \<Rightarrow> sch) rows)))
           (\<lambda>batch. oreturn (True, Some batch)))))"

definition writableCountBatch :: "string \<Rightarrow> int64 \<Rightarrow> record_batch" where
  "writableCountBatch name n = \<lparr>rbFields = [Field name INT64 False []], rbColumns = [[Some (Int64V n)]], rbRows = 1\<rparr>"

record mutate_state =
  mutSchemaPath :: string
  mutTableName :: string
  mutCount :: int64
  mutCatalog :: "string option"
  mutRequired :: "string list"

definition newMutateState :: "string \<Rightarrow> string \<Rightarrow> mutate_state" where
  "newMutateState schemaPath table =
     \<lparr>mutSchemaPath = schemaPath, mutTableName = table, mutCount = 0, mutCatalog = None, mutRequired = []\<rparr>"

definition resolveCatalog ::
  "ipc \<Rightarrow> schema_codec \<Rightarrow> unicode \<Rightarrow> string list \<Rightarrow> mutate_state \<Rightarrow> (string \<times> mutate_state) wop" where
  "resolveCatalog I S U catalogs st =
     (case mutCatalog st of
        Some c \<Rightarrow> oreturn (c, st)
      | None \<Rightarrow>
          obind (findWritableTable S U catalogs (mutSchemaPath st) (mutTableName st)) (\<lambda>(c, t).
          obind (olift (rmap_err RecordRefused (requiredColumns I (wtConstraints t)))) (\<lambda>required.
            oreturn (c, st\<lparr>mutRequired := required, mutCatalog := Some c\<rparr>))))"

definition insertProcess ::
  "ipc \<Rightarrow> schema_codec \<Rightarrow> unicode \<Rightarrow> string list \<Rightarrow> mutate_state \<Rightarrow> record_batch \<Rightarrow> (mutate_state \<times> record_batch) wop" where
  "insertProcess I S U catalogs st batch =
     obind (resolveCatalog I S U catalogs st) (\<lambda>(c, st).
     let rows = batchToRows batch; n = of_nat (length rows) in
     obind (rowsAppend U c (mutSchemaPath st) (mutTableName st) rows (mutRequired st)) (\<lambda>_.
       oreturn (st\<lparr>mutCount := mutCount st + n\<rparr>, writableCountBatch ''rows_inserted'' n)))"

definition updateProcess ::
  "floats \<Rightarrow> ipc \<Rightarrow> schema_codec \<Rightarrow> unicode \<Rightarrow> string list \<Rightarrow> mutate_state \<Rightarrow> record_batch \<Rightarrow> (mutate_state \<times> record_batch) wop" where
  "updateProcess F I S U catalogs st batch =
     obind (resolveCatalog I S U catalogs st) (\<lambda>(c, st).
     obind (rowsUpdate F U c (mutSchemaPath st) (mutTableName st) (batchToRows batch) (mutRequired st)) (\<lambda>updated.
       oreturn (st\<lparr>mutCount := mutCount st + updated\<rparr>, writableCountBatch ''rows_updated'' updated)))"

definition deleteProcess ::
  "floats \<Rightarrow> ipc \<Rightarrow> schema_codec \<Rightarrow> unicode \<Rightarrow> string list \<Rightarrow> mutate_state \<Rightarrow> record_batch \<Rightarrow> (mutate_state \<times> record_batch) wop" where
  "deleteProcess F I S U catalogs st batch =
     obind (resolveCatalog I S U catalogs st) (\<lambda>(c, st).
     let rids = map (toInt64 F) (List.map_filter (\<lambda>r. map_of r rowIDFieldName) (batchToRows batch)) in
     obind (rowsDelete U c (mutSchemaPath st) (mutTableName st) rids) (\<lambda>deleted.
       oreturn (st\<lparr>mutCount := mutCount st + deleted\<rparr>, writableCountBatch ''rows_deleted'' deleted)))"

section \<open>The arguments of the table functions\<close>

text \<open>
  The Go value of a scan argument, and the cell it becomes: every case asserts the builder of its type, and a value of another
  Go type, such as a schema path, becomes NULL.
\<close>

datatype scan_arg =
    ScanBool bool
  | ScanInt int64
  | ScanInt32 "32 word"
  | ScanFloat64 "64 word"
  | ScanFloat32 "32 word"
  | ScanString string
  | ScanBytes bytes
  | ScanStrings "string list"

definition toBuilder :: "arrow_type \<Rightarrow> arrow_type \<Rightarrow> arrow_value \<Rightarrow> batch_err + arrow_value option" where
  "toBuilder builder asserted v = (if builder = asserted then Inr (Some v) else Inl (TypeAssertionPanic ''appendValue''))"

fun appendValue :: "arrow_type \<Rightarrow> scan_arg \<Rightarrow> batch_err + arrow_value option" where
  "appendValue b (ScanBool v) = toBuilder b BOOL (BooleanV v)"
| "appendValue b (ScanInt v) = toBuilder b INT64 (Int64V v)"
| "appendValue b (ScanInt32 v) = toBuilder b INT32 (Int32V v)"
| "appendValue b (ScanFloat64 v) = toBuilder b FLOAT64 (Float64V v)"
| "appendValue b (ScanFloat32 v) = toBuilder b FLOAT32 (Float32V v)"
| "appendValue b (ScanString v) = toBuilder b STRING (StringV v)"
| "appendValue b (ScanBytes v) = toBuilder b BINARY (BinaryV v)"
| "appendValue b (ScanStrings _) = Inr None"

text \<open>The cells of the positional arguments.\<close>

definition serializeScanArgs :: "(scan_arg \<times> arrow_type) list \<Rightarrow> batch_err + arrow_value option list" where
  "serializeScanArgs positional = mapResult (\<lambda>(v, t). appendValue t v) positional"

definition writableFunctionArguments :: "schema_path \<Rightarrow> string \<Rightarrow> batch_err + arrow_value option list" where
  "writableFunctionArguments path name = serializeScanArgs [(ScanStrings path, STRING), (ScanString name, STRING)]"

text \<open>\<open>GetScalarString\<close> with its error dropped, as the table functions call it, on plain columns (no dictionaries).\<close>

definition scalarString :: "arrow_value option list \<Rightarrow> nat \<Rightarrow> string" where
  "scalarString args k =
     (if k < length args then (case args ! k of Some (StringV s) \<Rightarrow> s | _ \<Rightarrow> []) else [])"

definition writableArgs :: "arrow_value option list \<Rightarrow> string \<times> string" where
  "writableArgs args = (scalarString args 0, scalarString args 1)"

section \<open>A new catalog\<close>

lemma new_catalog:
  assumes "faults db = []" "NewWritableCatalog U name db = (r, db')"
  shows "r = Inr name" "wc_table (tables db') = wc_table (tables db)" "wc_row (tables db') = wc_row (tables db)"
    "schemaExists U name ''main'' db' = (Inr True, db')"
  using assms by (auto simp: NewWritableCatalog_def schemaUpsert_def schemaExists_def update_conv')

end
