(* ===== verification/WritableSafety.thy ===== *)
theory WritableSafety
  imports WritableCatalog
begin

text \<open>
  NOT NULL in the writable catalogs. A request is a catalog method or a DML statement with all its batches; a store is
  reachable by serving requests with a driver that may fail at every call, except that the migration at ATTACH reads
  the rows it judges without failures. In a reachable store every row belongs to a table, and every column the
  table's records require is set in it.
\<close>

section \<open>Requests\<close>

datatype writable_request =
    SchemaCreate string schema_path on_conflict "string option"
  | SchemaDrop string schema_path bool bool
  | TableCreate string writable_create
  | TableDrop string schema_path string bool
  | Attach string "bytes option"
  | Insert "string list" string string "record_batch list"
  | Update "string list" string string "record_batch list"
  | Delete "string list" string string "record_batch list"

text \<open>A statement: its batches in order, up to the first error.\<close>

fun processAll ::
  "(mutate_state \<Rightarrow> record_batch \<Rightarrow> (mutate_state \<times> record_batch) wop) \<Rightarrow> mutate_state \<Rightarrow> record_batch list \<Rightarrow> record_batch list wop" where
  "processAll process st [] = oreturn []"
| "processAll process st (batch # batches) =
     obind (process st batch) (\<lambda>(st', result).
     obind (processAll process st' batches) (\<lambda>results. oreturn (result # results)))"

definition serveWritable ::
  "ipc \<Rightarrow> schema_codec \<Rightarrow> unicode \<Rightarrow> rune_tables \<Rightarrow> floats \<Rightarrow> writable_request \<Rightarrow> record_batch list wop" where
  "serveWritable I S U R F req =
     (case req of
        SchemaCreate c path onConflict comment \<Rightarrow> obind (writableSchemaCreate U c path onConflict comment) (\<lambda>_. oreturn [])
      | SchemaDrop c path ignoreNotFound cascade \<Rightarrow> obind (writableSchemaDrop U c path ignoreNotFound cascade) (\<lambda>_. oreturn [])
      | TableCreate c create \<Rightarrow> obind (writableTableCreate I S U R c create) (\<lambda>_. oreturn [])
      | TableDrop c path name ignoreNotFound \<Rightarrow> obind (writableTableDrop S U c path name ignoreNotFound) (\<lambda>_. oreturn [])
      | Attach c capabilities \<Rightarrow> obind (handleWritableAttach I S U R c capabilities) (\<lambda>_. oreturn [])
      | Insert catalogs s n batches \<Rightarrow> processAll (insertProcess I S U catalogs) (newMutateState s n) batches
      | Update catalogs s n batches \<Rightarrow> processAll (updateProcess F I S U catalogs) (newMutateState s n) batches
      | Delete catalogs s n batches \<Rightarrow> processAll (deleteProcess F I S U catalogs) (newMutateState s n) batches)"

section \<open>Rules on tables and rows\<close>

text \<open>
  A rule has a condition \<open>fine\<close> on the definition of a table and a condition \<open>ok\<close> on the rows under it. In a guarded store every
  row belongs to a table and obeys the rule.
\<close>

definition tableRow :: "(stored_table \<Rightarrow> go_row \<Rightarrow> bool) \<Rightarrow> (wc_key \<times> stored_table) list \<Rightarrow> wc_key \<Rightarrow> go_row \<Rightarrow> bool" where
  "tableRow ok T k r \<longleftrightarrow> (\<exists>st. map_of T k = Some st \<and> ok st r)"

definition guarded :: "(stored_table \<Rightarrow> bool) \<Rightarrow> (stored_table \<Rightarrow> go_row \<Rightarrow> bool) \<Rightarrow> wc_tables \<Rightarrow> bool" where
  "guarded fine ok t \<longleftrightarrow>
     holds (tableRow ok (wc_table t)) (wc_table t) (wc_schema t) t \<and>
     (\<forall>k st. map_of (wc_table t) k = Some st \<longrightarrow> fine st)"

text \<open>No row of a table in \<open>K\<close>.\<close>

definition rowless :: "(wc_key \<Rightarrow> bool) \<Rightarrow> wc_tables \<Rightarrow> bool" where
  "rowless K t \<longleftrightarrow> list_all (\<lambda>((k, rid), r). \<not> K k) (wc_row t)"

lemma encodeTableMeta_simps [simp]: "tmNotNull (encodeTableMeta w) = []" "tmConstraints (encodeTableMeta w) = wtConstraints w"
  by (simp_all add: encodeTableMeta_def)

lemma triple_pure: "(A \<Longrightarrow> triple P m Q E) \<Longrightarrow> triple (\<lambda>t. P t \<and> A) m Q E"
  by (simp add: triple_def)

text \<open>A statement's state: once it has resolved its table, it has the columns the table requires.\<close>

definition resolved :: "ipc \<Rightarrow> unicode \<Rightarrow> string list \<Rightarrow> (wc_key \<times> stored_table) list \<Rightarrow> mutate_state \<Rightarrow> bool" where
  "resolved I U catalogs T st \<longleftrightarrow>
     (\<forall>c. mutCatalog st = Some c \<longrightarrow>
        c \<in> set catalogs \<and>
        (\<exists>w. map_of T (tableKey U c (mutSchemaPath st) (mutTableName st)) = Some w \<and>
           requiredColumns I (tmConstraints (stMeta w)) = Inr (mutRequired st)))"

text \<open>The batches of a statement are admitted by every table its names may resolve to.\<close>

definition admits ::
  "(stored_table \<Rightarrow> record_batch \<Rightarrow> bool) \<Rightarrow> unicode \<Rightarrow> string list \<Rightarrow> string \<Rightarrow> string \<Rightarrow> record_batch list \<Rightarrow> (wc_key \<times> stored_table) list \<Rightarrow> bool" where
  "admits admitted U catalogs s n batches T \<longleftrightarrow>
     (\<forall>c st. c \<in> set catalogs \<longrightarrow> map_of T (tableKey U c s n) = Some st \<longrightarrow> list_all (admitted st) batches)"

lemma findWritableTable_triple:
  assumes "\<And>t. P t \<Longrightarrow> E t"
  shows "triple P (findWritableTable S U catalogs s n)
    (\<lambda>(c, w) t. P t \<and> c \<in> set catalogs \<and> loaded S n (map_of (wc_table t) (tableKey U c s n)) = Inr (Some w)) E"
proof (induction catalogs)
  case Nil
  show ?case unfolding findWritableTable.simps by (rule triple_ofail) (rule assms)
next
  case (Cons c catalogs)
  show ?case
    unfolding findWritableTable.simps
  proof (rule triple_obind [OF tableLoad_triple [OF assms]])
    fix found
    show "triple (\<lambda>t. P t \<and> loaded S n (map_of (wc_table t) (tableKey U c s n)) = Inr found)
        (case found of None \<Rightarrow> findWritableTable S U catalogs s n | Some w \<Rightarrow> oreturn (c, w))
        (\<lambda>(c', w) t. P t \<and> c' \<in> set (c # catalogs) \<and> loaded S n (map_of (wc_table t) (tableKey U c' s n)) = Inr (Some w)) E"
    proof (cases found)
      case None
      show ?thesis unfolding None option.case by (rule triple_mono [OF Cons]) auto
    qed (simp add: triple_oreturn)
  qed
qed

lemma resolveCatalog_triple:
  assumes "resolved I U catalogs T st"
  shows "triple (holds Q T X) (resolveCatalog I S U catalogs st)
    (\<lambda>(c, st') t. holds Q T X t \<and> (resolved I U catalogs T st' \<and> mutCatalog st' = Some c \<and>
       mutSchemaPath st' = mutSchemaPath st \<and> mutTableName st' = mutTableName st)) (holds Q T X)"
proof (cases "mutCatalog st")
  case None
  have found: "\<exists>st'. map_of T (tableKey U c (mutSchemaPath st) (mutTableName st)) = Some st' \<and> wtConstraints w = tmConstraints (stMeta st')"
    if "loaded S (mutTableName st) (map_of (wc_table t) (tableKey U c (mutSchemaPath st) (mutTableName st))) = Inr (Some w)" "holds Q T X t"
    for c w t
    using that by (auto dest!: loaded_Some simp: holds_def writableTableFromMeta_def)
  show ?thesis
    unfolding resolveCatalog_def None option.case
  proof (rule triple_obind [OF findWritableTable_triple], assumption, clarify)
    fix c w
    let ?key = "tableKey U c (mutSchemaPath st) (mutTableName st)"
    let ?required = "\<lambda>required. c \<in> set catalogs \<and>
        (\<exists>st'. map_of T ?key = Some st' \<and> requiredColumns I (tmConstraints (stMeta st')) = Inr required)"
    show "triple (\<lambda>t. holds Q T X t \<and> c \<in> set catalogs \<and> loaded S (mutTableName st) (map_of (wc_table t) ?key) = Inr (Some w))
        (obind (olift (rmap_err RecordRefused (requiredColumns I (wtConstraints w)))) (\<lambda>required.
           oreturn (c, st\<lparr>mutRequired := required, mutCatalog := Some c\<rparr>)))
        (\<lambda>(c, st') t. holds Q T X t \<and> (resolved I U catalogs T st' \<and> mutCatalog st' = Some c \<and>
           mutSchemaPath st' = mutSchemaPath st \<and> mutTableName st' = mutTableName st)) (holds Q T X)"
    proof (rule triple_obind [OF triple_olift [where Q = "\<lambda>required t. holds Q T X t \<and> ?required required"]])
      show "holds Q T X t \<and> ?required required"
        if "rmap_err RecordRefused (requiredColumns I (wtConstraints w)) = Inr required"
          "holds Q T X t \<and> c \<in> set catalogs \<and> loaded S (mutTableName st) (map_of (wc_table t) ?key) = Inr (Some w)" for required t
        using that found [of t c w] by (auto simp: res_simps)
      show "triple (\<lambda>t. holds Q T X t \<and> ?required required) (oreturn (c, st\<lparr>mutRequired := required, mutCatalog := Some c\<rparr>))
          (\<lambda>(c, st') t. holds Q T X t \<and> (resolved I U catalogs T st' \<and> mutCatalog st' = Some c \<and>
             mutSchemaPath st' = mutSchemaPath st \<and> mutTableName st' = mutTableName st)) (holds Q T X)" for required
        by (rule triple_oreturn) (simp add: resolved_def)
    qed simp
  qed
next
  case (Some c)
  show ?thesis
    unfolding resolveCatalog_def Some option.case by (rule triple_oreturn) (simp add: assms Some)
qed

lemma resolved_new [simp]: "resolved I U catalogs T (newMutateState s n)"
  by (simp add: resolved_def newMutateState_def)

section \<open>Definitions of schemas and tables\<close>

text \<open>A rule that every definition the code writes is fine under.\<close>

locale table_rule =
  fixes fine :: "stored_table \<Rightarrow> bool" and ok :: "stored_table \<Rightarrow> go_row \<Rightarrow> bool"
  assumes fine_written: "fine \<lparr>stSchemaIPC = ipc, stMeta = encodeTableMeta w, stComment = s\<rparr>"
begin

abbreviation guard :: "wc_tables \<Rightarrow> bool" where
  "guard \<equiv> guarded fine ok"

lemma guardD:
  assumes "guard t" "((k, rid), r) \<in> set (wc_row t)"
  obtains st where "map_of (wc_table t) k = Some st" "ok st r" "fine st"
proof -
  have "tableRow ok (wc_table t) k r" using assms by (fastforce simp: guarded_def holds_def list_all_iff)
  then obtain st where st: "map_of (wc_table t) k = Some st" "ok st r" by (auto simp: tableRow_def)
  then have "fine st" using assms(1) unfolding guarded_def by blast
  then show ?thesis using st that by blast
qed

lemma guard_rowless: "guard t \<Longrightarrow> map_of (wc_table t) k = None \<Longrightarrow> rowless ((=) k) t"
  by (fastforce simp: guarded_def holds_def rowless_def list_all_iff tableRow_def)

lemma guarded_schema [simp]: "guard (t\<lparr>wc_schema := s\<rparr>) \<longleftrightarrow> guard t"
  by (simp add: guarded_def holds_def)

text \<open>Fewer rows.\<close>

lemma guarded_filter_rows: "guard t \<Longrightarrow> guard (t\<lparr>wc_row := filter P (wc_row t)\<rparr>)"
  by (auto simp: guarded_def holds_def list_all_iff distinct_map_filter)

text \<open>Tables without rows removed or written.\<close>

lemma guarded_filter_tables:
  assumes "guard t" "rowless K t"
  shows "guard (t\<lparr>wc_table := filter (\<lambda>(k, st). \<not> K k) (wc_table t)\<rparr>)"
proof -
  have table: "map_of (filter (\<lambda>(k, st). \<not> K k) (wc_table t)) k = (if K k then None else map_of (wc_table t) k)" for k
    using map_of_filter_keys [of K "wc_table t"] by simp
  have "list_all (\<lambda>((k, rid), r). tableRow ok (filter (\<lambda>(k, st). \<not> K k) (wc_table t)) k r) (wc_row t)"
    using assms by (auto simp: guarded_def holds_def rowless_def list_all_iff tableRow_def table)
  then show ?thesis
    using assms(1) by (auto simp: guarded_def holds_def table)
qed

lemma guarded_update_table:
  assumes "guard t" "fine st" "\<And>rid r. ((k, rid), r) \<in> set (wc_row t) \<Longrightarrow> ok st r"
  shows "guard (t\<lparr>wc_table := AList.update k st (wc_table t)\<rparr>)"
proof -
  have "list_all (\<lambda>((k', rid), r). tableRow ok (AList.update k st (wc_table t)) k' r) (wc_row t)"
    unfolding list_all_iff
  proof clarify
    fix k' rid r
    assume row: "((k', rid), r) \<in> set (wc_row t)"
    show "tableRow ok (AList.update k st (wc_table t)) k' r"
    proof (cases "k' = k")
      case True
      then show ?thesis using assms(3) row by (auto simp: tableRow_def update_conv')
    next
      case False
      then show ?thesis
        using guardD [OF assms(1) row] by (fastforce simp: tableRow_def update_conv')
    qed
  qed
  then show ?thesis
    using assms(1,2) by (auto simp: guarded_def holds_def update_conv')
qed

lemma guarded_upsert:
  "guard t \<Longrightarrow> rowless ((=) k) t \<Longrightarrow>
   guard (t\<lparr>wc_table := AList.update k \<lparr>stSchemaIPC = ipc, stMeta = encodeTableMeta w, stComment = s\<rparr> (wc_table t)\<rparr>)"
  by (rule guarded_update_table) (auto simp: rowless_def list_all_iff fine_written)

lemma schemaUpsert_guarded: "triple (guard) (schemaUpsert U c name comment) (\<lambda>_. guard) (guard)"
  unfolding schemaUpsert_def by (rule triple_statement) simp_all

lemma schemaExists_guarded: "triple (guard) (schemaExists U c name) (\<lambda>_. guard) (guard)"
  unfolding schemaExists_def by (rule triple_query)

lemma tableList_guarded: "triple (guard) (tableList U c s) (\<lambda>_. guard) (guard)"
  unfolding tableList_def by (rule triple_obind [OF triple_query triple_nextRows])

lemma schemaDrop_guarded: "triple (guard) (schemaDrop U c name cascade) (\<lambda>_. guard) (guard)"
  unfolding schemaDrop_def
proof (rule triple_transaction [OF triple_obind])
  define K :: "wc_key \<Rightarrow> bool" where "K = (\<lambda>(c', s, n). c' = c \<and> s = ToLower U name)"
  have rows: "guard (deleteSchemaRows U c name t)" "rowless K (deleteSchemaRows U c name t)" if "guard t" for t
    unfolding deleteSchemaRows_def using guarded_filter_rows [OF that] by (auto simp: rowless_def list_all_iff K_def)
  have tabs: "guard (deleteSchemaTables U c name t)" if "guard t" "rowless K t" for t
  proof -
    have eq: "filter (\<lambda>((c', s, n), st). \<not> (c' = c \<and> s = ToLower U name)) (wc_table t) = filter (\<lambda>(k, st). \<not> K k) (wc_table t)"
      by (rule filter_cong) (auto simp: K_def)
    show ?thesis unfolding deleteSchemaTables_def eq using that by (rule guarded_filter_tables)
  qed
  show "triple (guard)
      (if cascade then obind (statement (\<lambda>t. ((), deleteSchemaRows U c name t)))
          (\<lambda>_. statement (\<lambda>t. ((), deleteSchemaTables U c name t))) else oreturn ()) (\<lambda>_. guard) (\<lambda>_. True)"
  proof (cases cascade)
    case True
    show ?thesis
      unfolding if_P [OF True]
      by (rule triple_obind [OF triple_statement [where Q = "\<lambda>_ t. guard t \<and> rowless K t"] triple_statement])
        (simp_all add: rows tabs)
  qed (simp add: triple_oreturn)
  show "triple (guard) (statement (\<lambda>t. ((), t\<lparr>wc_schema := AList.delete (c, ToLower U name) (wc_schema t)\<rparr>)))
      (\<lambda>_. guard) (\<lambda>_. True)" for x :: unit
    by (rule triple_statement) simp_all
qed

lemma tableDrop_guarded:
  "triple (guard) (tableDrop U c s n) (\<lambda>_ t. guard t \<and> rowless ((=) (tableKey U c s n)) t) (guard)"
  unfolding tableDrop_def
proof (rule triple_transaction [OF triple_obind [OF triple_statement triple_statement]])
  let ?K = "(=) (tableKey U c s n)"
  show "guard (snd ((), deleteTableRows (tableKey U c s n) t)) \<and> rowless ?K (snd ((), deleteTableRows (tableKey U c s n) t))"
    if "guard t" for t
    using that by (auto simp: deleteTableRows_def rowless_def list_all_iff guarded_filter_rows)
  show "guard (snd ((), t\<lparr>wc_table := AList.delete (tableKey U c s n) (wc_table t)\<rparr>)) \<and>
      rowless ?K (snd ((), t\<lparr>wc_table := AList.delete (tableKey U c s n) (wc_table t)\<rparr>))" if "guard t \<and> rowless ?K t" for t
  proof -
    have "AList.delete (tableKey U c s n) (wc_table t) = filter (\<lambda>(k, st). \<not> ?K k) (wc_table t)"
      unfolding AList.delete_eq by (rule filter_cong) auto
    then show ?thesis using guarded_filter_tables [of t ?K] that by (simp add: rowless_def)
  qed
qed simp_all

lemma writableSchemaCreate_guarded: "triple (guard) (writableSchemaCreate U c path action comment) (\<lambda>_. guard) (guard)"
  unfolding writableSchemaCreate_def Let_def
  by (rule triple_obind [OF schemaExists_guarded]) (simp add: triple_oreturn triple_ofail schemaUpsert_guarded)

lemma writableSchemaDrop_guarded:
  "triple (guard) (writableSchemaDrop U c path ignoreNotFound cascade) (\<lambda>_. guard) (guard)"
proof -
  have empty: "triple (guard) (obind (tableList U c name) (\<lambda>ts.
      if length ts > 0 then ofail (SchemaHasTables name) else oreturn ())) (\<lambda>_. guard) (guard)" for name
    by (rule triple_obind [OF tableList_guarded]) (simp add: triple_oreturn triple_ofail)
  have drop: "triple (guard) (obind (if cascade then oreturn () else obind (tableList U c name) (\<lambda>ts.
      if length ts > 0 then ofail (SchemaHasTables name) else oreturn ())) (\<lambda>_. schemaDrop U c name cascade))
      (\<lambda>_. guard) (guard)" for name
    by (rule triple_obind [where Q = "\<lambda>_. guard"]) (use empty in \<open>simp_all add: triple_oreturn schemaDrop_guarded\<close>)
  show ?thesis
    unfolding writableSchemaDrop_def Let_def
    by (rule triple_obind [OF schemaExists_guarded])
      (use drop in \<open>simp add: triple_oreturn triple_ofail del: length_greater_0_conv\<close>)
qed

lemma tableUpsert_guarded:
  "triple (\<lambda>t. guard t \<and> rowless ((=) (tableKey U c s (wtName w))) t) (tableUpsert S U c s w) (\<lambda>_. guard) (guard)"
  by (rule tableUpsert_triple) (simp_all add: guarded_upsert)

lemma placeTable_guarded: "triple (guard) (placeTable S U c path onConflict w) (\<lambda>_. guard) (guard)"
proof -
  let ?key = "schemaPathKey U path"
  let ?found = "\<lambda>found t. guard t \<and> loaded S (wtName w) (map_of (wc_table t) (tableKey U c ?key (wtName w))) = Inr found"
  note create = tableUpsert_guarded [of U c ?key w S]
  have fresh: "triple (?found None) (tableUpsert S U c ?key w) (\<lambda>_. guard) (guard)"
    by (rule triple_mono [OF create])
      (auto simp: loaded_def res_simps intro: guard_rowless split: option.splits)
  have replace: "triple (guard) (obind (tableDrop U c ?key (wtName w)) (\<lambda>_. tableUpsert S U c ?key w)) (\<lambda>_. guard) (guard)"
    by (rule triple_obind [OF tableDrop_guarded create])
  have conflict: "triple (guard) (case onConflict of
      OnConflictReplace \<Rightarrow> obind (tableDrop U c ?key (wtName w)) (\<lambda>_. tableUpsert S U c ?key w)
    | OnConflictIgnore \<Rightarrow> oreturn ()
    | OnConflictError \<Rightarrow> ofail (TableAlreadyExists (schemaPathDisplay path) (wtName w))) (\<lambda>_. guard) (guard)"
    by (cases onConflict) (use replace in \<open>simp_all add: triple_oreturn triple_ofail\<close>)
  have existing: "triple (?found found) (if found = None then tableUpsert S U c ?key w else case onConflict of
      OnConflictReplace \<Rightarrow> obind (tableDrop U c ?key (wtName w)) (\<lambda>_. tableUpsert S U c ?key w)
    | OnConflictIgnore \<Rightarrow> oreturn ()
    | OnConflictError \<Rightarrow> ofail (TableAlreadyExists (schemaPathDisplay path) (wtName w))) (\<lambda>_. guard) (guard)" for found
  proof (cases found)
    case None
    show ?thesis unfolding None using fresh by (simp only: simp_thms if_True)
  next
    case (Some w')
    have distinct: "Some w' \<noteq> None" by simp
    show ?thesis unfolding Some if_not_P [OF distinct] by (rule triple_mono [OF conflict]) simp_all
  qed
  show ?thesis
    unfolding placeTable_def Let_def
    by (rule triple_obind [OF schemaExists_guarded])
      (use triple_obind [OF tableLoad_triple existing] in \<open>simp add: triple_ofail\<close>)
qed

lemma writableTableCreate_guarded: "triple (guard) (writableTableCreate I S U R c req) (\<lambda>_. guard) (guard)"
  unfolding writableTableCreate_def
  by (rule triple_obind [OF triple_olift [where Q = "\<lambda>_. guard"]]) (auto intro: placeTable_guarded)

lemma writableTableDrop_guarded: "triple (guard) (writableTableDrop S U c path name ignoreNotFound) (\<lambda>_. guard) (guard)"
  unfolding writableTableDrop_def Let_def
proof (rule triple_obind [OF tableLoad_triple])
  fix found
  have "triple (guard) (tableDrop U c (schemaPathKey U path) name) (\<lambda>_. guard) (guard)"
    by (rule triple_mono [OF tableDrop_guarded]) simp_all
  then show "triple (\<lambda>t. guard t \<and> loaded S name (map_of (wc_table t) (tableKey U c (schemaPathKey U path) name)) = Inr found)
      (case found of None \<Rightarrow> if ignoreNotFound then oreturn () else ofail (TableDoesNotExist (schemaPathDisplay path) name)
       | Some _ \<Rightarrow> tableDrop U c (schemaPathKey U path) name) (\<lambda>_. guard) (guard)"
    by (cases found) (auto intro: triple_oreturn triple_ofail triple_mono)
qed

end

section \<open>Statements\<close>

lemma triple_discard: "triple P m (\<lambda>_. P) P \<Longrightarrow> triple P (obind m (\<lambda>_. oreturn x)) (\<lambda>_. P) P"
  by (rule triple_obind) (auto intro: triple_oreturn)

text \<open>Operations on the rows keep the definitions, so a rule can be shown for fixed ones.\<close>

lemma guarded_rows_triple:
  assumes "\<And>T X. A T \<Longrightarrow> \<forall>k st. map_of T k = Some st \<longrightarrow> fine st \<Longrightarrow>
      triple (holds (tableRow ok T) T X) m (\<lambda>_. holds (tableRow ok T) T X) (holds (tableRow ok T) T X)"
  shows "triple (\<lambda>t. guarded fine ok t \<and> A (wc_table t)) m (\<lambda>_. guarded fine ok) (guarded fine ok)"
  unfolding triple_def
proof (intro allI impI)
  fix db :: "wc_tables database"
  let ?T = "wc_table (tables db)" and ?X = "wc_schema (tables db)"
  assume "guarded fine ok (tables db) \<and> A ?T"
  then have db: "holds (tableRow ok ?T) ?T ?X (tables db)" "\<forall>k st. map_of ?T k = Some st \<longrightarrow> fine st" "A ?T"
    by (simp_all add: guarded_def)
  have kept: "guarded fine ok t" if "holds (tableRow ok ?T) ?T ?X t" for t
    using that db(2) by (simp add: guarded_def holds_def)
  obtain r db' where run: "m db = (r, db')" by (cases "m db")
  show "case m db of (Inl e, db') \<Rightarrow> guarded fine ok (tables db') | (Inr x, db') \<Rightarrow> guarded fine ok (tables db')"
    using tripleD [OF assms [OF db(3,2)] db(1) run] kept run by (cases r) auto
qed

lemma processAll_triple:
  assumes "\<And>st batch. resolved I U catalogs T st \<Longrightarrow> admits admitted U catalogs (mutSchemaPath st) (mutTableName st) [batch] T \<Longrightarrow>
      triple P (process st batch) (\<lambda>(st', result) t. P t \<and> (resolved I U catalogs T st' \<and>
         mutSchemaPath st' = mutSchemaPath st \<and> mutTableName st' = mutTableName st)) P"
  shows "resolved I U catalogs T st \<Longrightarrow> admits admitted U catalogs (mutSchemaPath st) (mutTableName st) batches T \<Longrightarrow>
    triple P (processAll process st batches) (\<lambda>_. P) P"
proof (induction batches arbitrary: st)
  case Nil
  show ?case unfolding processAll.simps by (rule triple_oreturn)
next
  case (Cons batch batches)
  have batch: "admits admitted U catalogs (mutSchemaPath st) (mutTableName st) [batch] T"
    and rest: "admits admitted U catalogs (mutSchemaPath st) (mutTableName st) batches T"
    using Cons(3) by (auto simp: admits_def)
  show ?case
    unfolding processAll.simps
  proof (rule triple_obind [OF assms [OF Cons(2) batch]], clarify, rule triple_pure, clarify)
    fix st' result
    assume "resolved I U catalogs T st'" "mutSchemaPath st' = mutSchemaPath st" "mutTableName st' = mutTableName st"
    then show "triple P (obind (processAll process st' batches) (\<lambda>results. oreturn (result # results))) (\<lambda>_. P) P"
      using rest by (intro triple_obind [OF Cons(1)] triple_oreturn) simp_all
  qed
qed

text \<open>
  A rule on rows that the writes obey: rows of an admitted batch that pass the NOT NULL check are ok, and so is an ok row
  after an admitted update that leaves it passing.
\<close>

locale write_rule = table_rule +
  fixes I :: ipc and admitted :: "stored_table \<Rightarrow> record_batch \<Rightarrow> bool"
  assumes inserted: "fine st \<Longrightarrow> requiredColumns I (tmConstraints (stMeta st)) = Inr required \<Longrightarrow> admitted st batch \<Longrightarrow>
      r \<in> set (batchToRows batch) \<Longrightarrow> checkNotNullRow required r = None \<Longrightarrow> ok st r"
    and updated: "fine st \<Longrightarrow> requiredColumns I (tmConstraints (stMeta st)) = Inr required \<Longrightarrow> admitted st batch \<Longrightarrow>
      u \<in> set (batchToRows batch) \<Longrightarrow> ok st r \<Longrightarrow> checkNotNullRow required (mergeRow u r) = None \<Longrightarrow> ok st (mergeRow u r)"
begin

abbreviation fixed :: "(wc_key \<times> stored_table) list \<Rightarrow> ((string \<times> string) \<times> string) list \<Rightarrow> wc_tables \<Rightarrow> bool" where
  "fixed T X \<equiv> holds (tableRow ok T) T X"

lemma resolved_rows:
  assumes "\<forall>k st. map_of T k = Some st \<longrightarrow> fine st" "resolved I U catalogs T st" "mutCatalog st = Some c"
    and "admits admitted U catalogs (mutSchemaPath st) (mutTableName st) [batch] T" "u \<in> set (batchToRows batch)"
  shows "checkNotNullRow (mutRequired st) u = None \<Longrightarrow> tableRow ok T (tableKey U c (mutSchemaPath st) (mutTableName st)) u"
    and "tableRow ok T (tableKey U c (mutSchemaPath st) (mutTableName st)) r \<Longrightarrow>
      checkNotNullRow (mutRequired st) (mergeRow u r) = None \<Longrightarrow>
      tableRow ok T (tableKey U c (mutSchemaPath st) (mutTableName st)) (mergeRow u r)"
proof -
  obtain w where w: "map_of T (tableKey U c (mutSchemaPath st) (mutTableName st)) = Some w"
      "requiredColumns I (tmConstraints (stMeta w)) = Inr (mutRequired st)" "c \<in> set catalogs"
    using assms(2,3) by (auto simp: resolved_def)
  have "fine w" using assms(1) w(1) by blast
  moreover have "admitted w batch" using assms(4) w by (simp add: admits_def)
  ultimately show "checkNotNullRow (mutRequired st) u = None \<Longrightarrow> tableRow ok T (tableKey U c (mutSchemaPath st) (mutTableName st)) u"
    and "tableRow ok T (tableKey U c (mutSchemaPath st) (mutTableName st)) r \<Longrightarrow>
      checkNotNullRow (mutRequired st) (mergeRow u r) = None \<Longrightarrow>
      tableRow ok T (tableKey U c (mutSchemaPath st) (mutTableName st)) (mergeRow u r)"
    using inserted [OF _ w(2) _ assms(5)] updated [OF _ w(2) _ assms(5)] w(1) by (auto simp: tableRow_def)
qed

lemma insertProcess_triple:
  assumes "\<forall>k st. map_of T k = Some st \<longrightarrow> fine st" "resolved I U catalogs T st"
    and "admits admitted U catalogs (mutSchemaPath st) (mutTableName st) [batch] T"
  shows "triple (fixed T X) (insertProcess I S U catalogs st batch)
    (\<lambda>(st', result) t. fixed T X t \<and> (resolved I U catalogs T st' \<and> mutSchemaPath st' = mutSchemaPath st \<and>
       mutTableName st' = mutTableName st)) (fixed T X)"
  unfolding insertProcess_def Let_def
proof (rule triple_obind [OF resolveCatalog_triple [OF assms(2)]], clarify, rule triple_pure, clarify)
  fix c st'
  assume st': "resolved I U catalogs T st'" "mutCatalog st' = Some c" "mutSchemaPath st' = mutSchemaPath st" "mutTableName st' = mutTableName st"
  have rows: "tableRow ok T (tableKey U c (mutSchemaPath st') (mutTableName st')) r"
    if "r \<in> set (batchToRows batch)" "checkNotNullRow (mutRequired st') r = None" for r
    by (rule resolved_rows(1) [OF assms(1) st'(1,2) _ that]) (use assms(3) st' in simp)
  show "triple (fixed T X)
      (obind (rowsAppend U c (mutSchemaPath st') (mutTableName st') (batchToRows batch) (mutRequired st')) (\<lambda>_.
         oreturn (st'\<lparr>mutCount := mutCount st' + of_nat (length (batchToRows batch))\<rparr>,
           writableCountBatch ''rows_inserted'' (of_nat (length (batchToRows batch))))))
      (\<lambda>(st', result) t. fixed T X t \<and> (resolved I U catalogs T st' \<and> mutSchemaPath st' = mutSchemaPath st \<and>
         mutTableName st' = mutTableName st)) (fixed T X)"
    by (rule triple_obind [OF rowsAppend_triple triple_oreturn], erule (1) rows) (use st' in \<open>simp add: resolved_def\<close>)
qed

lemma updateProcess_triple:
  assumes "\<forall>k st. map_of T k = Some st \<longrightarrow> fine st" "resolved I U catalogs T st"
    and "admits admitted U catalogs (mutSchemaPath st) (mutTableName st) [batch] T"
  shows "triple (fixed T X) (updateProcess F I S U catalogs st batch)
    (\<lambda>(st', result) t. fixed T X t \<and> (resolved I U catalogs T st' \<and> mutSchemaPath st' = mutSchemaPath st \<and>
       mutTableName st' = mutTableName st)) (fixed T X)"
  unfolding updateProcess_def
proof (rule triple_obind [OF resolveCatalog_triple [OF assms(2)]], clarify, rule triple_pure, clarify)
  fix c st'
  assume st': "resolved I U catalogs T st'" "mutCatalog st' = Some c" "mutSchemaPath st' = mutSchemaPath st" "mutTableName st' = mutTableName st"
  have rows: "tableRow ok T (tableKey U c (mutSchemaPath st') (mutTableName st')) (mergeRow u r)"
    if "u \<in> set (batchToRows batch)" "tableRow ok T (tableKey U c (mutSchemaPath st') (mutTableName st')) r"
      "checkNotNullRow (mutRequired st') (mergeRow u r) = None" for u r
    by (rule resolved_rows(2) [OF assms(1) st'(1,2) _ that]) (use assms(3) st' in simp)
  show "triple (fixed T X)
      (obind (rowsUpdate F U c (mutSchemaPath st') (mutTableName st') (batchToRows batch) (mutRequired st')) (\<lambda>updated.
         oreturn (st'\<lparr>mutCount := mutCount st' + updated\<rparr>, writableCountBatch ''rows_updated'' updated)))
      (\<lambda>(st', result) t. fixed T X t \<and> (resolved I U catalogs T st' \<and> mutSchemaPath st' = mutSchemaPath st \<and>
         mutTableName st' = mutTableName st)) (fixed T X)"
    by (rule triple_obind [OF rowsUpdate_triple triple_oreturn], erule (2) rows) (use st' in \<open>simp add: resolved_def\<close>)
qed

lemma deleteProcess_triple:
  assumes "resolved I U catalogs T st"
  shows "triple (fixed T X) (deleteProcess F I S U catalogs st batch)
    (\<lambda>(st', result) t. fixed T X t \<and> (resolved I U catalogs T st' \<and> mutSchemaPath st' = mutSchemaPath st \<and>
       mutTableName st' = mutTableName st)) (fixed T X)"
  unfolding deleteProcess_def Let_def
proof (rule triple_obind [OF resolveCatalog_triple [OF assms]], clarify, rule triple_pure, clarify)
  fix c st'
  assume st': "resolved I U catalogs T st'" "mutCatalog st' = Some c" "mutSchemaPath st' = mutSchemaPath st" "mutTableName st' = mutTableName st"
  show "triple (fixed T X)
      (obind (rowsDelete U c (mutSchemaPath st') (mutTableName st')
           (map (toInt64 F) (List.map_filter (\<lambda>r. map_of r rowIDFieldName) (batchToRows batch)))) (\<lambda>deleted.
         oreturn (st'\<lparr>mutCount := mutCount st' + deleted\<rparr>, writableCountBatch ''rows_deleted'' deleted)))
      (\<lambda>(st', result) t. fixed T X t \<and> (resolved I U catalogs T st' \<and> mutSchemaPath st' = mutSchemaPath st \<and>
         mutTableName st' = mutTableName st)) (fixed T X)"
    by (rule triple_obind [OF rowsDelete_triple triple_oreturn]) (use st' in \<open>simp add: resolved_def\<close>)
qed

lemma statement_guarded:
  assumes "\<And>T X st batch. \<forall>k st. map_of T k = Some st \<longrightarrow> fine st \<Longrightarrow> resolved I U catalogs T st \<Longrightarrow>
      admits admitted U catalogs (mutSchemaPath st) (mutTableName st) [batch] T \<Longrightarrow>
      triple (fixed T X) (process st batch) (\<lambda>(st', result) t. fixed T X t \<and> (resolved I U catalogs T st' \<and>
         mutSchemaPath st' = mutSchemaPath st \<and> mutTableName st' = mutTableName st)) (fixed T X)"
  shows "triple (\<lambda>t. guard t \<and> admits admitted U catalogs s n batches (wc_table t))
    (processAll process (newMutateState s n) batches) (\<lambda>_. guard) guard"
proof (rule guarded_rows_triple)
  fix T X
  assume T: "admits admitted U catalogs s n batches T" "\<forall>k st. map_of T k = Some st \<longrightarrow> fine st"
  show "triple (fixed T X) (processAll process (newMutateState s n) batches) (\<lambda>_. fixed T X) (fixed T X)"
    by (rule processAll_triple [OF assms [OF T(2)]]) (use T(1) in \<open>simp_all add: newMutateState_def resolved_def\<close>)
qed

text \<open>Every request but ATTACH, with a driver that may fail at each call.\<close>

lemma serve_guarded:
  assumes "\<And>c capabilities. req \<noteq> Attach c capabilities"
  shows "triple (\<lambda>t. guard t \<and> (case req of
        Insert catalogs s n batches \<Rightarrow> admits admitted U catalogs s n batches (wc_table t)
      | Update catalogs s n batches \<Rightarrow> admits admitted U catalogs s n batches (wc_table t)
      | _ \<Rightarrow> True)) (serveWritable I S U R F req) (\<lambda>_. guard) guard"
proof (cases req)
  case (Attach c capabilities)
  then show ?thesis using assms by simp
next
  case (Insert catalogs s n batches)
  then show ?thesis using statement_guarded [OF insertProcess_triple] by (simp add: serveWritable_def)
next
  case (Update catalogs s n batches)
  then show ?thesis using statement_guarded [OF updateProcess_triple] by (simp add: serveWritable_def)
next
  case (Delete catalogs s n batches)
  have "triple (fixed T X) (processAll (deleteProcess F I S U catalogs) (newMutateState s n) batches) (\<lambda>_. fixed T X) (fixed T X)" for T X
    by (rule processAll_triple [OF deleteProcess_triple, where admitted = "\<lambda>_ _. True"]) (simp_all add: admits_def list_all_iff)
  then have "triple (\<lambda>t. guard t \<and> True) (processAll (deleteProcess F I S U catalogs) (newMutateState s n) batches) (\<lambda>_. guard) guard"
    by (rule guarded_rows_triple)
  then show ?thesis using Delete by (simp add: serveWritable_def)
qed (simp_all add: serveWritable_def triple_discard writableSchemaCreate_guarded writableSchemaDrop_guarded
    writableTableCreate_guarded writableTableDrop_guarded)

end

section \<open>The migration with a healthy driver\<close>

text \<open>Like \<open>triple\<close>, from a driver that does not fail.\<close>

definition healthy :: "(wc_tables \<Rightarrow> bool) \<Rightarrow> 'a wop \<Rightarrow> ('a \<Rightarrow> wc_tables \<Rightarrow> bool) \<Rightarrow> (wc_tables \<Rightarrow> bool) \<Rightarrow> bool" where
  "healthy P m Q E \<longleftrightarrow>
     (\<forall>db. P (tables db) \<and> faults db = [] \<longrightarrow>
        (case m db of
           (Inl e, db') \<Rightarrow> E (tables db') \<and> faults db' = []
         | (Inr x, db') \<Rightarrow> Q x (tables db') \<and> faults db' = []))"

lemma healthy_obind:
  assumes "healthy P m Q E" "\<And>x. healthy (Q x) (f x) R E"
  shows "healthy P (obind m f) R E"
  unfolding healthy_def
proof (intro allI impI)
  fix db :: "wc_tables database"
  assume db: "P (tables db) \<and> faults db = []"
  obtain r db' where run: "m db = (r, db')" by (cases "m db")
  note first = assms(1) [unfolded healthy_def, rule_format, OF db, unfolded run]
  show "case obind m f db of (Inl e, db') \<Rightarrow> E (tables db') \<and> faults db' = [] | (Inr x, db') \<Rightarrow> R x (tables db') \<and> faults db' = []"
    using first assms(2) [unfolded healthy_def, rule_format, of _ db'] by (cases r) (simp_all add: obind_def run)
qed

lemma healthy_oreturn: "(\<And>t. P t \<Longrightarrow> Q x t) \<Longrightarrow> healthy P (oreturn x) Q E"
  by (simp add: healthy_def)

lemma healthy_olift:
  "(\<And>x t. r = Inr x \<Longrightarrow> P t \<Longrightarrow> Q x t) \<Longrightarrow> (\<And>t. P t \<Longrightarrow> E t) \<Longrightarrow> healthy P (olift r) Q E"
  by (cases r) (simp_all add: healthy_def)

lemma healthy_statement:
  "(\<And>t. P t \<Longrightarrow> Q (fst (f t)) (snd (f t))) \<Longrightarrow> healthy P (statement f) Q E"
  by (simp add: healthy_def)

lemma healthy_nextRows: "(\<And>t. P t \<Longrightarrow> Q rs t) \<Longrightarrow> healthy P (nextRows rs) Q E"
  by (simp add: healthy_def)

lemma checkNotNullRow_None:
  "checkNotNullRow required r = None \<longleftrightarrow> (\<forall>c\<in>set required. map_of r c \<noteq> None \<and> map_of r c \<noteq> Some AnyNil)"
  by (induction required) auto

text \<open>The columns a record requires.\<close>

definition requires :: "ipc \<Rightarrow> bytes \<Rightarrow> string \<Rightarrow> bool" where
  "requires I data column \<longleftrightarrow>
     (\<exists>spec. ReadConstraintRecord I data = Inr spec \<and> (specKind spec = ConstraintNotNull \<or> specKind spec = ConstraintPrimaryKey) \<and>
        [column] \<in> set (specColumns spec))"

lemma set_addColumns: "set (addColumns paths out) = set out \<union> {c. [c] \<in> set paths}"
proof (induction paths arbitrary: out)
  case (Cons path paths)
  then show ?case by (cases path; cases "tl path") auto
qed simp

lemma requiredLoop_set:
  "requiredLoop I cs out = Inr required \<Longrightarrow> set required = set out \<union> {c. \<exists>data\<in>set cs. requires I data c}"
proof (induction cs arbitrary: out)
  case (Cons data cs)
  obtain spec where spec: "ReadConstraintRecord I data = Inr spec" using Cons(2) by (auto simp: res_simps)
  let ?out = "if specKind spec \<noteq> ConstraintNotNull \<and> specKind spec \<noteq> ConstraintPrimaryKey then out
          else addColumns (specColumns spec) out"
  have "requiredLoop I cs ?out = Inr required" using Cons(2) spec by simp
  note IH = Cons(1) [OF this]
  have "set ?out = set out \<union> {c. requires I data c}"
    using spec by (auto simp: set_addColumns requires_def)
  then show ?case unfolding IH by auto
qed simp

lemma requiredColumns_set: "requiredColumns I cs = Inr required \<Longrightarrow> set required = {c. \<exists>data\<in>set cs. requires I data c}"
  using requiredLoop_set [of I cs "[]"] by (simp add: requiredColumns_def)

lemma requiredColumns_read: "requiredColumns I cs = Inr required \<Longrightarrow> data \<in> set cs \<Longrightarrow> \<exists>spec. ReadConstraintRecord I data = Inr spec"
proof -
  have "requiredLoop I cs out = Inr required \<Longrightarrow> data \<in> set cs \<Longrightarrow> \<exists>spec. ReadConstraintRecord I data = Inr spec" for out
    by (induction cs arbitrary: out) (auto simp: res_simps)
  then show "requiredColumns I cs = Inr required \<Longrightarrow> data \<in> set cs \<Longrightarrow> \<exists>spec. ReadConstraintRecord I data = Inr spec"
    unfolding requiredColumns_def .
qed

lemma read_record_size: "ReadConstraintRecord I data = Inr spec \<Longrightarrow> length data \<le> maxRecordSize"
  by (auto simp: ReadConstraintRecord_def decodeConstraintRecord_def readCanonicalRow_def res_simps)

section \<open>The NOT NULL rule\<close>

text \<open>
  Every column the records of the table require is set; a table of an earlier version does not declare its row id NOT NULL.
\<close>

definition plainLegacy :: "stored_table \<Rightarrow> bool" where
  "plainLegacy st \<longleftrightarrow> rowIDFieldName \<notin> set (tmNotNull (stMeta st))"

definition notNull :: "ipc \<Rightarrow> stored_table \<Rightarrow> go_row \<Rightarrow> bool" where
  "notNull I st r \<longleftrightarrow>
     (\<forall>required. requiredColumns I (tmConstraints (stMeta st)) = Inr required \<longrightarrow> checkNotNullRow required r = None)"

interpretation required: write_rule plainLegacy "notNull I" I "\<lambda>_ _. True" for I
  by unfold_locales (simp_all add: plainLegacy_def notNull_def)

text \<open>The records the migration adds name a column that is set in every row it has read.\<close>

lemma migrateColumns_added:
  assumes "migrateColumns I U R path t rows existing columns constraints = Inr out"
  shows "\<exists>added. out = constraints @ added \<and>
    (\<forall>data\<in>set added. \<exists>column\<in>set columns. ConstraintRecord I U R (notNullSpec path (wtName t) column []) = Inr data \<and>
       (\<forall>row\<in>set rows. checkNotNullRow [column] row = None))"
  using assms
proof (induction columns arbitrary: constraints)
  case (Cons column columns)
  show ?case
  proof (cases "column \<in> set existing \<or> topLevelIndex (schemaFields (wtSchema t)) column = None \<or> length path \<noteq> 1 \<or>
              list_ex (\<lambda>row. checkNotNullRow [column] row \<noteq> None) rows")
    case True
    then have "migrateColumns I U R path t rows existing columns constraints = Inr out"
      using Cons(2) unfolding migrateColumns.simps by (metis (no_types, lifting))
    from Cons(1) [OF this] show ?thesis by fastforce
  next
    case False
    then obtain data where data: "ConstraintRecord I U R (notNullSpec path (wtName t) column []) = Inr data"
        "migrateColumns I U R path t rows existing columns (constraints @ [data]) = Inr out"
      using Cons(2) by (auto simp: rbind_Inr_iff)
    have "\<forall>row\<in>set rows. checkNotNullRow [column] row = None" using False by (simp add: list_ex_iff)
    with Cons(1) [OF data(2)] data(1) show ?thesis by fastforce
  qed
qed simp

lemma migrated_rows:
  assumes "ipc_laws I" "guarded plainLegacy (notNull I) t" "map_of (wc_table t) key = Some st" "((key, rid), r) \<in> set (wc_row t)"
    and "requiredColumns I (tmConstraints (stMeta st)) = Inr existing"
    and "migrateColumns I U R path w (scanned t key) existing (tmNotNull (stMeta st)) (tmConstraints (stMeta st)) = Inr out"
    and "requiredColumns I out = Inr required"
  shows "checkNotNullRow required r = None"
  unfolding checkNotNullRow_None
proof
  fix c assume "c \<in> set required"
  then obtain data where data: "data \<in> set out" "requires I data c"
    using requiredColumns_set [OF assms(7)] by auto
  obtain added where out: "out = tmConstraints (stMeta st) @ added"
    and added: "\<And>data. data \<in> set added \<Longrightarrow> \<exists>column\<in>set (tmNotNull (stMeta st)).
      ConstraintRecord I U R (notNullSpec path (wtName w) column []) = Inr data \<and>
      (\<forall>row\<in>set (scanned t key). checkNotNullRow [column] row = None)"
    using migrateColumns_added [OF assms(6)] by blast
  show "map_of r c \<noteq> None \<and> map_of r c \<noteq> Some AnyNil"
  proof (cases "data \<in> set (tmConstraints (stMeta st))")
    case True
    then have "c \<in> set existing" using data(2) requiredColumns_set [OF assms(5)] by auto
    moreover have "checkNotNullRow existing r = None"
      using required.guardD [OF assms(2,4)] assms(3,5) by (auto simp: notNull_def)
    ultimately show ?thesis by (simp add: checkNotNullRow_None)
  next
    case False
    then obtain column where column: "column \<in> set (tmNotNull (stMeta st))"
        "ConstraintRecord I U R (notNullSpec path (wtName w) column []) = Inr data"
        "\<And>row. row \<in> set (scanned t key) \<Longrightarrow> checkNotNullRow [column] row = None"
      using added [of data] data(1) out by auto
    obtain spec where spec: "ReadConstraintRecord I data = Inr spec" "[c] \<in> set (specColumns spec)"
      using data(2) by (auto simp: requires_def)
    have "spec = normalSpec (notNullSpec path (wtName w) column [])"
      using read_record [OF assms(1) column(2) read_record_size [OF spec(1)]] spec(1) by simp
    then have c: "c = column" using spec(2) by (simp add: normalSpec_def notNullSpec_def)
    have "column \<noteq> rowIDFieldName"
      using column(1) required.guardD [OF assms(2,4)] assms(3) by (auto simp: plainLegacy_def)
    then show ?thesis
      using column(3) [OF scanned_row [OF assms(4)]] unfolding c by (simp add: update_conv' split: if_splits)
  qed
qed

lemma migrateLegacyTable_healthy:
  assumes "ipc_laws I" "wtLegacy w = Some legacy"
  shows "healthy (\<lambda>t. guarded plainLegacy (notNull I) t \<and> loaded S n (map_of (wc_table t) (tableKey U c s n)) = Inr (Some w))
    (migrateLegacyTable I S U R c path s w legacy) (\<lambda>_. guarded plainLegacy (notNull I)) (guarded plainLegacy (notNull I))"
proof -
  let ?key = "tableKey U c s n"
  let ?P = "\<lambda>t. guarded plainLegacy (notNull I) t \<and> loaded S n (map_of (wc_table t) ?key) = Inr (Some w)"
  let ?rowsOk = "\<lambda>constraints t. \<forall>rid r required. ((?key, rid), r) \<in> set (wc_row t) \<longrightarrow>
      requiredColumns I constraints = Inr required \<longrightarrow> checkNotNullRow required r = None"
  let ?Q = "\<lambda>constraints t. (guarded plainLegacy (notNull I) t \<and> ?rowsOk constraints t) \<and> wtName w = n"
  have P: "\<exists>st. map_of (wc_table t) ?key = Some st \<and> legacy = stMeta st \<and> wtConstraints w = tmConstraints (stMeta st) \<and> wtName w = n"
    if "?P t" for t
    using that assms(2) by (auto dest!: loaded_Some simp: writableTableFromMeta_def split: if_splits)
  have kept: "?Q (wtConstraints w) t" if "?P t" for t
    using P [OF that] that required.guardD [of I t] by (metis notNull_def option.inject)
  have name: "tableKey U c s (wtName w) = ?key" if "wtName w = n" using that by simp
  have migrated: "?Q constraints t"
    if "?P t" "requiredColumns I (wtConstraints w) = Inr existing"
      "migrateColumns I U R path w (scanned t ?key) existing (tmNotNull legacy) (wtConstraints w) = Inr constraints" for t existing constraints
    using P [OF that(1)] migrated_rows [OF assms(1), of t ?key] that by metis
  have scan: "healthy ?P (obind (rowsScan U c s (wtName w)) (\<lambda>rows.
      obind (olift (rmap_err RecordRefused (requiredColumns I (wtConstraints w)))) (\<lambda>existing.
        olift (rmap_err ConstraintRefused (migrateColumns I U R path w rows existing (tmNotNull legacy) (wtConstraints w)))))) ?Q (guarded plainLegacy (notNull I))"
  proof (rule healthy_obind [where Q = "\<lambda>rows t. ?P t \<and> rows = scanned t ?key"])
    show "healthy ?P (rowsScan U c s (wtName w)) (\<lambda>rows t. ?P t \<and> rows = scanned t ?key) (guarded plainLegacy (notNull I))"
      unfolding healthy_def using P by auto
    show "healthy (\<lambda>t. ?P t \<and> rows = scanned t ?key)
        (obind (olift (rmap_err RecordRefused (requiredColumns I (wtConstraints w)))) (\<lambda>existing.
          olift (rmap_err ConstraintRefused (migrateColumns I U R path w rows existing (tmNotNull legacy) (wtConstraints w)))))
        ?Q (guarded plainLegacy (notNull I))" for rows
    proof (rule healthy_obind [OF healthy_olift [where Q = "\<lambda>existing t. (?P t \<and> rows = scanned t ?key) \<and>
        requiredColumns I (wtConstraints w) = Inr existing"]])
      show "healthy (\<lambda>t. (?P t \<and> rows = scanned t ?key) \<and> requiredColumns I (wtConstraints w) = Inr existing)
          (olift (rmap_err ConstraintRefused (migrateColumns I U R path w rows existing (tmNotNull legacy) (wtConstraints w))))
          ?Q (guarded plainLegacy (notNull I))" for existing
        by (rule healthy_olift) (use migrated in \<open>auto simp: rmap_err_Inr_iff\<close>)
    qed (auto simp: rmap_err_Inr_iff)
  qed
  have upsert: "healthy (?Q constraints) (tableUpsert S U c s (w\<lparr>wtConstraints := constraints, wtLegacy := None\<rparr>)) (\<lambda>_. guarded plainLegacy (notNull I)) (guarded plainLegacy (notNull I))"
    for constraints
    unfolding tableUpsert_def
  proof (rule healthy_obind [OF healthy_olift [where Q = "\<lambda>_. ?Q constraints"] healthy_statement])
    fix ipc t
    assume "?Q constraints t"
    then show "guarded plainLegacy (notNull I) (snd ((), t\<lparr>wc_table := AList.update
        (tableKey U c s (wtName (w\<lparr>wtConstraints := constraints, wtLegacy := None\<rparr>)))
        \<lparr>stSchemaIPC = ipc, stMeta = encodeTableMeta (w\<lparr>wtConstraints := constraints, wtLegacy := None\<rparr>),
         stComment = wtComment (w\<lparr>wtConstraints := constraints, wtLegacy := None\<rparr>)\<rparr> (wc_table t)\<rparr>))"
      using name by (auto intro!: required.guarded_update_table simp: plainLegacy_def notNull_def)
  qed simp_all
  show ?thesis
    unfolding migrateLegacyTable_def
    by (rule healthy_obind [OF _ upsert], cases "length (tmNotNull legacy) > 0")
      (use scan kept in \<open>auto intro: healthy_oreturn\<close>)
qed

lemma tableLoad_healthy:
  "healthy (guarded plainLegacy (notNull I)) (tableLoad S U c s n)
     (\<lambda>r t. guarded plainLegacy (notNull I) t \<and> loaded S n (map_of (wc_table t) (tableKey U c s n)) = Inr r) (guarded plainLegacy (notNull I))"
  unfolding tableLoad_loaded
proof (rule healthy_obind [OF healthy_statement])
  show "guarded plainLegacy (notNull I) (snd (map_of (wc_table t) (tableKey U c s n), t)) \<and>
      map_of (wc_table (snd (map_of (wc_table t) (tableKey U c s n), t))) (tableKey U c s n) =
        fst (map_of (wc_table t) (tableKey U c s n), t)" if "guarded plainLegacy (notNull I) t" for t
    using that by simp
  show "healthy (\<lambda>t. guarded plainLegacy (notNull I) t \<and> map_of (wc_table t) (tableKey U c s n) = found) (olift (loaded S n found))
      (\<lambda>r t. guarded plainLegacy (notNull I) t \<and> loaded S n (map_of (wc_table t) (tableKey U c s n)) = Inr r) (guarded plainLegacy (notNull I))" for found
    by (rule healthy_olift) auto
qed

lemma migrateTables_healthy:
  assumes "ipc_laws I"
  shows "healthy (guarded plainLegacy (notNull I)) (migrateTables I S U R c s names) (\<lambda>_. guarded plainLegacy (notNull I)) (guarded plainLegacy (notNull I))"
proof (induction names)
  case Nil
  show ?case unfolding migrateTables.simps by (rule healthy_oreturn)
next
  case (Cons n names)
  let ?found = "\<lambda>r t. guarded plainLegacy (notNull I) t \<and> loaded S n (map_of (wc_table t) (tableKey U c s n)) = Inr r"
  have table: "healthy (?found (Some w)) (case wtLegacy w of None \<Rightarrow> oreturn ()
      | Some legacy \<Rightarrow> migrateLegacyTable I S U R c (splitNUL s) s w legacy) (\<lambda>_. guarded plainLegacy (notNull I)) (guarded plainLegacy (notNull I))" for w
    by (cases "wtLegacy w") (auto intro!: healthy_oreturn migrateLegacyTable_healthy [OF assms])
  have migrate: "healthy (?found found) (case found of None \<Rightarrow> oreturn ()
      | Some w \<Rightarrow> (case wtLegacy w of None \<Rightarrow> oreturn ()
         | Some legacy \<Rightarrow> migrateLegacyTable I S U R c (splitNUL s) s w legacy)) (\<lambda>_. guarded plainLegacy (notNull I)) (guarded plainLegacy (notNull I))" for found
    by (cases found) (auto intro!: healthy_oreturn table)
  show ?case
    unfolding migrateTables.simps by (intro healthy_obind [OF tableLoad_healthy] healthy_obind [OF migrate Cons])
qed

lemma tableList_healthy: "healthy (guarded plainLegacy (notNull I)) (tableList U c s) (\<lambda>_. guarded plainLegacy (notNull I)) (guarded plainLegacy (notNull I))"
  unfolding tableList_def
  by (rule healthy_obind [OF healthy_statement [where Q = "\<lambda>_. guarded plainLegacy (notNull I)"] healthy_nextRows]) simp_all

lemma schemaList_healthy: "healthy (guarded plainLegacy (notNull I)) (schemaList c) (\<lambda>_. guarded plainLegacy (notNull I)) (guarded plainLegacy (notNull I))"
  unfolding schemaList_def
  by (rule healthy_obind [OF healthy_statement [where Q = "\<lambda>_. guarded plainLegacy (notNull I)"] healthy_nextRows]) simp_all

lemma migrateSchemas_healthy:
  assumes "ipc_laws I"
  shows "healthy (guarded plainLegacy (notNull I)) (migrateSchemas I S U R c schemas) (\<lambda>_. guarded plainLegacy (notNull I)) (guarded plainLegacy (notNull I))"
proof (induction schemas)
  case Nil
  show ?case unfolding migrateSchemas.simps by (rule healthy_oreturn)
next
  case (Cons schema schemas)
  obtain name comment where schema: "schema = (name, comment)" by (cases schema)
  show ?case
    unfolding schema migrateSchemas.simps
    by (rule healthy_obind [OF tableList_healthy healthy_obind [OF migrateTables_healthy [OF assms] Cons]])
qed

lemma attach_healthy:
  assumes "ipc_laws I"
  shows "healthy (guarded plainLegacy (notNull I)) (handleWritableAttach I S U R c capabilities) (\<lambda>_. guarded plainLegacy (notNull I)) (guarded plainLegacy (notNull I))"
proof -
  let ?answer = "obind (olift (rmap_err CapabilityRefused (mergeCapabilities I writableCapabilities None None capabilities)))
      (\<lambda>(available, selected). oreturn (writablePrefix @ str c, available, selected))"
  have answer: "healthy (guarded plainLegacy (notNull I)) ?answer (\<lambda>_. guarded plainLegacy (notNull I)) (guarded plainLegacy (notNull I))"
    by (rule healthy_obind [OF healthy_olift [where Q = "\<lambda>_. guarded plainLegacy (notNull I)"]]) (auto intro: healthy_oreturn)
  have migrate: "healthy (guarded plainLegacy (notNull I)) (migrateLegacyConstraints I S U R c) (\<lambda>_. guarded plainLegacy (notNull I)) (guarded plainLegacy (notNull I))"
    unfolding migrateLegacyConstraints_def by (rule healthy_obind [OF schemaList_healthy migrateSchemas_healthy [OF assms]])
  show ?thesis
    unfolding healthy_def
  proof (intro allI impI)
    fix db :: "wc_tables database"
    assume db: "guarded plainLegacy (notNull I) (tables db) \<and> faults db = []"
    obtain r db' where run: "migrateLegacyConstraints I S U R c db = (r, db')" by (cases "migrateLegacyConstraints I S U R c db")
    have "guarded plainLegacy (notNull I) (tables db') \<and> faults db' = []"
      using migrate [unfolded healthy_def, rule_format, OF db, unfolded run] by (cases r) simp_all
    from answer [unfolded healthy_def, rule_format, OF this]
    show "case handleWritableAttach I S U R c capabilities db of
        (Inl e, db') \<Rightarrow> guarded plainLegacy (notNull I) (tables db') \<and> faults db' = [] | (Inr x, db') \<Rightarrow> guarded plainLegacy (notNull I) (tables db') \<and> faults db' = []"
      unfolding handleWritableAttach_def run snd_conv .
  qed
qed

section \<open>Reachable stores\<close>

text \<open>
  A store before any record was written: it may hold tables of an earlier version, with their rows and their
  constraint metadata.
\<close>

definition withoutRecords :: "wc_tables \<Rightarrow> bool" where
  "withoutRecords t \<longleftrightarrow>
     distinct (map fst (wc_row t)) \<and> list_all (\<lambda>((k, rid), r). map_of (wc_table t) k \<noteq> None) (wc_row t) \<and>
     list_all (\<lambda>(k, st). tmConstraints (stMeta st) = [] \<and> rowIDFieldName \<notin> set (tmNotNull (stMeta st))) (wc_table t)"

inductive writable_reachable :: "ipc \<Rightarrow> schema_codec \<Rightarrow> unicode \<Rightarrow> rune_tables \<Rightarrow> floats \<Rightarrow> wc_tables \<Rightarrow> bool"
  for I S U R F where
  start: "withoutRecords t \<Longrightarrow> writable_reachable I S U R F t"
| request: "writable_reachable I S U R F (tables db) \<Longrightarrow> (\<And>c capabilities. req = Attach c capabilities \<Longrightarrow> faults db = []) \<Longrightarrow>
    serveWritable I S U R F req db = (r, db') \<Longrightarrow> writable_reachable I S U R F (tables db')"

lemma start_guarded: "withoutRecords t \<Longrightarrow> guarded plainLegacy (notNull I) t"
proof -
  assume start: "withoutRecords t"
  have st: "tmConstraints (stMeta st) = []" "rowIDFieldName \<notin> set (tmNotNull (stMeta st))" if "map_of (wc_table t) k = Some st" for k st
    using start map_of_SomeD [OF that] by (auto simp: withoutRecords_def list_all_iff)
  have "tableRow (notNull I) (wc_table t) k r" if row: "((k, rid), r) \<in> set (wc_row t)" for k rid r
  proof -
    have "\<exists>st. map_of (wc_table t) k = Some st" using start row by (fastforce simp: withoutRecords_def list_all_iff)
    then obtain st where "map_of (wc_table t) k = Some st" ..
    then show ?thesis using st(1) by (auto simp: tableRow_def notNull_def requiredColumns_def)
  qed
  then show "guarded plainLegacy (notNull I) t"
    using start st(2) by (auto simp: guarded_def holds_def plainLegacy_def list_all_iff withoutRecords_def)
qed

lemma reachable_guarded:
  assumes "ipc_laws I" "writable_reachable I S U R F t"
  shows "guarded plainLegacy (notNull I) t"
  using assms(2)
proof induction
  case (start t)
  then show ?case by (rule start_guarded)
next
  case (request db req r db')
  show ?case
  proof (cases "\<exists>c capabilities. req = Attach c capabilities")
    case True
    then obtain c capabilities where req: "req = Attach c capabilities" by blast
    have "healthy (guarded plainLegacy (notNull I)) (serveWritable I S U R F req) (\<lambda>_. guarded plainLegacy (notNull I)) (guarded plainLegacy (notNull I))"
      unfolding req serveWritable_def writable_request.case
      by (rule healthy_obind [OF attach_healthy [OF assms(1)] healthy_oreturn])
    from this [unfolded healthy_def, rule_format, of db, unfolded request.hyps(3)] show ?thesis
      using request.IH request.hyps(2) [OF req] by (cases r) simp_all
  next
    case False
    then show ?thesis
      using tripleD [OF required.serve_guarded _ request.hyps(3)] request.IH
      by (cases r) (auto simp: admits_def list_all_iff split: writable_request.splits)
  qed
qed

section \<open>A sample store\<close>

definition migrate_ipc :: ipc where
  "migrate_ipc = table_ipc
     [(CatalogObjectRefSchema, [Str ''constraint'', Items [Str ''main''], Str ''not_null:c'', Str ''t'']),
      (ConstraintDefinitionSchema, [Str ''NOT_NULL'', Items [Items [Str ''c'']], Null, Null, Null]),
      (ConstraintInfoSchema, [Bin [0], Bin [1], Str ''ENFORCED'', Str ''ALL_ROWS'', Null])]"

definition oneColumn :: arrow_schema where
  "oneColumn = \<lparr>schemaFields = [Field ''c'' INT64 True []], schemaMeta = []\<rparr>"

definition column_codec :: schema_codec where
  "column_codec =
     \<lparr>sc_write = (\<lambda>sch. if sch = oneColumn then Inr [1] else Inl RecordMissing),
      sc_read = (\<lambda>b. if b = [1] then Inr oneColumn else Inl RecordMissing)\<rparr>"

definition oldMeta :: table_meta where
  "oldMeta =
     \<lparr>tmConstraints = [], tmNotNull = [''c''], tmPrimaryKey = [], tmUnique = [], tmCheck = [], tmForeignKey = [], tmDefaults = [],
      tmColumnComment = []\<rparr>"

definition storeWith :: "table_meta \<Rightarrow> wc_tables" where
  "storeWith meta =
     \<lparr>wc_schema = [((''w'', ''main''), [])],
      wc_table = [((''w'', ''main'', ''t''), \<lparr>stSchemaIPC = [1], stMeta = meta, stComment = []\<rparr>)],
      wc_row = [(((''w'', ''main'', ''t''), 0), [(''c'', AnyInt 7)])]\<rparr>"

definition plain_floats :: floats where
  "plain_floats = \<lparr>fl_text = (\<lambda>_. []), fl_range = (\<lambda>_. 0)\<rparr>"

lemma migrate_ipc_laws: "ipc_laws migrate_ipc"
  unfolding migrate_ipc_def by (rule table_ipc_laws) simp

lemma migrate_record: "ConstraintRecord migrate_ipc plain_unicode plain_runes (notNullSpec [''main''] ''t'' ''c'' []) = Inr [2, 0, 1]"
proof -
  have "checkSpec plain_unicode plain_runes (notNullSpec [''main''] ''t'' ''c'' []) = Inr ()"
    by (simp add: checkSpec_def notNullSpec_def notNullConstraintID_def checkColumnPaths_def checkReference_def validIdentifier_def kind_defs
        ConstraintEnforced_def ConstraintAllRows_def Let_def)
  moreover have "encodeConstraintRecord migrate_ipc (notNullSpec [''main''] ''t'' ''c'' []) = Inr [2, 0, 1]"
    by (simp add: encodeConstraintRecord_def notNullSpec_def notNullConstraintID_def encodeCheck_def encodeForeign_def catalogObjectRef_def
        encodeCanonicalRow_def migrate_ipc_def table_ipc_defs schema_defs goField_def goOptional_def kind_defs
        ConstraintEnforced_def ConstraintAllRows_def)
  ultimately show ?thesis by (simp add: ConstraintRecord_def)
qed

lemma sample_names: "ToLower U ''t'' = ''t''" "ToLower U ''main'' = ''main''"
  by (simp_all add: ToLower_def ascii_def ascii_lower_def)

lemma migrate_columns:
  "migrateColumns migrate_ipc plain_unicode plain_runes [''main''] (writableTableFromMeta ''t'' oneColumn [] oldMeta)
     (scanned (storeWith oldMeta) (''w'', ''main'', ''t'')) [] [''c''] [] = Inr [[2, 0, 1]]"
  using migrate_record
  by (simp add: scanned_def rowsOf_def storeWith_def rowIDFieldName_def writableTableFromMeta_def oneColumn_def topLevelIndex_def
      fieldIndices_def)

lemma migrate_store:
  "tables (snd (migrateLegacyConstraints migrate_ipc column_codec plain_unicode plain_runes ''w'' \<lparr>tables = storeWith oldMeta, faults = []\<rparr>)) =
     storeWith (oldMeta\<lparr>tmNotNull := [], tmConstraints := [[2, 0, 1]]\<rparr>)"
  using migrate_columns
  by (simp add: migrateLegacyConstraints_def schemaList_def tableList_def obind_def migrateLegacyTable_def tableUpsert_def
      storeWith_def tableKey_def sample_names loaded_def DeserializeSchema_def SerializeSchema_def column_codec_def
      writableTableFromMeta_def oldMeta_def requiredColumns_def encodeTableMeta_def)

lemma migrated_reachable:
  "writable_reachable migrate_ipc column_codec plain_unicode plain_runes F
     (storeWith (oldMeta\<lparr>tmNotNull := [], tmConstraints := [[2, 0, 1]]\<rparr>))"
proof -
  let ?db = "\<lparr>tables = storeWith oldMeta, faults = []\<rparr>"
  let ?serve = "serveWritable migrate_ipc column_codec plain_unicode plain_runes F (Attach ''w'' None) ?db"
  have "writable_reachable migrate_ipc column_codec plain_unicode plain_runes F (tables ?db)"
    by (rule writable_reachable.start) (simp add: withoutRecords_def storeWith_def oldMeta_def rowIDFieldName_def)
  then have "writable_reachable migrate_ipc column_codec plain_unicode plain_runes F (tables (snd ?serve))"
    by (rule writable_reachable.request [where req = "Attach ''w'' None" and r = "fst ?serve"]) simp_all
  moreover have "tables (snd ?serve) =
      tables (snd (migrateLegacyConstraints migrate_ipc column_codec plain_unicode plain_runes ''w'' ?db))"
    by (cases "mergeCapabilities migrate_ipc writableCapabilities None None None")
      (auto simp: serveWritable_def handleWritableAttach_def obind_def split: prod.splits)
  ultimately show ?thesis by (simp only: migrate_store)
qed

section \<open>Properties\<close>

text \<open>
  C2. NOT NULL holds in storage. In every store reached by schema, table, ATTACH and DML requests, with a driver that may fail
  at any call (but not during the migration at ATTACH), every stored row belongs to a table of the store, and every
  column that the table's records require has a value other than NULL in it.
\<close>
theorem stored_rows_not_null:
  assumes "ipc_laws I" "writable_reachable I S U R F t" "((k, rid), r) \<in> set (wc_row t)"
  shows "\<exists>st. map_of (wc_table t) k = Some st \<and>
    (\<forall>required column. requiredColumns I (tmConstraints (stMeta st)) = Inr required \<longrightarrow> column \<in> set required \<longrightarrow>
       (\<exists>v. map_of r column = Some v \<and> v \<noteq> AnyNil))"
proof -
  obtain st where "map_of (wc_table t) k = Some st" "notNull I st r"
    using required.guardD [OF reachable_guarded [OF assms(1,2)] assms(3)] .
  then show ?thesis by (auto simp: notNull_def checkNotNullRow_None)
qed

lemma migrated_required: "requiredColumns migrate_ipc [[2, 0, 1]] = Inr [''c'']"
proof -
  have "ReadConstraintRecord migrate_ipc [2, 0, 1] = Inr (normalSpec (notNullSpec [''main''] ''t'' ''c'' []))"
    by (rule read_record [OF migrate_ipc_laws migrate_record]) (simp add: maxRecordSize_def)
  then show ?thesis
    by (simp add: requiredColumns_def normalSpec_def notNullSpec_def kind_defs)
qed

theorem stored_rows_not_null_witness:
  "requiredColumns migrate_ipc [[2, 0, 1]] = Inr [''c''] \<and> (\<exists>v. map_of [(''c'', AnyInt 7)] ''c'' = Some v \<and> v \<noteq> AnyNil)"
proof -
  let ?meta = "oldMeta\<lparr>tmNotNull := [], tmConstraints := [[2, 0, 1]]\<rparr>"
  have row: "(((''w'', ''main'', ''t''), 0), [(''c'', AnyInt 7)]) \<in> set (wc_row (storeWith ?meta))"
    by (simp add: storeWith_def)
  obtain st where "map_of (wc_table (storeWith ?meta)) (''w'', ''main'', ''t'') = Some st"
    "\<And>required column. requiredColumns migrate_ipc (tmConstraints (stMeta st)) = Inr required \<Longrightarrow> column \<in> set required \<Longrightarrow>
       \<exists>v. map_of [(''c'', AnyInt 7)] column = Some v \<and> v \<noteq> AnyNil"
    using stored_rows_not_null [OF migrate_ipc_laws migrated_reachable [of plain_floats] row] by blast
  then show ?thesis using migrated_required by (simp add: storeWith_def)
qed

end
