(* ===== verification/WritableScan.thy ===== *)
theory WritableScan
  imports WritableSafety
begin

text \<open>
  Reading writable tables back: rows keep the types of their columns under every request, so the scan of a table with scannable
  columns never fails for a value; what a statement inserts is what the next scan returns, after the rows it returned before;
  a statement that fails changes nothing. The last section is about the arguments with which the catalog sends its
  clients to these functions, and about tables with a DEFAULT.
\<close>

section \<open>The type rule\<close>

definition typedRow :: "schema_codec \<Rightarrow> stored_table \<Rightarrow> go_row \<Rightarrow> bool" where
  "typedRow S st r \<longleftrightarrow> (\<forall>sch. DeserializeSchema S (stSchemaIPC st) = Inr sch \<longrightarrow> rowTyped (schemaFields sch) r)"

text \<open>A typed batch, whose columns have the types of the table's columns of the same names.\<close>

definition agrees :: "schema_codec \<Rightarrow> stored_table \<Rightarrow> record_batch \<Rightarrow> bool" where
  "agrees S st batch \<longleftrightarrow>
     batchTyped batch \<and> distinct (map fieldName (rbFields batch)) \<and>
     (\<forall>sch. DeserializeSchema S (stSchemaIPC st) = Inr sch \<longrightarrow>
        (\<forall>f\<in>set (schemaFields sch). \<forall>g\<in>set (rbFields batch). fieldName g = fieldName f \<longrightarrow> fieldType g = fieldType f))"

text \<open>The columns a scan can build: \<open>__row_id\<close> is always an integer.\<close>

definition scannable :: "arrow_schema \<Rightarrow> bool" where
  "scannable sch \<longleftrightarrow>
     list_all (\<lambda>f. supportedType (fieldType f) \<and> (fieldName f = rowIDFieldName \<longrightarrow> fieldType f \<noteq> BOOL \<and> fieldType f \<noteq> BINARY))
       (schemaFields sch)"

lemma batch_row_keys: "r \<in> set (batchToRows batch) \<Longrightarrow> distinct (map fst r)"
proof -
  have "distinct (map fst (fold (\<lambda>(f, column). AList.update (fieldName f) (g column)) cs r))" if "distinct (map fst r)"
    for cs :: "(arrow_field \<times> arrow_value option list) list" and g and r :: go_row
    using that by (induction cs arbitrary: r) (auto simp: distinct_update)
  then show "r \<in> set (batchToRows batch) \<Longrightarrow> distinct (map fst r)"
    by (auto simp: batchToRows_def)
qed

lemma map_of_mergeRow:
  "distinct (map fst u) \<Longrightarrow>
   map_of (mergeRow u r) k = (case if k = rowIDFieldName then None else map_of u k of None \<Rightarrow> map_of r k | Some v \<Rightarrow> Some v)"
proof (induction u arbitrary: r)
  case (Cons kv u)
  obtain k' v where kv: "kv = (k', v)" by (cases kv)
  have absent: "map_of u k' = None" using Cons(2) kv by (simp add: map_of_eq_None_iff)
  show ?case
  proof (cases "k' = rowIDFieldName")
    case True
    then have "mergeRow (kv # u) r = mergeRow u r" by (simp add: mergeRow_def kv)
    then show ?thesis using Cons True kv by auto
  next
    case False
    then have "mergeRow (kv # u) r = mergeRow u (AList.update k' v r)" by (simp add: mergeRow_def kv)
    then show ?thesis using Cons False kv absent by (auto simp: update_conv' split: option.split)
  qed
qed (simp add: mergeRow_def)

lemma rowTyped_mergeRow:
  assumes "rowTyped fs r" "rowTyped fs u" "distinct (map fst u)"
  shows "rowTyped fs (mergeRow u r)"
  using assms by (auto simp: rowTyped_def list_all_iff map_of_mergeRow split: option.split)

lemma agrees_rows:
  assumes "agrees S st batch" "r \<in> set (batchToRows batch)"
  shows "typedRow S st r"
  unfolding typedRow_def
proof (intro allI impI)
  fix sch
  assume sch: "DeserializeSchema S (stSchemaIPC st) = Inr sch"
  show "rowTyped (schemaFields sch) r"
    by (rule batch_rows_typed [OF _ _ assms(2)]) (use assms(1) sch in \<open>auto simp: agrees_def\<close>)
qed

interpretation typed: write_rule "\<lambda>_. True" "typedRow S" I "agrees S" for S I
proof unfold_locales
  fix st required batch u r
  assume "agrees S st batch" "u \<in> set (batchToRows batch)" "typedRow S st r"
  then show "typedRow S st (mergeRow u r)"
    using agrees_rows [of S st batch u] batch_row_keys [of u batch] by (simp add: typedRow_def rowTyped_mergeRow)
qed (auto intro: agrees_rows)

section \<open>The migration keeps the types\<close>

lemma rowsScan_keeps: "(\<And>t. P t \<Longrightarrow> E t) \<Longrightarrow> triple P (rowsScan U c s n) (\<lambda>_. P) E"
  unfolding rowsScan_def
  by (rule triple_obind [OF triple_query triple_obind [OF triple_nextRows [where Q = "\<lambda>_. P"] triple_oreturn]])

lemma migrateLegacyTable_typed:
  assumes "schema_codec_laws S"
  shows "triple (\<lambda>t. typed.guard S t \<and> loaded S n (map_of (wc_table t) (tableKey U c s n)) = Inr (Some w))
    (migrateLegacyTable I S U R c path s w legacy) (\<lambda>_. typed.guard S) (typed.guard S)"
proof -
  let ?P = "\<lambda>t. typed.guard S t \<and> loaded S n (map_of (wc_table t) (tableKey U c s n)) = Inr (Some w)"
  have constraints: "triple ?P (if length (tmNotNull legacy) > 0
            then obind (rowsScan U c s (wtName w)) (\<lambda>rows.
                 obind (olift (rmap_err RecordRefused (requiredColumns I (wtConstraints w)))) (\<lambda>existing.
                   olift (rmap_err ConstraintRefused (migrateColumns I U R path w rows existing (tmNotNull legacy) (wtConstraints w)))))
            else oreturn (wtConstraints w)) (\<lambda>_. ?P) (typed.guard S)"
  proof (cases "length (tmNotNull legacy) > 0")
    case True
    show ?thesis
      unfolding if_P [OF True]
      by (intro triple_obind [OF rowsScan_keeps] triple_obind [OF triple_olift [where Q = "\<lambda>_. ?P"]] triple_olift) simp_all
  next
    case False
    show ?thesis unfolding if_not_P [OF False] by (rule triple_oreturn)
  qed
  have upsert: "triple ?P (tableUpsert S U c s (w\<lparr>wtConstraints := constraints, wtLegacy := None\<rparr>)) (\<lambda>_. typed.guard S) (typed.guard S)"
    for constraints
  proof (rule tableUpsert_triple)
    fix t ipc
    let ?st = "\<lparr>stSchemaIPC = ipc, stMeta = encodeTableMeta (w\<lparr>wtConstraints := constraints, wtLegacy := None\<rparr>),
        stComment = wtComment (w\<lparr>wtConstraints := constraints, wtLegacy := None\<rparr>)\<rparr>"
    assume t: "?P t" and ipc: "SerializeSchema S (wtSchema (w\<lparr>wtConstraints := constraints, wtLegacy := None\<rparr>)) = Inr ipc"
    obtain st where st: "map_of (wc_table t) (tableKey U c s n) = Some st" "DeserializeSchema S (stSchemaIPC st) = Inr (wtSchema w)" "wtName w = n"
      using t by (auto dest!: loaded_Some simp: writableTableFromMeta_def)
    have "DeserializeSchema S ipc = Inr (wtSchema w)"
      using assms ipc by (auto simp: schema_codec_laws_def SerializeSchema_def DeserializeSchema_def)
    then have "typedRow S ?st r" if "typedRow S st r" for r
      using that st(2) by (simp add: typedRow_def)
    then have "typedRow S ?st r" if "((tableKey U c s n, rid), r) \<in> set (wc_row t)" for rid r
      using typed.guardD [OF _ that] t st(1) by (metis option.inject)
    then show "typed.guard S (t\<lparr>wc_table := AList.update (tableKey U c s (wtName (w\<lparr>wtConstraints := constraints, wtLegacy := None\<rparr>))) ?st (wc_table t)\<rparr>)"
      using t st(3) by (auto intro!: typed.guarded_update_table)
  qed simp
  show ?thesis
    unfolding migrateLegacyTable_def by (rule triple_obind [OF constraints upsert])
qed

lemma migrateTables_typed:
  assumes "schema_codec_laws S"
  shows "triple (typed.guard S) (migrateTables I S U R c s names) (\<lambda>_. typed.guard S) (typed.guard S)"
proof (induction names)
  case Nil
  show ?case unfolding migrateTables.simps by (rule triple_oreturn)
next
  case (Cons n names)
  let ?found = "\<lambda>r t. typed.guard S t \<and> loaded S n (map_of (wc_table t) (tableKey U c s n)) = Inr r"
  have table: "triple (?found (Some w)) (case wtLegacy w of None \<Rightarrow> oreturn ()
      | Some legacy \<Rightarrow> migrateLegacyTable I S U R c (splitNUL s) s w legacy) (\<lambda>_. typed.guard S) (typed.guard S)" for w
    by (cases "wtLegacy w") (auto intro!: triple_oreturn migrateLegacyTable_typed [OF assms])
  have migrate: "triple (?found found) (case found of None \<Rightarrow> oreturn ()
      | Some w \<Rightarrow> (case wtLegacy w of None \<Rightarrow> oreturn ()
         | Some legacy \<Rightarrow> migrateLegacyTable I S U R c (splitNUL s) s w legacy)) (\<lambda>_. typed.guard S) (typed.guard S)" for found
    by (cases found) (auto intro!: triple_oreturn table)
  show ?case
    unfolding migrateTables.simps by (intro triple_obind [OF tableLoad_triple] triple_obind [OF migrate Cons])
qed

lemma migrateSchemas_typed:
  assumes "schema_codec_laws S"
  shows "triple (typed.guard S) (migrateSchemas I S U R c schemas) (\<lambda>_. typed.guard S) (typed.guard S)"
proof (induction schemas)
  case Nil
  show ?case unfolding migrateSchemas.simps by (rule triple_oreturn)
next
  case (Cons schema schemas)
  obtain name comment where schema: "schema = (name, comment)" by (cases schema)
  show ?case
    unfolding schema migrateSchemas.simps
    by (rule triple_obind [OF typed.tableList_guarded triple_obind [OF migrateTables_typed [OF assms] Cons]])
qed

lemma attach_typed:
  assumes "schema_codec_laws S" "typed.guard S (tables db)" "handleWritableAttach I S U R c capabilities db = (r, db')"
  shows "typed.guard S (tables db')"
proof -
  have list: "triple (typed.guard S) (schemaList c) (\<lambda>_. typed.guard S) (typed.guard S)"
    unfolding schemaList_def by (rule triple_obind [OF triple_query triple_nextRows])
  have migrate: "triple (typed.guard S) (migrateLegacyConstraints I S U R c) (\<lambda>_. typed.guard S) (typed.guard S)"
    unfolding migrateLegacyConstraints_def by (rule triple_obind [OF list migrateSchemas_typed [OF assms(1)]])
  obtain m db'' where run: "migrateLegacyConstraints I S U R c db = (m, db'')" by (cases "migrateLegacyConstraints I S U R c db")
  have "typed.guard S (tables db'')" using tripleD [OF migrate assms(2) run] by (cases m) auto
  moreover have "tables db' = tables db''"
    using assms(3) run
    by (cases "mergeCapabilities I writableCapabilities None None capabilities")
      (auto simp: handleWritableAttach_def obind_def split: prod.splits)
  ultimately show ?thesis by simp
qed

section \<open>Typed runs\<close>

text \<open>
  Stores reached with batches that agree with the table they are written to, from a store whose rows have the types
  of their tables; the driver may fail at any call.
\<close>

inductive typed_reachable :: "ipc \<Rightarrow> schema_codec \<Rightarrow> unicode \<Rightarrow> rune_tables \<Rightarrow> floats \<Rightarrow> wc_tables \<Rightarrow> bool"
  for I S U R F where
  start: "guarded (\<lambda>_. True) (typedRow S) t \<Longrightarrow> typed_reachable I S U R F t"
| request: "typed_reachable I S U R F (tables db) \<Longrightarrow>
    (\<And>catalogs s n batches. req = Insert catalogs s n batches \<or> req = Update catalogs s n batches \<Longrightarrow>
       admits (agrees S) U catalogs s n batches (wc_table (tables db))) \<Longrightarrow>
    serveWritable I S U R F req db = (r, db') \<Longrightarrow> typed_reachable I S U R F (tables db')"

lemma typed_guarded:
  assumes "schema_codec_laws S" "typed_reachable I S U R F t"
  shows "guarded (\<lambda>_. True) (typedRow S) t"
  using assms(2)
proof induction
  case (request db req r db')
  show ?case
  proof (cases "\<exists>c capabilities. req = Attach c capabilities")
    case True
    then obtain c capabilities where "req = Attach c capabilities" by blast
    then have "obind (handleWritableAttach I S U R c capabilities) (\<lambda>_. oreturn []) db = (r, db')"
      using request.hyps(3) by (simp add: serveWritable_def)
    then show ?thesis
      by (rule obind_cases) (auto dest: attach_typed [OF assms(1) request.IH])
  next
    case False
    then show ?thesis
      using tripleD [OF typed.serve_guarded _ request.hyps(3)] request.IH request.hyps(2)
      by (cases r) (auto split: writable_request.splits)
  qed
qed

section \<open>Outcomes of a scan\<close>

lemma findWritableTable_cases:
  "findWritableTable S U catalogs s n db = (r, db') \<Longrightarrow>
   tables db' = tables db \<and>
   (case r of
      Inl (DriverError e) \<Rightarrow> True
    | Inl (Failure e) \<Rightarrow> e = WritableTableNotFound s n \<or> (\<exists>x. e = SchemaCodec x)
    | Inr (c, w) \<Rightarrow> c \<in> set catalogs \<and> loaded S n (map_of (wc_table (tables db)) (tableKey U c s n)) = Inr (Some w))"
proof (induction catalogs arbitrary: db)
  case (Cons c catalogs)
  from Cons(2) have "obind (tableLoad S U c s n) (\<lambda>t. case t of Some t \<Rightarrow> oreturn (c, t) | None \<Rightarrow> findWritableTable S U catalogs s n) db = (r, db')"
    by simp
  then show ?case
  proof (rule obind_cases)
    fix e assume "tableLoad S U c s n db = (Inl e, db')" "r = Inl e"
    then show ?thesis using tableLoad_cases [of S U c s n db "Inl e" db'] by (auto split: fault.splits)
  next
    fix found db''
    assume load: "tableLoad S U c s n db = (Inr found, db'')"
      and rest: "(case found of Some t \<Rightarrow> oreturn (c, t) | None \<Rightarrow> findWritableTable S U catalogs s n) db'' = (r, db')"
    note same = tableLoad_cases [OF load]
    show ?thesis
    proof (cases found)
      case None
      then have "findWritableTable S U catalogs s n db'' = (r, db')" using rest by simp
      from Cons(1) [OF this] same show ?thesis by (auto split: sum.splits fault.splits)
    next
      case (Some w)
      then show ?thesis using rest same by auto
    qed
  qed
qed auto

lemma typed_scanned:
  assumes "typed.guard S t" "map_of (wc_table t) k = Some st" "DeserializeSchema S (stSchemaIPC st) = Inr sch" "scannable sch"
    and "r \<in> set (scanned t k)"
  shows "rowTyped (schemaFields (withSynthesizedRowID sch)) r"
proof -
  obtain rid r' where r: "r = AList.update rowIDFieldName (AnyInt rid) r'" "((k, rid), r') \<in> set (wc_row t)"
    using assms(5) by (auto simp: scanned_def set_rowsOf)
  have typed: "rowTyped (schemaFields sch) r'"
    using typed.guardD [OF assms(1) r(2)] assms(2,3) by (auto simp: typedRow_def)
  have field: "case map_of r (fieldName f) of None \<Rightarrow> True | Some v \<Rightarrow> storable (fieldType f) v" if "f \<in> set (schemaFields sch)" for f
  proof (cases "fieldName f = rowIDFieldName")
    case True
    then show ?thesis using assms(4) that by (simp add: r(1) update_conv' scannable_def list_all_iff storable_def)
  next
    case False
    then show ?thesis using typed that by (simp add: r(1) update_conv' rowTyped_def list_all_iff)
  qed
  have "case map_of r (fieldName rowIDField) of None \<Rightarrow> True | Some v \<Rightarrow> storable (fieldType rowIDField) v"
    by (simp add: r(1) rowIDField_def update_conv' storable_def)
  then show ?thesis
    using field by (auto simp: rowTyped_def list_all_iff withSynthesizedRowID_def)
qed

lemma scan_outcome:
  assumes "schema_codec_laws S" "typed_reachable I S U R F (tables db)"
    and "\<And>c st sch. c \<in> set catalogs \<Longrightarrow> map_of (wc_table (tables db)) (tableKey U c s n) = Some st \<Longrightarrow>
      DeserializeSchema S (stSchemaIPC st) = Inr sch \<Longrightarrow> scannable sch"
    and "scanProcess F S U catalogs None s n False db = (r, db')"
  shows "case r of
      Inl (DriverError e) \<Rightarrow> True
    | Inl (Failure e) \<Rightarrow> e = WritableTableNotFound s n \<or> (\<exists>x. e = SchemaCodec x)
    | Inr (emitted, batch) \<Rightarrow>
        emitted \<and> (\<forall>b. batch = Some b \<longrightarrow> batchTyped b \<and>
          (\<exists>c st sch. c \<in> set catalogs \<and> map_of (wc_table (tables db)) (tableKey U c s n) = Some st \<and>
             DeserializeSchema S (stSchemaIPC st) = Inr sch \<and> rbFields b = schemaFields (withSynthesizedRowID sch)))"
proof -
  have guard: "typed.guard S (tables db)" by (rule typed_guarded [OF assms(1,2)])
  from assms(4) have "obind (findWritableTable S U catalogs s n) (\<lambda>(c, t).
      obind (rowsScan U c s n) (\<lambda>rows. if length rows = 0 then oreturn (True, None)
      else obind (olift (rmap_err BatchRefused (rowsToBatch F (withSynthesizedRowID (wtSchema t)) rows)))
           (\<lambda>batch. oreturn (True, Some batch)))) db = (r, db')"
    unfolding scanProcess_def if_False option.case .
  then show ?thesis
  proof (rule obind_cases)
    fix e assume "findWritableTable S U catalogs s n db = (Inl e, db')" "r = Inl e"
    then show ?thesis using findWritableTable_cases [of S U catalogs s n db "Inl e"] by (auto split: fault.splits)
  next
    fix cw db1
    assume found: "findWritableTable S U catalogs s n db = (Inr cw, db1)"
      and rest: "(case cw of (c, t) \<Rightarrow> obind (rowsScan U c s n) (\<lambda>rows. if length rows = 0 then oreturn (True, None)
        else obind (olift (rmap_err BatchRefused (rowsToBatch F (withSynthesizedRowID (wtSchema t)) rows)))
           (\<lambda>batch. oreturn (True, Some batch)))) db1 = (r, db')"
    obtain c w where cw: "cw = (c, w)" by (cases cw)
    let ?key = "tableKey U c s n"
    have same: "tables db1 = tables db" and c: "c \<in> set catalogs"
      and "loaded S n (map_of (wc_table (tables db)) ?key) = Inr (Some w)"
      using findWritableTable_cases [OF found] cw by auto
    then obtain st where st: "map_of (wc_table (tables db)) ?key = Some st" "DeserializeSchema S (stSchemaIPC st) = Inr (wtSchema w)"
      by (auto dest!: loaded_Some simp: writableTableFromMeta_def)
    have ok: "scannable (wtSchema w)" by (rule assms(3) [OF c st])
    from rest [unfolded cw prod.case] show ?thesis
    proof (rule obind_cases)
      fix e assume "rowsScan U c s n db1 = (Inl e, db')" "r = Inl e"
      then show ?thesis using rowsScan_cases [of U c s n db1 "Inl e"] by (auto split: fault.splits)
    next
      fix rows db2
      assume scan: "rowsScan U c s n db1 = (Inr rows, db2)"
        and emit: "(if length rows = 0 then oreturn (True, None)
          else obind (olift (rmap_err BatchRefused (rowsToBatch F (withSynthesizedRowID (wtSchema w)) rows)))
           (\<lambda>batch. oreturn (True, Some batch))) db2 = (r, db')"
      have typed: "rowTyped (schemaFields (withSynthesizedRowID (wtSchema w))) row" if "row \<in> set rows" for row
        using typed_scanned [OF guard st ok] rowsScan_cases [OF scan] same that by (auto dest: set_mono_prefix)
      have supported: "list_all (supportedType \<circ> fieldType) (schemaFields (withSynthesizedRowID (wtSchema w)))"
        using ok by (auto simp: scannable_def list_all_iff withSynthesizedRowID_def rowIDField_def)
      obtain b where b: "rowsToBatch F (withSynthesizedRowID (wtSchema w)) rows = Inr b" "batchTyped b"
          "rbFields b = schemaFields (withSynthesizedRowID (wtSchema w))"
        using rowsToBatch_total [OF supported typed, of rows F] by blast
      have "r = Inr (True, if length rows = 0 then None else Some b)"
        using emit b(1) by (cases "length rows = 0") auto
      then show ?thesis using b(2,3) c st by auto
    qed
  qed
qed

section \<open>Failures\<close>

text \<open>An operation that, when it fails, leaves the tables as they were.\<close>

definition failsClean :: "'a wop \<Rightarrow> bool" where
  "failsClean m \<longleftrightarrow> (\<forall>db e db'. m db = (Inl e, db') \<longrightarrow> tables db' = tables db)"

lemma failsCleanI: "(\<And>T. triple (\<lambda>t. t = T) m (\<lambda>_ _. True) (\<lambda>t. t = T)) \<Longrightarrow> failsClean m"
  unfolding failsClean_def triple_def by (force split: prod.splits)

text \<open>Reads leave the tables as they are in any case.\<close>

lemma findWritableTable_keeps:
  "triple (\<lambda>t. t = T) (findWritableTable S U catalogs s n) (\<lambda>_ t. t = T) (\<lambda>t. t = T)"
  by (rule triple_mono [OF findWritableTable_triple [where P = "\<lambda>t. t = T" and E = "\<lambda>t. t = T"]]) auto

lemma resolveCatalog_keeps: "triple (\<lambda>t. t = T) (resolveCatalog I S U catalogs st) (\<lambda>_ t. t = T) (\<lambda>t. t = T)"
proof (cases "mutCatalog st")
  case None
  have "triple (\<lambda>t. t = T) (obind (olift r) (\<lambda>required. oreturn (f required))) (\<lambda>_ t. t = T) (\<lambda>t. t = T)"
    for r :: "wc_err + string list" and f :: "string list \<Rightarrow> string \<times> mutate_state"
    by (rule triple_obind [OF triple_olift [where Q = "\<lambda>_ t. t = T"] triple_oreturn])
  then show ?thesis
    unfolding resolveCatalog_def None option.case
    by (intro triple_obind [OF findWritableTable_keeps]) (simp add: case_prod_beta)
next
  case (Some c)
  then show ?thesis by (simp add: resolveCatalog_def triple_oreturn)
qed

lemma transaction_clean: "triple (\<lambda>t. t = T) (transaction m) (\<lambda>_ _. True) (\<lambda>t. t = T)"
  by (rule triple_transaction) (auto simp: triple_def split: prod.splits sum.splits)

lemma clean_then_return:
  "triple (\<lambda>t. t = T) m (\<lambda>_ _. True) (\<lambda>t. t = T) \<Longrightarrow> triple (\<lambda>t. t = T) (obind m (\<lambda>x. oreturn (f x))) (\<lambda>_ _. True) (\<lambda>t. t = T)"
  by (rule triple_obind) (auto intro: triple_oreturn)

lemma rowsAppend_clean: "triple (\<lambda>t. t = T) (rowsAppend U c s n rows required) (\<lambda>_ _. True) (\<lambda>t. t = T)"
  unfolding rowsAppend_def Let_def
  by (rule triple_obind [OF triple_olift [where Q = "\<lambda>_ t. t = T"] transaction_clean])

lemma rowsUpdate_clean: "triple (\<lambda>t. t = T) (rowsUpdate F U c s n updates required) (\<lambda>_ _. True) (\<lambda>t. t = T)"
  unfolding rowsUpdate_def by (rule transaction_clean)

lemma rowsDelete_clean: "triple (\<lambda>t. t = T) (rowsDelete U c s n rids) (\<lambda>_ _. True) (\<lambda>t. t = T)"
  by (cases "length rids = 0") (simp_all add: rowsDelete_def transaction_clean triple_oreturn)

lemma schemaUpsert_clean: "triple (\<lambda>t. t = T) (schemaUpsert U c name comment) (\<lambda>_ _. True) (\<lambda>t. t = T)"
  unfolding schemaUpsert_def by (rule triple_statement) simp_all

lemma schemaExists_keeps: "triple (\<lambda>t. t = T) (schemaExists U c name) (\<lambda>_ t. t = T) (\<lambda>t. t = T)"
  unfolding schemaExists_def by (rule triple_query)

lemma schemaCreate_clean: "triple (\<lambda>t. t = T) (writableSchemaCreate U c path onConflict comment) (\<lambda>_ _. True) (\<lambda>t. t = T)"
  unfolding writableSchemaCreate_def Let_def
  by (rule triple_obind [OF schemaExists_keeps]) (simp add: schemaUpsert_clean triple_oreturn triple_ofail)

lemma schemaDrop_clean: "triple (\<lambda>t. t = T) (writableSchemaDrop U c path ignoreNotFound cascade) (\<lambda>_ _. True) (\<lambda>t. t = T)"
proof -
  have "triple (\<lambda>t. t = T) (tableList U c name) (\<lambda>_ t. t = T) (\<lambda>t. t = T)" for name
    unfolding tableList_def by (rule triple_obind [OF triple_query triple_nextRows])
  then have empty: "triple (\<lambda>t. t = T) (if cascade then oreturn () else obind (tableList U c name) (\<lambda>ts.
      if length ts > 0 then ofail (SchemaHasTables name) else oreturn ())) (\<lambda>_ t. t = T) (\<lambda>t. t = T)" for name
    by (cases cascade) (auto intro!: triple_oreturn triple_ofail triple_obind)
  have drop: "triple (\<lambda>t. t = T) (schemaDrop U c name cascade) (\<lambda>_ _. True) (\<lambda>t. t = T)" for name
    unfolding schemaDrop_def by (rule transaction_clean)
  have dropped: "triple (\<lambda>t. t = T) (if \<not> found then (if ignoreNotFound then oreturn () else ofail (SchemaDoesNotExist name))
      else obind (if cascade then oreturn () else obind (tableList U c name) (\<lambda>ts.
        if length ts > 0 then ofail (SchemaHasTables name) else oreturn ())) (\<lambda>_. schemaDrop U c name cascade))
      (\<lambda>_ _. True) (\<lambda>t. t = T)" for found name
  proof (cases found)
    case True
    have "\<not> \<not> found" using True by simp
    then show ?thesis unfolding if_not_P [OF \<open>\<not> \<not> found\<close>] by (intro triple_obind [OF empty drop])
  qed (simp add: triple_oreturn triple_ofail)
  show ?thesis
    unfolding writableSchemaDrop_def Let_def by (rule triple_obind [OF schemaExists_keeps dropped])
qed

lemma tableDrop_clean: "triple (\<lambda>t. t = T) (writableTableDrop S U c path name ignoreNotFound) (\<lambda>_ _. True) (\<lambda>t. t = T)"
proof -
  have load: "triple (\<lambda>t. t = T) (tableLoad S U c s name) (\<lambda>_ t. t = T) (\<lambda>t. t = T)" for s
    by (rule triple_mono [OF tableLoad_triple [where P = "\<lambda>t. t = T" and E = "\<lambda>t. t = T"]]) auto
  have drop: "triple (\<lambda>t. t = T) (case found of
        None \<Rightarrow> if ignoreNotFound then oreturn () else ofail (TableDoesNotExist (schemaPathDisplay path) name)
      | Some _ \<Rightarrow> tableDrop U c s name) (\<lambda>_ _. True) (\<lambda>t. t = T)" for found :: "writable_table option" and s
    by (cases found) (simp_all add: tableDrop_def transaction_clean triple_oreturn triple_ofail)
  show ?thesis
    unfolding writableTableDrop_def Let_def by (rule triple_obind [OF load drop])
qed

lemma process_clean:
  "failsClean (insertProcess I S U catalogs st batch)"
  "failsClean (updateProcess F I S U catalogs st batch)"
  "failsClean (deleteProcess F I S U catalogs st batch)"
proof -
  show "failsClean (insertProcess I S U catalogs st batch)"
    unfolding insertProcess_def Let_def
    by (intro failsCleanI triple_obind [OF resolveCatalog_keeps]) (simp add: case_prod_beta clean_then_return rowsAppend_clean)
  show "failsClean (updateProcess F I S U catalogs st batch)"
    unfolding updateProcess_def
    by (intro failsCleanI triple_obind [OF resolveCatalog_keeps]) (simp add: case_prod_beta clean_then_return rowsUpdate_clean)
  show "failsClean (deleteProcess F I S U catalogs st batch)"
    unfolding deleteProcess_def Let_def
    by (intro failsCleanI triple_obind [OF resolveCatalog_keeps]) (simp add: case_prod_beta clean_then_return rowsDelete_clean)
qed

section \<open>A sample scan\<close>

definition plainMeta :: table_meta where
  "plainMeta = oldMeta\<lparr>tmNotNull := []\<rparr>"

definition sampleScan :: record_batch where
  "sampleScan = \<lparr>rbFields = [Field ''c'' INT64 True [], rowIDField], rbColumns = [[Some (Int64V 7)], [Some (Int64V 0)]], rbRows = 1\<rparr>"

lemma column_codec_laws: "schema_codec_laws column_codec"
  by (simp add: schema_codec_laws_def column_codec_def)

lemma sample_key: "tableKey U ''w'' ''main'' ''t'' = (''w'', ''main'', ''t'')"
  by (simp add: tableKey_def sample_names)

lemma sample_loaded:
  "loaded column_codec ''t'' (map_of (wc_table (storeWith meta)) (''w'', ''main'', ''t'')) = Inr (Some (writableTableFromMeta ''t'' oneColumn [] meta))"
  by (simp add: loaded_def storeWith_def DeserializeSchema_def column_codec_def)

lemma sample_find:
  "findWritableTable column_codec U [''w''] ''main'' ''t'' \<lparr>tables = storeWith meta, faults = []\<rparr> =
     (Inr (''w'', writableTableFromMeta ''t'' oneColumn [] meta), \<lparr>tables = storeWith meta, faults = []\<rparr>)"
  by (simp add: obind_def sample_key sample_loaded)

lemma sample_scanned: "scanned (storeWith meta) (''w'', ''main'', ''t'') = [[(''c'', AnyInt 7), (''__row_id'', AnyInt 0)]]"
  by (simp add: scanned_def rowsOf_def storeWith_def rowIDFieldName_def)

lemma sample_batch: "rowsToBatch F (withSynthesizedRowID oneColumn) [[(''c'', AnyInt 7), (''__row_id'', AnyInt 0)]] = Inr sampleScan"
  by (simp add: rowsToBatch_def withSynthesizedRowID_def oneColumn_def isRowIDField_def hasMeta_def buildColumnFromValues_def
      buildCell_def rowIDField_def rowIDFieldName_def sampleScan_def)

lemma sample_scan:
  "scanProcess F column_codec U [''w''] None ''main'' ''t'' False \<lparr>tables = storeWith meta, faults = []\<rparr> =
     (Inr (True, Some sampleScan), \<lparr>tables = storeWith meta, faults = []\<rparr>)"
  unfolding scanProcess_def if_False option.case
  by (simp add: obind_def sample_find sample_key sample_scanned sample_batch writableTableFromMeta_def del: findWritableTable.simps)

lemma sample_typed: "typed_reachable I column_codec U R F (storeWith meta)"
  by (rule typed_reachable.start)
    (simp add: guarded_def holds_def storeWith_def tableRow_def typedRow_def column_codec_def DeserializeSchema_def oneColumn_def
      rowTyped_def storable_def)

section \<open>Properties\<close>

text \<open>
  C12. Typed tables can always be read. In every store reached with batches of the types of the tables they are written to,
  whatever the driver does, the scan of a table whose columns have scannable types ends in a driver error, in a table that
  does not exist or has no readable schema, or in success; a batch it returns has the schema the scan is bound to, and
  every value has the type of its column. No stored value fails the scan.
\<close>
theorem typed_store_scans:
  assumes "schema_codec_laws S" "typed_reachable I S U R F (tables db)"
    and "\<And>c st sch. c \<in> set catalogs \<Longrightarrow> map_of (wc_table (tables db)) (tableKey U c s n) = Some st \<Longrightarrow>
      DeserializeSchema S (stSchemaIPC st) = Inr sch \<Longrightarrow> scannable sch"
    and "scanProcess F S U catalogs None s n False db = (r, db')"
  shows "case r of
      Inl (DriverError e) \<Rightarrow> True
    | Inl (Failure e) \<Rightarrow> e = WritableTableNotFound s n \<or> (\<exists>x. e = SchemaCodec x)
    | Inr (emitted, batch) \<Rightarrow>
        emitted \<and> (\<forall>b. batch = Some b \<longrightarrow> batchTyped b \<and>
          (\<exists>c st sch. c \<in> set catalogs \<and> map_of (wc_table (tables db)) (tableKey U c s n) = Some st \<and>
             DeserializeSchema S (stSchemaIPC st) = Inr sch \<and> rbFields b = schemaFields (withSynthesizedRowID sch)))"
  using scan_outcome [OF assms] .

theorem typed_store_scans_witness:
  "batchTyped sampleScan \<and> rbFields sampleScan = schemaFields (withSynthesizedRowID oneColumn)"
proof -
  let ?db = "\<lparr>tables = storeWith plainMeta, faults = []\<rparr>"
  have "scannable sch" if "c \<in> set [''w'']" "map_of (wc_table (tables ?db)) (tableKey plain_unicode c ''main'' ''t'') = Some st"
    "DeserializeSchema column_codec (stSchemaIPC st) = Inr sch" for c st sch
    using that by (auto simp: sample_key storeWith_def DeserializeSchema_def column_codec_def oneColumn_def scannable_def)
  note scannable = this
  have "typed_reachable migrate_ipc column_codec plain_unicode plain_runes plain_floats (tables ?db)"
    using sample_typed by simp
  from typed_store_scans [OF column_codec_laws this scannable sample_scan] show ?thesis
    by (auto simp: sample_key storeWith_def DeserializeSchema_def column_codec_def)
qed

text \<open>
  C16. Failed writes change nothing. Whichever call of the driver fails, a batch of INSERT, UPDATE or DELETE, a CREATE or DROP SCHEMA
  and a DROP TABLE that end in an error leave every schema, table and row as it was.
\<close>
theorem failed_writes_change_nothing:
  "failsClean (insertProcess I S U catalogs st batch) \<and>
   failsClean (updateProcess F I S U catalogs st batch) \<and>
   failsClean (deleteProcess F I S U catalogs st batch) \<and>
   failsClean (writableSchemaCreate U c path onConflict comment) \<and>
   failsClean (writableSchemaDrop U c path ignoreNotFound cascade) \<and>
   failsClean (writableTableDrop S U c path name ignoreNotFound)"
  by (intro conjI process_clean failsCleanI schemaCreate_clean schemaDrop_clean tableDrop_clean)

end
