(* ===== verification/WritableInsert.thy ===== *)
theory WritableInsert
  imports WritableScan "HOL-Library.Multiset"
begin

text \<open>
  What an INSERT stores and what the next scan returns, with a driver that does not fail: the rows get the ids after the
  largest one, and the scan returns the columns it returned before followed by the columns of the inserted batch.
\<close>

section \<open>Row ids\<close>

text \<open>The next row id as an integer, and the rows under the ids from \<open>rid\<close> on.\<close>

definition nextID :: "wc_key \<Rightarrow> wc_tables \<Rightarrow> int" where
  "nextID key t = (case maxRowID key t of None \<Rightarrow> 0 | Some m \<Rightarrow> sint m + 1)"

fun numbered :: "int64 \<Rightarrow> go_row list \<Rightarrow> (int64 \<times> go_row) list" where
  "numbered rid [] = []"
| "numbered rid (r # rows) = (rid, r) # numbered (rid + 1) rows"

definition below :: "wc_key \<Rightarrow> int \<Rightarrow> wc_tables \<Rightarrow> bool" where
  "below key bound t \<longleftrightarrow> list_all (\<lambda>((k, rid), r). k = key \<longrightarrow> sint rid < bound) (wc_row t)"

lemma sint_Suc: "sint (w :: int64) < 2 ^ 63 - 1 \<Longrightarrow> sint (w + 1) = sint w + 1"
  using sint_greater_eq [of w]
  by (simp add: sint_word_ariths signed_take_bit_int_eq_self)

lemma foldl_max:
  fixes f :: "'a \<Rightarrow> int"
  shows "y \<in> insert x (set xs) \<Longrightarrow> f y \<le> f (foldl (\<lambda>m y. if f m < f y then y else m) x xs)"
proof (induction xs arbitrary: x y)
  case (Cons z xs)
  let ?m = "if f x < f z then z else x"
  have best: "f ?m \<le> f (foldl (\<lambda>m y. if f m < f y then y else m) x (z # xs))"
    using Cons(1) [of ?m ?m] by simp
  show ?case
  proof (cases "y \<in> set xs")
    case True
    then show ?thesis using Cons(1) [of y ?m] by simp
  next
    case False
    then have "f y \<le> f ?m" using Cons(2) by auto
    then show ?thesis using best by (rule order_trans)
  qed
qed simp

lemma below_nextID: "below key (nextID key t) t"
proof -
  have "sint rid < nextID key t" if "((key, rid), r) \<in> set (wc_row t)" for rid r
  proof -
    have "rid \<in> set (map fst (rowsOf t key))" using that by (force simp: set_rowsOf)
    then obtain first rest where ids: "map fst (rowsOf t key) = first # rest" "rid \<in> insert first (set rest)"
      by (cases "map fst (rowsOf t key)") auto
    have "sint rid \<le> sint (foldl (\<lambda>m rid. if sint m < sint rid then rid else m) first rest)"
      by (rule foldl_max [OF ids(2)])
    then show ?thesis by (simp add: nextID_def maxRowID_def ids(1))
  qed
  then show ?thesis by (auto simp: below_def list_all_iff)
qed

lemma insertRow_fresh:
  assumes "faults db = []" "below key (sint rid) (tables db)"
  shows "insertRow key rid r db = (Inr (), db\<lparr>tables := (tables db)\<lparr>wc_row := wc_row (tables db) @ [((key, rid), r)]\<rparr>\<rparr>)"
proof -
  have "map_of (wc_row (tables db)) (key, rid) = None"
    using assms(2) by (force simp: below_def list_all_iff map_of_eq_None_iff)
  then show ?thesis using assms(1) by (simp add: insertRow_def obind_def)
qed

lemma insertRows_ok:
  assumes "faults db = []" "below key (sint rid) (tables db)" "sint rid + int (length rows) \<le> 2 ^ 63"
  shows "insertRows key rid rows db =
    (Inr (), db\<lparr>tables := (tables db)\<lparr>wc_row := wc_row (tables db) @ map (\<lambda>(rid, r). ((key, rid), r)) (numbered rid rows)\<rparr>\<rparr>)"
  using assms
proof (induction rows arbitrary: rid db)
  case (Cons r rows)
  let ?db = "db\<lparr>tables := (tables db)\<lparr>wc_row := wc_row (tables db) @ [((key, rid), r)]\<rparr>\<rparr>"
  have first: "insertRow key rid r db = (Inr (), ?db)" by (rule insertRow_fresh [OF Cons(2,3)])
  show ?case
  proof (cases rows)
    case Nil
    then show ?thesis using first by (simp add: obind_def)
  next
    case (Cons r' rows')
    then have succ: "sint (rid + 1) = sint rid + 1" using Cons.prems(3) by (intro sint_Suc) simp
    have "below key (sint (rid + 1)) (tables ?db)"
      using Cons.prems(2) unfolding succ by (auto simp: below_def list_all_iff)
    then show ?thesis
      using Cons.IH [of ?db "rid + 1"] Cons.prems(1,3) succ first by (simp add: obind_def)
  qed
qed simp

lemma sint_of_int: "- (2 ^ 63) \<le> n \<Longrightarrow> n < 2 ^ 63 \<Longrightarrow> sint (of_int n :: int64) = n"
  by (simp add: sint_sbintrunc' signed_take_bit_int_eq_self)

lemma nextID_word: "(case maxRowID key t of None \<Rightarrow> 0 | Some m \<Rightarrow> m + 1) = (of_int (nextID key t) :: int64)"
  by (simp add: nextID_def split: option.split)

lemma nextID_lower: "- (2 ^ 63) \<le> nextID key t"
  using sint_greater_eq [of "the (maxRowID key t)"] by (cases "maxRowID key t") (simp_all add: nextID_def)

lemma rowsAppend_ok:
  assumes "faults db = []" "checkRows n required rows = Inr ()" "rows \<noteq> []"
    and "nextID (tableKey U c s n) (tables db) + int (length rows) \<le> 2 ^ 63"
  shows "rowsAppend U c s n rows required db =
    (let key = tableKey U c s n; rid = of_int (nextID key (tables db)) in
     (Inr rid, db\<lparr>tables := (tables db)\<lparr>wc_row := wc_row (tables db) @ map (\<lambda>(rid, r). ((key, rid), r)) (numbered rid rows)\<rparr>\<rparr>))"
proof -
  let ?key = "tableKey U c s n"
  let ?rid = "of_int (nextID ?key (tables db)) :: int64"
  have "0 < length rows" using assms(3) by simp
  then have rid: "sint ?rid = nextID ?key (tables db)"
    using assms(4) nextID_lower [of ?key "tables db"] by (intro sint_of_int) linarith+
  have "insertRows ?key ?rid rows db =
      (Inr (), db\<lparr>tables := (tables db)\<lparr>wc_row := wc_row (tables db) @ map (\<lambda>(rid, r). ((?key, rid), r)) (numbered ?rid rows)\<rparr>\<rparr>)"
    by (rule insertRows_ok) (use assms(1,4) rid below_nextID in simp_all)
  then show ?thesis
    unfolding rowsAppend_def Let_def assms(2) olift_simps obind_oreturn_ok
    by (intro transaction_ok) (simp_all add: assms(1) nextID_word obind_def)
qed

section \<open>The rows of the next scan\<close>

lemma sort_key_above:
  assumes "\<And>x y. x \<in> set xs \<Longrightarrow> y \<in> set ys \<Longrightarrow> f x \<le> f y" "sorted (map f ys)"
  shows "sort_key f (xs @ ys) = sort_key f xs @ ys"
proof (rule properties_for_sort_key)
  show "mset (sort_key f xs @ ys) = mset (xs @ ys)" by simp
  show "filter (\<lambda>x. f k = f x) (sort_key f xs @ ys) = filter (\<lambda>x. f k = f x) (xs @ ys)" for k
    using sort_key_stable [of f "f k" xs] by (simp add: eq_commute)
  show "sorted (map f (sort_key f xs @ ys))"
    using assms by (auto simp: sorted_append)
qed

lemma numbered_ids:
  "sint rid + int (length rows) \<le> 2 ^ 63 \<Longrightarrow> i < length rows \<Longrightarrow>
   numbered rid rows ! i = (rid + of_nat i, rows ! i) \<and> sint (rid + of_nat i) = sint rid + int i"
proof (induction rows arbitrary: rid i)
  case (Cons r rows)
  show ?case
  proof (cases i)
    case (Suc j)
    then have succ: "sint (rid + 1) = sint rid + 1" using Cons(2,3) by (intro sint_Suc) simp
    then show ?thesis
      using Cons(1) [of "rid + 1" j] Cons(2,3) Suc by (simp add: add.assoc)
  qed simp
qed simp

lemma length_numbered [simp]: "length (numbered rid rows) = length rows"
  by (induction rows arbitrary: rid) simp_all

lemma scanned_append:
  assumes "below key (sint rid) t" "sint rid + int (length rows) \<le> 2 ^ 63"
  shows "scanned (t\<lparr>wc_row := wc_row t @ map (\<lambda>(rid, r). ((key, rid), r)) (numbered rid rows)\<rparr>) key =
    scanned t key @ map (\<lambda>(rid, r). AList.update rowIDFieldName (AnyInt rid) r) (numbered rid rows)"
proof -
  let ?t = "t\<lparr>wc_row := wc_row t @ map (\<lambda>(rid, r). ((key, rid), r)) (numbered rid rows)\<rparr>"
  have "rowsOf ?t key = rowsOf t key @ numbered rid rows"
    by (simp add: rowsOf_def comp_def case_prod_beta filter_map)
  moreover have "sort_key (sint \<circ> fst) (rowsOf t key @ numbered rid rows) = sort_key (sint \<circ> fst) (rowsOf t key) @ numbered rid rows"
  proof (rule sort_key_above)
    have id: "(sint \<circ> fst) (numbered rid rows ! i) = sint rid + int i" if "i < length rows" for i
      using numbered_ids [OF assms(2) that] by simp
    show "(sint \<circ> fst) x \<le> (sint \<circ> fst) y" if x: "x \<in> set (rowsOf t key)" and y: "y \<in> set (numbered rid rows)" for x y
    proof -
      have "(sint \<circ> fst) x < sint rid" using x assms(1) by (auto simp: set_rowsOf below_def list_all_iff)
      moreover obtain i where "i < length rows" "y = numbered rid rows ! i" using y by (auto simp: in_set_conv_nth)
      ultimately show ?thesis using id by fastforce
    qed
    show "sorted (map (sint \<circ> fst) (numbered rid rows))"
      unfolding sorted_iff_nth_mono using id by simp
  qed
  ultimately show ?thesis by (simp add: scanned_def)
qed

lemma buildColumn_append:
  "buildColumnFromValues F f xs = Inr a \<Longrightarrow> buildColumnFromValues F f ys = Inr b \<Longrightarrow> buildColumnFromValues F f (xs @ ys) = Inr (a @ b)"
  by (auto simp: buildColumnFromValues_def mapResult_Inr_iff list_all2_appendI split: if_splits)

lemma rowsToBatch_append:
  assumes "rowsToBatch F sch xs = Inr a" "rowsToBatch F sch ys = Inr b"
  shows "rowsToBatch F sch (xs @ ys) =
    Inr \<lparr>rbFields = schemaFields sch, rbColumns = map2 (@) (rbColumns a) (rbColumns b), rbRows = rbRows a + rbRows b\<rparr>"
proof -
  have a: "list_all2 (\<lambda>f column. buildColumnFromValues F f xs = Inr column) (schemaFields sch) (rbColumns a)" "rbRows a = length xs"
    and b: "list_all2 (\<lambda>f column. buildColumnFromValues F f ys = Inr column) (schemaFields sch) (rbColumns b)" "rbRows b = length ys"
    using assms by (auto simp: rowsToBatch_def rbind_Inr_iff mapResult_Inr_iff)
  have len: "length (rbColumns a) = length (schemaFields sch)" "length (rbColumns b) = length (schemaFields sch)"
    using list_all2_lengthD [OF a(1)] list_all2_lengthD [OF b(1)] by simp_all
  have "rowsToBatch F sch (xs @ ys) =
      Inr \<lparr>rbFields = schemaFields sch, rbColumns = map2 (@) (rbColumns a) (rbColumns b), rbRows = length (xs @ ys)\<rparr>"
    by (rule rowsToBatch_columns)
      (use len list_all2_nthD [OF a(1)] list_all2_nthD [OF b(1)] in \<open>auto intro: buildColumn_append\<close>)
  then show ?thesis using a(2) b(2) by simp
qed

lemma inserted_rows_batch:
  assumes "batchTyped batch" "distinct (map fieldName (rbFields batch))" "rowIDFieldName \<notin> fieldName ` set (rbFields batch)"
    and "list_all (supportedType \<circ> fieldType) (rbFields batch)" "schemaFields sch = rbFields batch" "\<not> list_ex isRowIDField (rbFields batch)"
    and "sint rid + int (rbRows batch) \<le> 2 ^ 63"
  shows "rowsToBatch F (withSynthesizedRowID sch)
      (map (\<lambda>(rid, r). AList.update rowIDFieldName (AnyInt rid) r) (numbered rid (batchToRows batch))) =
    Inr \<lparr>rbFields = rbFields batch @ [rowIDField],
         rbColumns = rbColumns batch @ [map (\<lambda>i. Some (Int64V (rid + of_nat i))) [0..<rbRows batch]], rbRows = rbRows batch\<rparr>"
proof -
  let ?rows = "map (\<lambda>(rid, r). AList.update rowIDFieldName (AnyInt rid) r) (numbered rid (batchToRows batch))"
  let ?columns = "rbColumns batch @ [map (\<lambda>i. Some (Int64V (rid + of_nat i))) [0..<rbRows batch]]"
  have fields: "schemaFields (withSynthesizedRowID sch) = rbFields batch @ [rowIDField]"
    using assms(5,6) by (simp add: withSynthesizedRowID_def)
  have len: "length (rbColumns batch) = length (rbFields batch)" using batchTyped_length [OF assms(1)] by simp
  have row: "?rows ! i = AList.update rowIDFieldName (AnyInt (rid + of_nat i)) (batchToRows batch ! i)" if "i < rbRows batch" for i
    using numbered_ids [of rid "batchToRows batch" i] assms(7) that by simp
  have "buildColumnFromValues F (schemaFields (withSynthesizedRowID sch) ! j) ?rows = Inr (?columns ! j)" if j: "j < length ?columns" for j
  proof (cases "j < length (rbFields batch)")
    case True
    have "fieldName (rbFields batch ! j) \<noteq> rowIDFieldName" using assms(3) True by (metis image_eqI nth_mem)
    then have "buildColumnFromValues F (rbFields batch ! j) ?rows = Inr (rbColumns batch ! j)"
      using assms(4) True row
      by (intro batchToRows_column [OF assms(1,2) True]) (auto simp: list_all_length update_conv')
    then show ?thesis using True len by (simp add: fields nth_append)
  next
    case False
    then have "j = length (rbFields batch)" using j len by simp
    moreover have "buildColumnFromValues F rowIDField ?rows = Inr (map (\<lambda>i. Some (Int64V (rid + of_nat i))) [0..<rbRows batch])"
      using row by (intro buildColumn_cells) (auto simp: rowIDField_def cellValue_def update_conv' hasType_def)
    ultimately show ?thesis using len by (simp add: fields nth_append)
  qed
  from rowsToBatch_columns [OF _ this] show ?thesis
    using len by (simp add: fields)
qed

lemma findWritableTable_rows:
  assumes "faults db = []" "wc_table t = wc_table (tables db)"
  shows "findWritableTable S U catalogs s n (db\<lparr>tables := t\<rparr>) =
    (fst (findWritableTable S U catalogs s n db), (snd (findWritableTable S U catalogs s n db))\<lparr>tables := t\<rparr>)"
proof (induction catalogs)
  case (Cons c catalogs)
  show ?case
    using assms Cons
    by (cases "loaded S n (map_of (wc_table (tables db)) (tableKey U c s n))") (auto simp: obind_def split: option.split)
qed simp

section \<open>Properties\<close>

text \<open>
  C5. Rows that were inserted are scanned back. With a driver that does not fail, an INSERT of a typed batch with the columns of the
  table, all of scannable types and none of them a row id, whose required columns are set and for which row ids are left,
  reports its number of rows; the scan after it returns the columns of the scan before it followed by the columns of the
  batch, and numbers the new rows after the largest id.
\<close>
theorem inserted_rows_scan_back:
  assumes "faults db = []" "findWritableTable S U catalogs s n db = (Inr (c, w), db)"
    and "requiredColumns I (wtConstraints w) = Inr required" "checkRows n required (batchToRows batch) = Inr ()"
    and "batchTyped batch" "0 < rbRows batch" "schemaFields (wtSchema w) = rbFields batch" "distinct (map fieldName (rbFields batch))"
    and "rowIDFieldName \<notin> fieldName ` set (rbFields batch)" "\<not> list_ex isRowIDField (rbFields batch)"
    and "list_all (supportedType \<circ> fieldType) (rbFields batch)"
    and "nextID (tableKey U c s n) (tables db) + int (rbRows batch) \<le> 2 ^ 63"
    and "rowsToBatch F (withSynthesizedRowID (wtSchema w)) (scanned (tables db) (tableKey U c s n)) = Inr old"
  shows "\<exists>st db'.
    insertProcess I S U catalogs (newMutateState s n) batch db =
      (Inr (st, writableCountBatch ''rows_inserted'' (of_nat (rbRows batch))), db') \<and>
    scanProcess F S U catalogs None s n False db' =
      (Inr (True, Some \<lparr>rbFields = rbFields batch @ [rowIDField],
         rbColumns = map2 (@) (rbColumns old) (rbColumns batch @
           [map (\<lambda>i. Some (Int64V (of_int (nextID (tableKey U c s n) (tables db) + int i)))) [0..<rbRows batch]]),
         rbRows = rbRows old + rbRows batch\<rparr>), db')"
proof -
  let ?key = "tableKey U c s n"
  let ?rid = "of_int (nextID ?key (tables db)) :: int64"
  let ?t = "(tables db)\<lparr>wc_row := wc_row (tables db) @ map (\<lambda>(rid, r). ((?key, rid), r)) (numbered ?rid (batchToRows batch))\<rparr>"
  let ?db = "db\<lparr>tables := ?t\<rparr>"
  let ?st = "(newMutateState s n)\<lparr>mutRequired := required, mutCatalog := Some c\<rparr>"
  have rid: "sint ?rid = nextID ?key (tables db)"
    using assms(6,12) nextID_lower [of ?key "tables db"] by (intro sint_of_int) linarith+
  have resolve: "resolveCatalog I S U catalogs (newMutateState s n) db = (Inr (c, ?st), db)"
    using assms(2,3) by (simp add: resolveCatalog_def newMutateState_def obind_def)
  have "batchToRows batch \<noteq> []" using assms(6) by (metis length_batchToRows length_greater_0_conv)
  then have append: "rowsAppend U c s n (batchToRows batch) required db = (Inr ?rid, ?db)"
    using rowsAppend_ok [OF assms(1,4)] assms(12) by (simp add: Let_def)
  have insert: "insertProcess I S U catalogs (newMutateState s n) batch db =
      (Inr (?st\<lparr>mutCount := of_nat (rbRows batch)\<rparr>, writableCountBatch ''rows_inserted'' (of_nat (rbRows batch))), ?db)"
    unfolding insertProcess_def obind_eq [where m = "resolveCatalog _ _ _ _ _", OF resolve] prod.case Let_def
    using append by (simp add: newMutateState_def obind_def)
  have "length (numbered ?rid (batchToRows batch)) \<noteq> 0" using assms(6) by simp
  then have some_new: "numbered ?rid (batchToRows batch) \<noteq> []" by (simp only: length_0_conv not_False_eq_True)
  have "scanned ?t ?key = scanned (tables db) ?key @
      map (\<lambda>(rid, r). AList.update rowIDFieldName (AnyInt rid) r) (numbered ?rid (batchToRows batch))"
    by (rule scanned_append) (use rid assms(12) below_nextID in simp_all)
  then have rows: "rowsToBatch F (withSynthesizedRowID (wtSchema w)) (scanned ?t ?key) =
      Inr \<lparr>rbFields = rbFields batch @ [rowIDField],
         rbColumns = map2 (@) (rbColumns old) (rbColumns batch @ [map (\<lambda>i. Some (Int64V (?rid + of_nat i))) [0..<rbRows batch]]),
         rbRows = rbRows old + rbRows batch\<rparr>" and some: "scanned ?t ?key \<noteq> []"
    using rowsToBatch_append [OF assms(13) inserted_rows_batch [OF assms(5,8,9,11,7,10), of ?rid F]] rid some_new assms(7,10,12)
    by (auto simp: withSynthesizedRowID_def)
  have "findWritableTable S U catalogs s n ?db = (Inr (c, w), ?db)"
    using findWritableTable_rows [OF assms(1), of ?t S U catalogs s n] assms(2) by simp
  then have "scanProcess F S U catalogs None s n False ?db = (Inr (True, Some \<lparr>rbFields = rbFields batch @ [rowIDField],
         rbColumns = map2 (@) (rbColumns old) (rbColumns batch @ [map (\<lambda>i. Some (Int64V (?rid + of_nat i))) [0..<rbRows batch]]),
         rbRows = rbRows old + rbRows batch\<rparr>), ?db)"
    using rows some assms(1) by (simp add: scanProcess_def obind_def)
  then show ?thesis using insert by auto
qed

definition sampleInsert :: record_batch where
  "sampleInsert = \<lparr>rbFields = [Field ''c'' INT64 True []], rbColumns = [[Some (Int64V 5), None]], rbRows = 2\<rparr>"

theorem inserted_rows_scan_back_witness:
  "\<exists>st db'.
    insertProcess migrate_ipc column_codec plain_unicode [''w''] (newMutateState ''main'' ''t'') sampleInsert
        \<lparr>tables = storeWith plainMeta, faults = []\<rparr> = (Inr (st, writableCountBatch ''rows_inserted'' 2), db') \<and>
    scanProcess plain_floats column_codec plain_unicode [''w''] None ''main'' ''t'' False db' =
      (Inr (True, Some \<lparr>rbFields = [Field ''c'' INT64 True [], rowIDField],
         rbColumns = [[Some (Int64V 7), Some (Int64V 5), None], [Some (Int64V 0), Some (Int64V 1), Some (Int64V 2)]], rbRows = 3\<rparr>), db')"
proof -
  have row: "rowIDFieldName = ''__row_id''" by (simp add: rowIDFieldName_def)
  have next_id: "nextID (''w'', ''main'', ''t'') (storeWith meta) = 1" for meta
    by (simp add: nextID_def maxRowID_def rowsOf_def storeWith_def)
  have batch: "batchTyped sampleInsert"
    by (simp add: batchTyped_def sampleInsert_def hasType_def)
  have "\<exists>st db'. insertProcess migrate_ipc column_codec plain_unicode [''w''] (newMutateState ''main'' ''t'') sampleInsert
        \<lparr>tables = storeWith plainMeta, faults = []\<rparr> = (Inr (st, writableCountBatch ''rows_inserted'' (of_nat (rbRows sampleInsert))), db') \<and>
    scanProcess plain_floats column_codec plain_unicode [''w''] None ''main'' ''t'' False db' =
      (Inr (True, Some \<lparr>rbFields = rbFields sampleInsert @ [rowIDField],
         rbColumns = map2 (@) (rbColumns sampleScan) (rbColumns sampleInsert @
           [map (\<lambda>i. Some (Int64V (of_int (nextID (tableKey plain_unicode ''w'' ''main'' ''t'') (storeWith plainMeta) + int i)))) [0..<rbRows sampleInsert]]),
         rbRows = rbRows sampleScan + rbRows sampleInsert\<rparr>), db')"
    by (rule inserted_rows_scan_back [where db = "\<lparr>tables = storeWith plainMeta, faults = []\<rparr>", simplified database.simps,
          OF _ sample_find, where required = "[]", OF _ _ _ batch])
      (simp_all add: sample_key next_id sample_scanned sample_batch [unfolded oneColumn_def] checkRows_ok writableTableFromMeta_def oneColumn_def sampleInsert_def row
        isRowIDField_def hasMeta_def requiredColumns_def plainMeta_def oldMeta_def)
  then show ?thesis
    by (simp add: sample_key next_id sampleInsert_def sampleScan_def upt_rec numeral_3_eq_3)
qed

end
