(* ===== verification/WritableServing.thy ===== *)
theory WritableServing
  imports WritableScan
begin

text \<open>
  How the catalog methods serve writable tables to clients: the arguments with which a client is sent to the table functions, and the
  items of tables whose columns have a DEFAULT.
\<close>

section \<open>Arguments of the table functions\<close>

lemma served_arguments: "writableFunctionArguments path name = Inr [None, Some (StringV name)]"
  by (simp add: writableFunctionArguments_def serializeScanArgs_def toBuilder_def res_simps)

lemma served_names: "writableFunctionArguments path name = Inr args \<Longrightarrow> writableArgs args = ([], name)"
  by (auto simp: served_arguments writableArgs_def scalarString_def)

lemma findWritableTable_absent:
  "faults db = [] \<Longrightarrow> (\<And>c. c \<in> set catalogs \<Longrightarrow> map_of (wc_table (tables db)) (tableKey U c s n) = None) \<Longrightarrow>
   findWritableTable S U catalogs s n db = (Inl (Failure (WritableTableNotFound s n)), db)"
  by (induction catalogs) (simp_all add: obind_def loaded_def)

section \<open>Tables with a DEFAULT\<close>

text \<open>A field after defaults were appended to its metadata.\<close>

definition extends :: "arrow_field \<Rightarrow> arrow_field \<Rightarrow> bool" where
  "extends f f' \<longleftrightarrow> (\<exists>more. fst ` set more \<subseteq> {''default''} \<and> f' = setMeta f (fieldMeta f @ more))"

abbreviation withDefault :: "default_value \<Rightarrow> arrow_field \<Rightarrow> col_err + arrow_field" where
  "withDefault v f \<equiv> Inr (setMeta f (fieldMeta f @ [(''default'', defaultToSQL v)]))"

lemma setMeta_simps [simp]:
  "fieldName (setMeta f m) = fieldName f" "fieldMeta (setMeta f m) = m" "setMeta (setMeta f m) m' = setMeta f m'" "setMeta f (fieldMeta f) = f"
  by (simp_all add: setMeta_def)

lemma extends_refl [simp]: "extends f f"
  by (auto simp: extends_def intro: exI [of _ "[]"])

lemma extends_trans:
  assumes "extends f g" "extends g h"
  shows "extends f h"
proof -
  obtain a b where "fst ` set a \<subseteq> {''default''}" "g = setMeta f (fieldMeta f @ a)"
      "fst ` set b \<subseteq> {''default''}" "h = setMeta g (fieldMeta g @ b)"
    using assms by (auto simp: extends_def)
  then show ?thesis unfolding extends_def by (intro exI [of _ "a @ b"]) auto
qed

lemma list_all2_members:
  assumes "list_all2 P xs ys"
  shows "x \<in> set xs \<Longrightarrow> \<exists>y\<in>set ys. P x y" "y \<in> set ys \<Longrightarrow> \<exists>x\<in>set xs. P x y"
  using assms by (induction rule: list_all2_induct) auto

lemma extends_default: "extends f (setMeta f (fieldMeta f @ [(''default'', v)]))"
  unfolding extends_def by (rule exI [of _ "[(''default'', v)]"]) simp

lemma changeField_default:
  "changeField name (withDefault v) fs = Some (Inr fs') \<Longrightarrow>
   list_all2 extends fs fs' \<and>
   (\<exists>f. find (\<lambda>f. fieldName f = name) fs = Some f \<and> setMeta f (fieldMeta f @ [(''default'', defaultToSQL v)]) \<in> set fs') \<and>
   (\<forall>other. other \<noteq> name \<longrightarrow> find (\<lambda>f. fieldName f = other) fs' = find (\<lambda>f. fieldName f = other) fs)"
proof (induction fs arbitrary: fs')
  case (Cons f fs)
  show ?case
  proof (cases "fieldName f = name")
    case True
    then have "fs' = setMeta f (fieldMeta f @ [(''default'', defaultToSQL v)]) # fs" using Cons(2) by simp
    then show ?thesis using True extends_default by (auto simp: list_all2_same)
  next
    case False
    then obtain rest where rest: "changeField name (withDefault v) fs = Some (Inr rest)" "fs' = f # rest"
      using Cons(2) by (auto simp: res_simps)
    then show ?thesis using Cons(1) [OF rest(1)] False by auto
  qed
qed simp

lemma applyDefaults_extends:
  "applyEach what withDefault entries fs = Inr fs' \<Longrightarrow> list_all2 extends fs fs'"
proof (induction entries arbitrary: fs)
  case Nil
  then show ?case by (simp add: list_all2_same)
next
  case (Cons entry entries)
  obtain name v where entry: "entry = (name, v)" by (cases entry)
  obtain fs1 where fs1: "changeField name (withDefault v) fs = Some (Inr fs1)" "applyEach what withDefault entries fs1 = Inr fs'"
    using Cons(2) entry by (auto simp: res_simps split: option.splits)
  have "list_all2 extends fs fs1" using changeField_default [OF fs1(1)] by simp
  then show ?case
    by (rule list_all2_trans [OF _ _ Cons(1) [OF fs1(2)], rotated]) (erule (1) extends_trans)
qed

text \<open>A second default in the metadata of a column that already has one.\<close>

lemma applyDefaults_duplicate:
  assumes "applyEach what withDefault entries fs = Inr fs'" "(name, v) \<in> set entries" "distinct (map fst entries)"
    and "find (\<lambda>f. fieldName f = name) fs = Some f" "hasMeta f ''default''"
  shows "\<exists>f'\<in>set fs'. \<not> distinct (map fst (fieldMeta f'))"
  using assms
proof (induction entries arbitrary: fs)
  case (Cons entry entries)
  obtain name' v' where entry: "entry = (name', v')" by (cases entry)
  obtain fs1 where fs1: "changeField name' (withDefault v') fs = Some (Inr fs1)" "applyEach what withDefault entries fs1 = Inr fs'"
    using Cons(2) entry by (auto simp: res_simps split: option.splits)
  show ?case
  proof (cases "name' = name")
    case True
    then have twice: "setMeta f (fieldMeta f @ [(''default'', defaultToSQL v')]) \<in> set fs1"
      using changeField_default [OF fs1(1)] Cons(5) by auto
    have "list_all2 extends fs1 fs'" by (rule applyDefaults_extends [OF fs1(2)])
    then obtain f' where f': "f' \<in> set fs'" "extends (setMeta f (fieldMeta f @ [(''default'', defaultToSQL v')])) f'"
      using list_all2_members(1) twice by metis
    obtain more where "fieldMeta f' = (fieldMeta f @ [(''default'', defaultToSQL v')]) @ more"
      using f'(2) by (auto simp: extends_def)
    moreover have "''default'' \<in> fst ` set (fieldMeta f)" using Cons(6) by (simp add: hasMeta_def)
    ultimately have "\<not> distinct (map fst (fieldMeta f'))" by simp
    then show ?thesis using f'(1) by blast
  next
    case False
    then have "find (\<lambda>f. fieldName f = name) fs1 = Some f" using changeField_default [OF fs1(1)] Cons(5) by simp
    then show ?thesis using Cons(1) [OF fs1(2)] Cons(3,4,6) entry False by auto
  qed
qed simp

lemma validateFieldKeys_distinct: "validateFieldKeys name seen meta = Inr () \<Longrightarrow> distinct (map fst meta) \<and> set seen \<inter> fst ` set meta = {}"
proof (induction meta arbitrary: seen)
  case (Cons kv meta)
  obtain k v where kv: "kv = (k, v)" by (cases kv)
  have "k \<notin> set seen" "validateFieldKeys name (k # seen) meta = Inr ()"
    using Cons(2) kv by (auto simp: res_simps split: if_splits)
  then show ?case using Cons(1) [of "k # seen"] kv by auto
qed simp

lemma checkEach_all: "checkEach g xs = Inr () \<Longrightarrow> x \<in> set xs \<Longrightarrow> g x = Inr ()"
  by (induction xs) (auto simp: checkEach_def res_simps)

lemma top_field: "f \<in> set fs \<Longrightarrow> f \<in> set (concat (map fieldTree fs))"
  by (cases f) (force intro: bexI [of _ f])

lemma validated_distinct:
  "ValidateColumnMetadata (Some sch) = Inr () \<Longrightarrow> f \<in> set (schemaFields sch) \<Longrightarrow> distinct (map fst (fieldMeta f))"
  unfolding ValidateColumnMetadata_def option.case
  by (drule checkEach_all [OF _ top_field]) (auto dest: validateFieldKeys_distinct)

lemma validated_plain:
  "ValidateColumnExpressions I U (Some sch) owner allowed = Inr () \<Longrightarrow> f \<in> set (schemaFields sch) \<Longrightarrow> \<not> hasMeta f legacyGeneratedKey"
  unfolding ValidateColumnExpressions_def option.case
  by (drule checkEach_all [OF _ top_field]) (auto simp: visitExpression_def split: if_splits)

lemma defaults_found:
  "f \<in> set fs \<Longrightarrow> hasMeta f ''default'' \<Longrightarrow>
   \<exists>v. (fieldName f, v) \<in> set (fold (\<lambda>f out. case map_of (fieldMeta f) ''default'' of None \<Rightarrow> out
        | Some v \<Rightarrow> AList.update (fieldName f) (Sql v) out) fs out)"
proof -
  let ?add = "\<lambda>f out. case map_of (fieldMeta f) ''default'' of None \<Rightarrow> out | Some v \<Rightarrow> AList.update (fieldName f) (Sql v) out"
  have kept: "name \<in> fst ` set out \<Longrightarrow> name \<in> fst ` set (fold ?add fs out)" for name fs out
    by (induction fs arbitrary: out) (auto simp: dom_update split: option.split)
  have "hasMeta f ''default'' \<Longrightarrow> fieldName f \<in> fst ` set (?add f out)" for out
    by (auto simp: hasMeta_def dom_update map_of_eq_None_iff split: option.split)
  then have "f \<in> set fs \<Longrightarrow> hasMeta f ''default'' \<Longrightarrow> fieldName f \<in> fst ` set (fold ?add fs out)" for out
    by (induction fs arbitrary: out) (auto intro: kept)
  then show "f \<in> set fs \<Longrightarrow> hasMeta f ''default'' \<Longrightarrow> \<exists>v. (fieldName f, v) \<in> set (fold ?add fs out)" by force
qed

lemma defaults_distinct: "distinct (map fst (defaultsFromSchemaMetadata sch))"
proof -
  have "distinct (map fst (out :: (string \<times> default_value) list)) \<Longrightarrow>
      distinct (map fst (fold (\<lambda>f out. case map_of (fieldMeta f) ''default'' of None \<Rightarrow> out
        | Some v \<Rightarrow> AList.update (fieldName f) (Sql v) out) fs out))" for fs out
    by (induction fs arbitrary: out) (auto simp: distinct_update split: option.split)
  then show ?thesis by (simp add: defaultsFromSchemaMetadata_def)
qed

lemma find_distinct: "distinct (map fieldName fs) \<Longrightarrow> f \<in> set fs \<Longrightarrow> find (\<lambda>g. fieldName g = fieldName f) (fs @ rest) = Some f"
  by (induction fs) auto

text \<open>A table created with a DEFAULT has no item.\<close>

lemma default_item:
  assumes "ValidateColumnExpressions I U (Some (wtSchema w)) owner False = Inr ()"
    and "f \<in> set (schemaFields (wtSchema w))" "hasMeta f ''default''" "distinct (map fieldName (schemaFields (wtSchema w)))"
    and "wtDefaults w = defaultsFromSchemaMetadata (wtSchema w)"
  shows "\<not> is_ok (tableItemFromWritable I S U R w path)"
proof
  let ?cols = "withSynthesizedRowID (wtSchema w)"
  assume "is_ok (tableItemFromWritable I S U R w path)"
  then obtain info where info: "tableInfoFromWritable I U R w path = Inr info" "is_ok (SerializeTableInfo I S U R info)"
    by (auto simp: tableItemFromWritable_def res_simps)
  obtain v where v: "(fieldName f, v) \<in> set (wtDefaults w)"
    using defaults_found [OF assms(2,3)] by (auto simp: assms(5) defaultsFromSchemaMetadata_def)
  then obtain cols where cols: "applyDefaults ?cols (wtDefaults w) = Inr cols" "tiColumns info = Some cols" "tiLegacy info = 0" "tiRevision info = None"
    using info(1) by (auto simp: tableInfoFromWritable_def plainTableInfo_def res_simps Let_def split: if_splits)
  obtain fs where fs: "applyEach ''default references non-existent column'' withDefault (wtDefaults w) (schemaFields ?cols) = Inr fs"
      "cols = ?cols\<lparr>schemaFields := fs\<rparr>"
    using cols(1) by (auto simp: applyDefaults_def res_simps)
  have fields: "\<exists>more. schemaFields ?cols = schemaFields (wtSchema w) @ more \<and> (\<forall>g\<in>set more. g = rowIDField)"
    by (auto simp: withSynthesizedRowID_def)
  then have first: "find (\<lambda>g. fieldName g = fieldName f) (schemaFields ?cols) = Some f"
    using find_distinct [OF assms(4,2)] by auto
  obtain f' where f': "f' \<in> set fs" "\<not> distinct (map fst (fieldMeta f'))"
    using applyDefaults_duplicate [OF fs(1) v defaults_distinct [of "wtSchema w", folded assms(5)] first assms(3)] by blast
  have plain: "\<not> hasMeta g legacyGeneratedKey" if "g \<in> set fs" for g
  proof -
    obtain g0 where g0: "g0 \<in> set (schemaFields ?cols)" "extends g0 g"
      using list_all2_members(2) [OF applyDefaults_extends [OF fs(1)] \<open>g \<in> set fs\<close>] by blast
    have "\<not> hasMeta g0 legacyGeneratedKey"
    proof (cases "g0 = rowIDField")
      case True
      then show ?thesis by (simp add: rowIDField_def hasMeta_def legacyGeneratedKey_def)
    next
      case False
      then have "g0 \<in> set (schemaFields (wtSchema w))" using fields g0(1) by auto
      then show ?thesis by (rule validated_plain [OF assms(1)])
    qed
    then show ?thesis using g0(2) unfolding extends_def hasMeta_def legacyGeneratedKey_def
      by (elim exE conjE) (simp add: image_Un, blast)
  qed
  have "translateField I U path g = Inr g" if "g \<in> set fs" for g
  proof -
    have "map_of (fieldMeta g) legacyGeneratedKey = None"
      using plain [OF that] by (simp add: hasMeta_def map_of_eq_None_iff)
    then show ?thesis by (simp add: translateField_def)
  qed
  then have "mapResult (translateField I U path) fs = Inr fs"
    by (simp add: mapResult_Inr_iff list_all2_same)
  then have "translateLegacyGenerated I U (Some cols) path' = Inr (Some cols)" if "path' = path" for path'
    using that fs(2) by (simp add: translateLegacyGenerated_def)
  moreover have "tiSchemaPath info = path"
    using info(1) by (auto simp: tableInfoFromWritable_def plainTableInfo_def res_simps Let_def)
  ultimately have "ValidateColumnMetadata (Some cols) = Inr ()"
    using info(2) cols by (auto simp: SerializeTableInfo_def tableInfoColumns_def res_simps)
  then show False
    using validated_distinct [of cols f'] f' fs(2) by simp
qed

lemma writableTableGet_healthy:
  assumes "faults db = []" "map_of (wc_table (tables db)) (tableKey U c (schemaPathKey U path) name) = Some st"
    and "DeserializeSchema S (stSchemaIPC st) = Inr sch"
    and "\<not> is_ok (tableItemFromWritable I S U R (writableTableFromMeta name sch (stComment st) (stMeta st)) path)"
  shows "\<not> is_ok (fst (writableTableGet I S U R c path name db))"
  using assms
  by (cases "tableItemFromWritable I S U R (writableTableFromMeta name sch (stComment st) (stMeta st)) path")
    (simp_all add: writableTableGet_def obind_def loaded_def)

lemma listTables_fails:
  assumes "faults db = []" "name \<in> set names" "\<not> is_ok (fst (writableTableGet I S U R c path name db))"
  shows "\<not> is_ok (fst (listTables I S U R c path names db))"
  using assms(2)
proof (induction names)
  case (Cons n names)
  let ?load = "loaded S n (map_of (wc_table (tables db)) (tableKey U c (schemaPathKey U path) n))"
  show ?case
  proof (cases ?load)
    case (Inl e)
    then show ?thesis using assms(1) by (simp add: obind_def)
  next
    case (Inr found)
    note found = this
    show ?thesis
    proof (cases found)
      case None
      then have "name \<noteq> n" using assms(1,3) found by (auto simp: writableTableGet_def obind_def)
      then show ?thesis using Cons None found assms(1) by (simp add: obind_def)
    next
      case (Some w)
      show ?thesis
      proof (cases "tableItemFromWritable I S U R w path")
        case (Inl e)
        then show ?thesis using Some found assms(1) by (simp add: obind_def)
      next
        case (Inr item)
        then have "name \<noteq> n" using assms(1,3) found Some by (auto simp: writableTableGet_def obind_def)
        then show ?thesis using Cons Inr Some found assms(1)
          by (auto simp: obind_def split: prod.splits sum.splits)
      qed
    qed
  qed
qed simp

section \<open>Properties\<close>

text \<open>
  C36. The catalog sends its clients to no table. The schema path argument it serves for the scan, insert, update and delete
  functions of a writable table is NULL, because \<open>appendValue\<close> has no case for a path, and the functions read a NULL as the
  empty name: with these arguments they all fail to find the table, unless a table is stored under the empty schema.
\<close>
theorem served_arguments_find_no_table:
  assumes "faults db = []" "\<And>k st. map_of (wc_table (tables db)) k = Some st \<Longrightarrow> fst (snd k) \<noteq> []"
    and "writableFunctionArguments path name = Inr args" "writableArgs args = (s, n)"
  shows "scanOnBind S U catalogs s n db = (Inl (Failure (WritableTableNotFound [] name)), db) \<and>
    scanProcess F S U catalogs out s n False db = (Inl (Failure (WritableTableNotFound [] name)), db) \<and>
    insertProcess I S U catalogs (newMutateState s n) batch db = (Inl (Failure (WritableTableNotFound [] name)), db) \<and>
    updateProcess F I S U catalogs (newMutateState s n) batch db = (Inl (Failure (WritableTableNotFound [] name)), db) \<and>
    deleteProcess F I S U catalogs (newMutateState s n) batch db = (Inl (Failure (WritableTableNotFound [] name)), db)"
proof -
  have args: "s = []" "n = name" using served_names [OF assms(3)] assms(4) by simp_all
  have absent: "map_of (wc_table (tables db)) (tableKey U c [] name) = None" for c
    using assms(2) [of "tableKey U c [] name"] by (cases "map_of (wc_table (tables db)) (tableKey U c [] name)")
      (auto simp: tableKey_def ToLower_def ascii_def)
  have find: "findWritableTable S U catalogs [] name db = (Inl (Failure (WritableTableNotFound [] name)), db)"
    by (rule findWritableTable_absent [OF assms(1) absent])
  then have "resolveCatalog I S U catalogs (newMutateState [] name) db = (Inl (Failure (WritableTableNotFound [] name)), db)"
    by (simp add: resolveCatalog_def newMutateState_def obind_def)
  then show ?thesis
    unfolding args using find
    by (simp add: scanOnBind_def scanProcess_def insertProcess_def updateProcess_def deleteProcess_def obind_def)
qed

theorem served_arguments_find_no_table_witness:
  "map_of (wc_table (storeWith plainMeta)) (''w'', ''main'', ''t'') \<noteq> None \<and>
   scanOnBind column_codec plain_unicode [''w''] [] ''t'' \<lparr>tables = storeWith plainMeta, faults = []\<rparr> =
     (Inl (Failure (WritableTableNotFound [] ''t'')), \<lparr>tables = storeWith plainMeta, faults = []\<rparr>)"
proof -
  let ?db = "\<lparr>tables = storeWith plainMeta, faults = []\<rparr>"
  have "fst (snd k) \<noteq> []" if "map_of (wc_table (tables ?db)) k = Some st" for k st
    using that by (auto simp: storeWith_def split: if_splits)
  from served_arguments_find_no_table [where db = ?db and path = "[''main'']" and S = column_codec and U = plain_unicode
      and catalogs = "[''w'']", OF _ this served_arguments served_names [OF served_arguments]]
  show ?thesis by (simp add: storeWith_def)
qed

text \<open>
  C37. A DEFAULT makes a table, and the listing of its schema, unreadable. When CREATE TABLE succeeds for a table whose columns have
  distinct names and one of them carries a default, the item of that table cannot be built afterwards: getting the table fails,
  and so does listing the tables of its schema.
\<close>
theorem default_hides_schema:
  assumes "schema_codec_laws S" "faults db = []" "checkedCreate I S U R req = Inr (sch, records)"
    and "distinct (map fieldName (schemaFields sch))" "f \<in> set (schemaFields sch)" "hasMeta f ''default''"
    and "map_of (wc_table (tables db)) (tableKey U c (schemaPathKey U (wcrSchemaPath req)) (wcrName req)) = None"
    and "ToLower U (ToLower U (wcrName req)) = ToLower U (wcrName req)"
    and "writableTableCreate I S U R c req db = (Inr (), db')"
  shows "\<not> is_ok (fst (writableTableGet I S U R c (wcrSchemaPath req) (wcrName req) db')) \<and>
    \<not> is_ok (fst (writableSchemaContentsTables I S U R c (wcrSchemaPath req) db'))"
proof -
  let ?path = "wcrSchemaPath req" and ?w = "createdTable (wcrName req) sch records"
  let ?key = "tableKey U c (schemaPathKey U ?path)"
  have same: "?key (ToLower U (wcrName req)) = ?key (wcrName req)" using assms(8) by (simp add: tableKey_def)
  obtain bytes where bytes: "SerializeSchema S sch = Inr bytes" and db': "faults db' = []"
    "tables db' = (tables db)\<lparr>wc_table := AList.update (?key (wcrName req))
        \<lparr>stSchemaIPC = bytes, stMeta = encodeTableMeta ?w, stComment = []\<rparr> (wc_table (tables db))\<rparr>"
    using assms(2,3,7,9)
    by (cases "SerializeSchema S sch")
      (auto simp: writableTableCreate_def placeTable_def schemaExists_def tableUpsert_def obind_def loaded_def createdTable_def Let_def
        split: if_splits)
  have read: "DeserializeSchema S bytes = Inr sch"
    using assms(1) bytes by (auto simp: schema_codec_laws_def SerializeSchema_def DeserializeSchema_def)
  have valid: "ValidateColumnExpressions I U (Some sch) ?path False = Inr ()"
    using assms(3) by (auto simp: checkedCreate_def res_simps split: if_splits)
  have get: "\<not> is_ok (fst (writableTableGet I S U R c ?path name db'))" if "?key name = ?key (wcrName req)" for name
  proof (rule writableTableGet_healthy [OF db'(1)])
    show "map_of (wc_table (tables db')) (?key name) = Some \<lparr>stSchemaIPC = bytes, stMeta = encodeTableMeta ?w, stComment = []\<rparr>"
      using that by (simp add: db'(2) update_conv')
    show "DeserializeSchema S (stSchemaIPC \<lparr>stSchemaIPC = bytes, stMeta = encodeTableMeta ?w, stComment = []\<rparr>) = Inr sch"
      using read by simp
    show "\<not> is_ok (tableItemFromWritable I S U R (writableTableFromMeta name sch
        (stComment \<lparr>stSchemaIPC = bytes, stMeta = encodeTableMeta ?w, stComment = []\<rparr>)
        (stMeta \<lparr>stSchemaIPC = bytes, stMeta = encodeTableMeta ?w, stComment = []\<rparr>)) ?path)"
      by (rule default_item [where owner = ?path and f = f])
        (use valid assms(4-6) in \<open>simp_all add: writableTableFromMeta_def encodeTableMeta_def createdTable_def\<close>)
  qed
  have "tableList U c (schemaPathKey U ?path) db' = (Inr (map (\<lambda>((c, s, n), st). n)
         (filter (\<lambda>((c', s, n), st). c' = c \<and> s = ToLower U (schemaPathKey U ?path)) (wc_table (tables db')))), db')"
    using db'(1) by (simp add: tableList_def)
  moreover have "ToLower U (wcrName req) \<in> set (map (\<lambda>((c, s, n), st). n)
         (filter (\<lambda>((c', s, n), st). c' = c \<and> s = ToLower U (schemaPathKey U ?path)) (wc_table (tables db'))))"
  proof -
    have "map_of (wc_table (tables db')) (?key (wcrName req)) =
        Some \<lparr>stSchemaIPC = bytes, stMeta = encodeTableMeta ?w, stComment = []\<rparr>" by (simp add: db'(2) update_conv')
    note member = map_of_SomeD [OF this, unfolded tableKey_def]
    show ?thesis unfolding set_map set_filter
    proof (rule image_eqI)
      show "((c, ToLower U (schemaPathKey U ?path), ToLower U (wcrName req)),
          \<lparr>stSchemaIPC = bytes, stMeta = encodeTableMeta ?w, stComment = []\<rparr>) \<in>
        {x \<in> set (wc_table (tables db')). (\<lambda>((c', s, n), st). c' = c \<and> s = ToLower U (schemaPathKey U ?path)) x}"
        using member by simp
    qed simp
  qed
  ultimately have "\<not> is_ok (fst (writableSchemaContentsTables I S U R c ?path db'))"
    using listTables_fails [OF db'(1) _ get [OF same]] by (simp add: writableSchemaContentsTables_def obind_def)
  then show ?thesis using get by simp
qed

definition defaultColumn :: arrow_schema where
  "defaultColumn = \<lparr>schemaFields = [Field ''c'' INT64 True [(''default'', ''1'')]], schemaMeta = []\<rparr>"

definition default_codec :: schema_codec where
  "default_codec =
     \<lparr>sc_write = (\<lambda>sch. if sch = defaultColumn then Inr [1] else Inl RecordMissing),
      sc_read = (\<lambda>b. if b = [1] then Inr defaultColumn else Inl RecordMissing)\<rparr>"

definition defaultCreate :: writable_create where
  "defaultCreate =
     \<lparr>wcrSchemaPath = [''main''], wcrName = ''t'', wcrColumns = [1], wcrOnConflict = ''ERROR'', wcrConstraints = []\<rparr>"

definition emptyStore :: wc_tables where
  "emptyStore = \<lparr>wc_schema = [((''w'', ''main''), [])], wc_table = [], wc_row = []\<rparr>"

lemma default_checked: "checkedCreate I default_codec U R defaultCreate = Inr (defaultColumn, [])"
  by (simp add: checkedCreate_def defaultCreate_def DeserializeSchema_def default_codec_def defaultColumn_def ValidateColumnExpressions_def
      ValidateColumnMetadata_def checkEach_def visitExpression_def unknownVersion_def hasMeta_def legacyGeneratedKey_def metaMap_def
      GeneratedExpressionKey_def GenerationKey_def notNullRecords_def requireUnconstrainedCreateSchema_def logicalKey_def isRowIDField_def)

lemma default_created:
  "fst (writableTableCreate I default_codec plain_unicode R ''w'' defaultCreate \<lparr>tables = emptyStore, faults = []\<rparr>) = Inr ()"
proof -
  have "SerializeSchema default_codec defaultColumn = Inr [1]" by (simp add: SerializeSchema_def default_codec_def)
  then show ?thesis
    unfolding writableTableCreate_def default_checked
    by (simp add: placeTable_def schemaExists_def tableUpsert_def obind_def loaded_def createdTable_def defaultCreate_def
        emptyStore_def schemaPathKey_def sample_names Let_def)
qed

theorem default_hides_schema_witness:
  "fst (writableTableCreate migrate_ipc default_codec plain_unicode plain_runes ''w'' defaultCreate \<lparr>tables = emptyStore, faults = []\<rparr>) = Inr () \<and>
   \<not> is_ok (fst (writableSchemaContentsTables migrate_ipc default_codec plain_unicode plain_runes ''w'' [''main'']
     (snd (writableTableCreate migrate_ipc default_codec plain_unicode plain_runes ''w'' defaultCreate \<lparr>tables = emptyStore, faults = []\<rparr>))))"
proof -
  let ?db = "\<lparr>tables = emptyStore, faults = []\<rparr>"
  let ?create = "writableTableCreate migrate_ipc default_codec plain_unicode plain_runes ''w'' defaultCreate ?db"
  have run: "?create = (Inr (), snd ?create)"
    using default_created [of migrate_ipc plain_runes] by (metis prod.collapse)
  have laws: "schema_codec_laws default_codec" by (simp add: schema_codec_laws_def default_codec_def)
  have "\<not> is_ok (fst (writableSchemaContentsTables migrate_ipc default_codec plain_unicode plain_runes ''w'' (wcrSchemaPath defaultCreate) (snd ?create)))"
    by (rule conjunct2 [OF default_hides_schema [where f = "Field ''c'' INT64 True [(''default'', ''1'')]",
          OF laws _ default_checked _ _ _ _ _ run]])
      (simp_all add: defaultColumn_def hasMeta_def emptyStore_def defaultCreate_def sample_names)
  moreover have "wcrSchemaPath defaultCreate = [''main'']" by (simp add: defaultCreate_def)
  ultimately show ?thesis using default_created by simp
qed

end
