(* ===== verification/Spec2Isabelle.thy ===== *)
theory Spec2Isabelle
  imports VgiPrelude GoText Sha256 Envelope SplitToken AttachTicket SqliteDriver FunctionStore ExecutionStore ArrowSchema
    CanonicalRow ScalarSql ConstraintRecords Capabilities ColumnMetadata SchemaPath WritableConstraints CatalogItems
    CatalogStreams MemoryCatalog MemoryContents MemorySpec WritableRows WritableStore WritableCatalog WritableSafety
    WritableScan WritableInsert WritableServing
begin

text \<open>
  A verification library of the vgi-go worker framework (package \<open>vgi\<close> under \<open>src/vgi\<close>).

  \<^bold>\<open>The program.\<close> A worker serves catalogs, functions and tables to a database engine over RPC. A client ATTACHes a catalog
  and gets opaque data that it sends back with every later call; it reads the catalog's schemas, tables, views and
  functions as Arrow records; a scan is divided into splits whose tokens other workers redeem; functions keep state
  between calls in a storage backend. The modelled parts are those that decide who may do what, what is stored and what
  a client is told.

  \<^bold>\<open>Conventions\<close> (\<open>VgiPrelude\<close>, \<open>GoText\<close>). A fallible Go function is \<open>'e + 'a\<close> with an error datatype of its component, and
  \<open>rbind\<close> is its early return. A Go \<open>string\<close> is a list of bytes as \<open>char\<close>, a \<open>[]byte\<close> a list of \<open>8 word\<close>, an \<open>int64\<close> a
  \<open>64 word\<close> whose arithmetic wraps. A Go map is an association list with distinct keys (the order matters only where the
  code sorts) and a nil pointer is \<open>None\<close>. Random bytes are arguments (\<open>None\<close> when the source of randomness fails). Code
  outside the repository is an argument too: the AEAD cipher \<open>A\<close> (\<open>aead_laws\<close>), the Arrow IPC codec \<open>I\<close> (\<open>ipc_laws\<close>), the
  Arrow schema codec \<open>S\<close> (\<open>schema_codec_laws\<close>), the Unicode tables \<open>U\<close> and \<open>R\<close>; each has a concrete instance that the
  witnesses use.

  \<^bold>\<open>Opaque data.\<close> \<open>Envelope\<close> is \<open>crypto.go\<close>: sealing and opening of attach and transaction data, bound to the caller's
  identity; its locale \<open>sealed_channel\<close> is the contract that tokens and tickets share. \<open>SplitToken\<close> is \<open>split_token.go\<close> with
  the bind fingerprint over \<open>Sha256\<close>; \<open>AttachTicket\<close> is \<open>attach_ticket.go\<close> with its binary payload and its clock checks. The lemmas
  show that exactly what was minted for a caller opens for that caller, which error each other input gives, and where
  the encodings are ambiguous.

  \<^bold>\<open>Storage.\<close> \<open>SqliteDriver\<close> is a database whose every driver call may fail, \<open>FunctionStore\<close> the statements of
  \<open>function_storage_sqlite.go\<close> over its tables, \<open>ExecutionStore\<close> the handles of \<open>storage.go\<close>, \<open>aggregate_storage.go\<close> and
  \<open>shardkey.go\<close> above it. The locales \<open>kv_store\<close>, \<open>kv_view\<close> and \<open>fifo_queue\<close> are the contracts of the state table, of one namespace
  of it and of the work queue. The lemmas show the table invariant, atomicity under failures, and what is read back.

  \<^bold>\<open>Records.\<close> \<open>ArrowSchema\<close> has Arrow schemas, \<open>CanonicalRow\<close> the one-row records the protocol nests, \<open>ScalarSql\<close> the tokenizer
  and parser of \<open>scalar_sql.go\<close>, \<open>ConstraintRecords\<close> \<open>constraint_records.go\<close>, \<open>ColumnMetadata\<close> \<open>column_metadata.go\<close> and
  \<open>column_expressions.go\<close>, \<open>Capabilities\<close> \<open>attach_profiles.go\<close>. The lemmas are round trips, the totality of the parser, what a
  table serves for given constraint records, and what a negotiation selects.

  \<^bold>\<open>Catalogs.\<close> \<open>SchemaPath\<close> has the keys of schemas, \<open>CatalogItems\<close> the records of schemas, tables and views, \<open>CatalogStreams\<close>
  the six streams and the tags of \<open>catalog_contents\<close> (\<open>catalog_collection.go\<close>, \<open>catalog_contents.go\<close>), with the locale
  \<open>prefix_code\<close> for what a digest hashes. \<open>WritableConstraints\<close> has the NOT NULL records of catalogs with DDL.
  \<open>MemoryCatalog\<close> is \<open>memory_catalog.go\<close>, one definition per method and \<open>serve\<close> for its method table; \<open>MemoryContents\<close> shows its
  invariant and that \<open>catalog_contents\<close> agrees with the listings, \<open>MemorySpec\<close> that attaches are private, that versions tell
  changes, and that it refines an abstract catalog.

  \<^bold>\<open>Writable catalogs.\<close> \<open>WritableRows\<close> has the conversions of Arrow batches to stored rows and back, \<open>WritableStore\<close> the tables and
  operations of \<open>writable_storage.go\<close> over \<open>SqliteDriver\<close>, \<open>WritableCatalog\<close> the handlers of \<open>writable_handlers.go\<close> with their RPC
  methods, the migration of \<open>writable_constraints.go\<close> and the table functions of \<open>writable_functions.go\<close>. A request
  (\<open>WritableSafety\<close>) is one of those handlers or a statement with its batches. The locale \<open>table_rule\<close> is a rule on the rows
  of a table that the definition of a new table allows, \<open>write_rule\<close> one that inserted and updated rows obey; they are
  interpreted for NOT NULL (\<open>required\<close>, in \<open>WritableSafety\<close>) and for the types of columns (\<open>typed\<close>, in \<open>WritableScan\<close>), which gives the
  invariant of NOT NULL and that every scan of typed rows succeeds with typed columns. \<open>WritableScan\<close> also shows that failed writes
  change nothing, \<open>WritableInsert\<close> that inserted rows are scanned back, \<open>WritableServing\<close> what the catalog serves: arguments that
  find no table, and a schema that a DEFAULT makes unreadable.

  \<^bold>\<open>Bounds and fuel.\<close> The SQL tokenizer and parser recurse on fuel that starts at the length of the text; \<open>scalar_parser_total\<close>
  shows that it never runs out. \<open>takeRows\<close> and the codecs terminate by measures on their input. Lengths that the code
  writes as eight bytes are assumed below \<open>2 ^ 64\<close> where injectivity is claimed. The round trip of inserted rows assumes that the
  new row ids stay below \<open>2 ^ 63\<close>, beyond which the code's increment wraps. NOT NULL is shown for drivers that do not fail during the
  migration at ATTACH, because the code takes a scan that stopped halfway for the whole table.

  \<^bold>\<open>Not modelled.\<close> Transports, registration and goroutines of \<open>worker.go\<close> and \<open>protocol.go\<close>; the generated service glue; Arrow
  builders, compute kernels and the embedded DuckDB; publication of snapshots to object storage; the remote storage
  client; reflection-based adapters for user functions; logging; the commands and the examples. They either copy data
  into Arrow arrays, call services, or are interfaces for user code.
\<close>

end
